(* ===== verification/Prelude.thy ===== *)
theory Prelude
  imports Main "HOL-Library.Word" "HOL-Library.AList"
begin

unbundle bit_operations_syntax

text \<open>
  What the components share: Go's bytes, slices, errors and panics, big-endian integers, 64-bit
  signed arithmetic, and Go maps as association lists with distinct keys.  A Go \<open>[]byte\<close> is a \<open>byte list\<close>; a Go \<open>int\<close> is an \<open>int\<close> whose conversions to a
  narrower type are written out; a Go error and a Go panic are the two constructors of
  \<open>go_error\<close>, and a fallible function returns a value of \<open>go_error + 'a\<close>.
\<close>

named_theorems go_simps \<open>definitions of the Go run-time operations that component proofs unfold\<close>

subsection \<open>Errors and panics\<close>

type_synonym byte = "8 word"

datatype go_error = Err string | Panic string

fun bindE :: "go_error + 'a \<Rightarrow> ('a \<Rightarrow> go_error + 'b) \<Rightarrow> go_error + 'b" where
  "bindE (Inl e) f = Inl e"
| "bindE (Inr x) f = f x"

lemma bindE_Inr_iff: "bindE r f = Inr y \<longleftrightarrow> (\<exists>x. r = Inr x \<and> f x = Inr y)"
  by (cases r) auto

lemma bindE_assoc: "bindE (bindE r f) g = bindE r (\<lambda>x. bindE (f x) g)"
  by (cases r) auto

lemma bindE_Inl_iff:
  "bindE r f = Inl e \<longleftrightarrow> r = Inl e \<or> (\<exists>x. r = Inr x \<and> f x = Inl e)"
  by (cases r) auto

lemma bindE_cong [fundef_cong]:
  "r = r' \<Longrightarrow> (\<And>x. r' = Inr x \<Longrightarrow> f x = g x) \<Longrightarrow> bindE r f = bindE r' g"
  by (cases r') auto

text \<open>\<open>errors.Wrap(err, msg)\<close> of github.com/pkg/errors prefixes a non-nil error; a panic is not an
  error value and passes through.\<close>

fun wrapE :: "string \<Rightarrow> go_error + 'a \<Rightarrow> go_error + 'a" where
  "wrapE m (Inl (Err e)) = Inl (Err (m @ '': '' @ e))"
| "wrapE m (Inl (Panic e)) = Inl (Panic e)"
| "wrapE m (Inr x) = Inr x"

lemma wrapE_Inr_iff [simp]: "wrapE m r = Inr x \<longleftrightarrow> r = Inr x"
  by (cases "(m, r)" rule: wrapE.cases) auto

lemma wrapE_Panic_iff [simp]: "wrapE m r = Inl (Panic p) \<longleftrightarrow> r = Inl (Panic p)"
  by (cases "(m, r)" rule: wrapE.cases) auto

text \<open>A loop over a list that stops at the first error: threading a state, or collecting one result
  per element.\<close>

fun foldE :: "('s \<Rightarrow> 'a \<Rightarrow> go_error + 's) \<Rightarrow> 's \<Rightarrow> 'a list \<Rightarrow> go_error + 's" where
  "foldE f s [] = Inr s"
| "foldE f s (x # xs) = bindE (f s x) (\<lambda>s'. foldE f s' xs)"

lemma foldE_append: "foldE f s (xs @ ys) = bindE (foldE f s xs) (\<lambda>s'. foldE f s' ys)"
  by (induction xs arbitrary: s) (auto simp: bindE_assoc)

lemma foldE_inv:
  assumes "foldE f s xs = Inr t" and "I s"
    and "\<And>s x t. x \<in> set xs \<Longrightarrow> I s \<Longrightarrow> f s x = Inr t \<Longrightarrow> I t"
  shows "I t"
  using assms by (induction xs arbitrary: s) (auto simp: bindE_Inr_iff)

fun mapE :: "('a \<Rightarrow> go_error + 'b) \<Rightarrow> 'a list \<Rightarrow> go_error + 'b list" where
  "mapE f [] = Inr []"
| "mapE f (x # xs) = bindE (f x) (\<lambda>y. bindE (mapE f xs) (\<lambda>ys. Inr (y # ys)))"

lemma mapE_Inr_all: "(\<And>x. x \<in> set xs \<Longrightarrow> f x = Inr (g x)) \<Longrightarrow> mapE f xs = Inr (map g xs)"
  by (induction xs) auto

lemma mapE_total: "(\<And>x. x \<in> set xs \<Longrightarrow> f x \<in> range Inr) \<Longrightarrow> mapE f xs \<in> range Inr"
proof (induction xs)
  case (Cons x xs)
  obtain y where "f x = Inr y" using Cons.prems [of x] by auto
  moreover obtain ys where "mapE f xs = Inr ys" using Cons by auto
  ultimately show ?case by simp
qed simp

lemma length_mapE: "mapE f xs = Inr ys \<Longrightarrow> length ys = length xs"
  by (induction xs arbitrary: ys) (auto simp: bindE_Inr_iff)

subsection \<open>Strings as bytes\<close>

definition bytes_of :: "string \<Rightarrow> byte list" where
  "bytes_of s = map of_char s"

lemma bytes_of_simps [simp]:
  "bytes_of [] = []"
  "bytes_of (c # s) = of_char c # bytes_of s"
  "bytes_of (s @ t) = bytes_of s @ bytes_of t"
  "length (bytes_of s) = length s"
  by (simp_all add: bytes_of_def)

subsection \<open>Slices\<close>

text \<open>\<open>copy(dst, src)\<close> overwrites the first \<open>min(len(dst), len(src))\<close> elements of \<open>dst\<close>;
  \<open>copy(dst[off:], src)\<close> does so from \<open>off\<close> on.\<close>

definition go_copy :: "'a list \<Rightarrow> 'a list \<Rightarrow> 'a list" where
  "go_copy dst src = take (length dst) src @ drop (length src) dst"

definition copy_at :: "'a list \<Rightarrow> nat \<Rightarrow> 'a list \<Rightarrow> 'a list" where
  "copy_at dst off src = take off dst @ go_copy (drop off dst) src"

lemma length_go_copy [simp]: "length (go_copy dst src) = length dst"
  by (simp add: go_copy_def)

lemma go_copy_same_length [simp]: "length src = length dst \<Longrightarrow> go_copy dst src = src"
  by (simp add: go_copy_def)

lemma go_copy_longer: "length dst \<le> length src \<Longrightarrow> go_copy dst src = take (length dst) src"
  by (simp add: go_copy_def)

lemma length_copy_at [simp]: "length (copy_at dst off src) = length dst"
  by (simp add: copy_at_def)

lemma copy_at_within:
  "off + length src \<le> length dst \<Longrightarrow>
   copy_at dst off src = take off dst @ src @ drop (off + length src) dst"
  by (simp add: copy_at_def go_copy_def add.commute)

text \<open>A slice expression \<open>b[lo:hi]\<close> panics unless \<open>0 \<le> lo \<le> hi \<le> cap(b)\<close>; here \<open>cap\<close> is \<open>len\<close>.\<close>

definition slice :: "'a list \<Rightarrow> int \<Rightarrow> int \<Rightarrow> go_error + 'a list" where
  "slice b lo hi = (if 0 \<le> lo \<and> lo \<le> hi \<and> hi \<le> int (length b)
     then Inr (take (nat (hi - lo)) (drop (nat lo) b))
     else Inl (Panic ''slice bounds out of range''))"

lemma slice_ok:
  "i \<le> j \<Longrightarrow> j \<le> length b \<Longrightarrow> slice b (int i) (int j) = Inr (take (j - i) (drop i b))"
  by (simp add: slice_def flip: of_nat_diff)

text \<open>\<open>copy(dst[off:], src)\<close> with the bounds check of its slice expression.\<close>

definition copy_from :: "'a list \<Rightarrow> nat \<Rightarrow> 'a list \<Rightarrow> go_error + 'a list" where
  "copy_from dst off src = (if off \<le> length dst then Inr (copy_at dst off src)
     else Inl (Panic ''slice bounds out of range''))"

text \<open>Consecutive pieces of \<open>w\<close> elements; a shorter remainder is dropped.\<close>

definition pieces :: "nat \<Rightarrow> 'a list \<Rightarrow> 'a list list" where
  "pieces w b = map (\<lambda>i. take w (drop (i * w) b)) [0..<length b div w]"

lemma length_pieces [simp]: "length (pieces w b) = length b div w"
  by (simp add: pieces_def)

lemma pieces_elem_length: "x \<in> set (pieces w b) \<Longrightarrow> length x = w"
proof -
  assume "x \<in> set (pieces w b)"
  then obtain i where i: "i < length b div w" and x: "x = take w (drop (i * w) b)"
    by (auto simp: pieces_def)
  from i have "Suc i * w \<le> length b"
    by (metis Suc_leI div_times_less_eq_dividend le_trans mult_le_mono1)
  with x show ?thesis by simp
qed

lemma pieces_append:
  assumes "0 < w" and "length x = w"
  shows "pieces w (x @ b) = x # pieces w b"
proof -
  have "length (x @ b) div w = Suc (length b div w)"
    using assms by (simp add: div_add_self1)
  then have "pieces w (x @ b) = map (\<lambda>i. take w (drop (i * w) (x @ b))) (0 # map Suc [0..<length b div w])"
    unfolding pieces_def by (simp only: map_Suc_upt upt_conv_Cons zero_less_Suc)
  then show ?thesis using assms by (simp add: pieces_def comp_def)
qed

lemma pieces_short: "length b < w \<Longrightarrow> pieces w b = []"
  by (simp add: pieces_def)

lemma pieces_concat:
  "0 < w \<Longrightarrow> (\<And>x. x \<in> set xs \<Longrightarrow> length x = w) \<Longrightarrow> length r < w \<Longrightarrow> pieces w (concat xs @ r) = xs"
  by (induction xs) (simp_all add: pieces_short pieces_append)

lemma concat_pieces:
  assumes "0 < w" and "length b mod w = 0"
  shows "concat (pieces w b) = b"
  using assms(2)
proof (induction "length b div w" arbitrary: b)
  case 0
  then have "length b < w" using assms(1) by (simp add: div_eq_0_iff)
  with 0 have "b = []" by simp
  then show ?case by (simp add: pieces_def)
next
  case (Suc n)
  then have "w \<le> length b"
    using assms(1) by (metis div_less not_less zero_less_Suc less_irrefl)
  moreover from this Suc have "concat (pieces w (drop w b)) = drop w b"
    using assms(1) by (metis Suc.hyps(1) diff_Suc_1 le_div_geq le_mod_geq length_drop nat.inject)
  ultimately show ?case
    using assms(1) pieces_append [of w "take w b" "drop w b"] by simp
qed

lemma mapE_cong [fundef_cong]:
  "xs = ys \<Longrightarrow> (\<And>x. x \<in> set ys \<Longrightarrow> f x = g x) \<Longrightarrow> mapE f xs = mapE g ys"
  by (induction xs arbitrary: ys) auto

lemma mapE_Inr_list_all2: "mapE f xs = Inr ys \<Longrightarrow> list_all2 (\<lambda>x y. f x = Inr y) xs ys"
  by (induction xs arbitrary: ys) (auto simp: bindE_Inr_iff)

lemma mapE_map: "mapE f (map g xs) = mapE (\<lambda>x. f (g x)) xs"
  by (induction xs) auto

text \<open>A loop that decodes \<open>b[i*w : i*w+w]\<close> for every \<open>i\<close> decodes the pieces of \<open>b\<close>; its slice
  expressions never panic.\<close>

lemma mapE_slices:
  "mapE (\<lambda>i. bindE (slice b (int (i * w)) (int (i * w + w))) f) [0..<length b div w]
   = mapE f (pieces w b)"
proof -
  have "slice b (int (i * w)) (int (i * w + w)) = Inr (take w (drop (i * w) b))"
    if "i < length b div w" for i
  proof -
    from that have "Suc i * w \<le> length b"
      by (metis Suc_leI div_times_less_eq_dividend le_trans mult_le_mono1)
    then show ?thesis using slice_ok [of "i * w" "i * w + w" b] by simp
  qed
  then show ?thesis
    unfolding pieces_def mapE_map by (intro mapE_cong) auto
qed

subsection \<open>Big-endian integers\<close>

definition uint16_bytes :: "16 word \<Rightarrow> byte list" where
  "uint16_bytes v = [ucast (drop_bit 8 v), ucast v]"

fun bytes_uint16 :: "byte list \<Rightarrow> go_error + 16 word" where
  "bytes_uint16 (x # y # _) = Inr (ucast y OR push_bit 8 (ucast x))"
| "bytes_uint16 _ = Inl (Panic ''index out of range'')"

definition uint32_bytes :: "32 word \<Rightarrow> byte list" where
  "uint32_bytes v = [ucast (drop_bit 24 v), ucast (drop_bit 16 v), ucast (drop_bit 8 v), ucast v]"

fun bytes_uint32 :: "byte list \<Rightarrow> go_error + 32 word" where
  "bytes_uint32 (a # b # c # d # _) =
     Inr (ucast d OR push_bit 8 (ucast c) OR push_bit 16 (ucast b) OR push_bit 24 (ucast a))"
| "bytes_uint32 _ = Inl (Panic ''index out of range'')"

text \<open>\<open>binary.BigEndian.PutUint16(b[off:], v)\<close> panics when fewer than two bytes are left.\<close>

definition put_uint16_at :: "byte list \<Rightarrow> nat \<Rightarrow> 16 word \<Rightarrow> go_error + byte list" where
  "put_uint16_at b off v = (if off + 2 \<le> length b then Inr (copy_at b off (uint16_bytes v))
     else Inl (Panic ''index out of range''))"

lemma length_uint16_bytes [simp]: "length (uint16_bytes v) = 2"
  by (simp add: uint16_bytes_def)

lemma length_uint32_bytes [simp]: "length (uint32_bytes v) = 4"
  by (simp add: uint32_bytes_def)

lemma uint16_join_split: "(ucast (ucast v :: byte) OR push_bit 8 (ucast (ucast (drop_bit 8 v) :: byte))) = (v :: 16 word)"
  by (rule bit_word_eqI) (auto simp: bit_simps)

lemma uint16_split_join:
  fixes x y :: byte
  shows "ucast (drop_bit 8 (ucast y OR push_bit 8 (ucast x) :: 16 word)) = x"
    and "ucast (ucast y OR push_bit 8 (ucast x) :: 16 word) = y"
  by (rule bit_word_eqI, auto simp: bit_simps dest: bit_imp_le_length)+

lemma bytes_uint16_bytes [simp]: "bytes_uint16 (uint16_bytes v @ r) = Inr v"
  by (simp add: uint16_bytes_def uint16_join_split)

lemma uint16_bytes_bytes: "bytes_uint16 (x # y # r) = Inr v \<Longrightarrow> uint16_bytes v = [x, y]"
  by (auto simp only: bytes_uint16.simps sum.inject uint16_bytes_def uint16_split_join)

lemma uint16_bytes_inj [simp]: "uint16_bytes v = uint16_bytes w \<longleftrightarrow> v = w"
  by (metis append_Nil2 bytes_uint16_bytes sum.inject(2))

lemma uint32_join_split:
  "(ucast (ucast v :: byte) OR push_bit 8 (ucast (ucast (drop_bit 8 v) :: byte))
    OR push_bit 16 (ucast (ucast (drop_bit 16 v) :: byte))
    OR push_bit 24 (ucast (ucast (drop_bit 24 v) :: byte))) = (v :: 32 word)"
proof (rule bit_word_eqI)
  fix n assume "n < LENGTH(32)"
  then have "n < 8 \<or> 8 \<le> n \<and> n < 16 \<or> 16 \<le> n \<and> n < 24 \<or> 24 \<le> n \<and> n < 32"
    by simp linarith
  then show "bit (ucast (ucast v :: byte) OR push_bit 8 (ucast (ucast (drop_bit 8 v) :: byte))
      OR push_bit 16 (ucast (ucast (drop_bit 16 v) :: byte))
      OR push_bit 24 (ucast (ucast (drop_bit 24 v) :: byte)) :: 32 word) n = bit v n"
    by (auto simp: bit_simps)
qed

lemma bytes_uint32_bytes [simp]: "bytes_uint32 (uint32_bytes v @ r) = Inr v"
  by (simp add: uint32_bytes_def uint32_join_split)

subsection \<open>Addresses of package net\<close>

record udp_addr =
  udp_IP :: "byte list"
  udp_Port :: int
  udp_Zone :: string

record tcp_addr =
  tcp_IP :: "byte list"
  tcp_Port :: int

text \<open>\<open>net.IP.To4\<close>: a 4-byte address, the last four bytes of a v4-in-v6 address, else nil.\<close>

definition to4 :: "byte list \<Rightarrow> byte list option" where
  "to4 ip = (if length ip = 4 then Some ip
     else if length ip = 16 \<and> take 10 ip = replicate 10 0 \<and> ip ! 10 = 255 \<and> ip ! 11 = 255
       then Some (drop 12 ip)
     else None)"

lemma to4_length: "to4 ip = Some b \<Longrightarrow> length b = 4"
  by (auto simp: to4_def split: if_splits)

lemma to4_four [simp]: "length ip = 4 \<Longrightarrow> to4 ip = Some ip"
  by (simp add: to4_def)

subsection \<open>Signed 64-bit arithmetic\<close>

text \<open>Go's \<open>int\<close> and \<open>int64\<close> wrap around at 64 bits, and division truncates towards zero; the
  quotient of the least value by \<open>-1\<close> wraps to itself.  A zero divisor panics and is tested by the
  callers.\<close>

definition wrap64 :: "int \<Rightarrow> int" where
  "wrap64 x = (x + 2 ^ 63) mod 2 ^ 64 - 2 ^ 63"

definition go_div :: "int \<Rightarrow> int \<Rightarrow> int" where
  "go_div a b = wrap64 (sgn a * sgn b * (\<bar>a\<bar> div \<bar>b\<bar>))"

lemma wrap64_id: "- (2 ^ 63) \<le> x \<Longrightarrow> x < 2 ^ 63 \<Longrightarrow> wrap64 x = x"
  by (simp add: wrap64_def)

lemma wrap64_range: "- (2 ^ 63) \<le> wrap64 x" "wrap64 x < 2 ^ 63"
proof -
  have "0 \<le> (x + 2 ^ 63) mod 2 ^ 64" "(x + 2 ^ 63) mod 2 ^ 64 < 2 ^ 64"
    by simp_all
  then show "- (2 ^ 63) \<le> wrap64 x" "wrap64 x < 2 ^ 63"
    unfolding wrap64_def by simp_all
qed

subsection \<open>Go maps\<close>

text \<open>A Go map is an association list with distinct keys: \<open>m[k] = v\<close> is \<open>AList.update k v m\<close>,
  \<open>delete(m, k)\<close> is \<open>AList.delete k m\<close>, \<open>len(m)\<close> is \<open>length m\<close>, and a read of a missing key yields the
  element type's zero value.\<close>

definition keys :: "('k \<times> 'v) list \<Rightarrow> 'k list" where
  "keys m = map fst m"

definition map_get :: "('k \<times> 'v) list \<Rightarrow> 'k \<Rightarrow> 'v \<Rightarrow> 'v" where
  "map_get m k zero = (case map_of m k of None \<Rightarrow> zero | Some v \<Rightarrow> v)"

lemma keys_simps [simp]:
  "keys [] = []"
  "keys ((k, v) # m) = k # keys m"
  "length (keys m) = length m"
  by (simp_all add: keys_def)

lemma set_keys: "set (keys m) = dom (map_of m)"
  by (simp add: keys_def dom_map_of_conv_image_fst)

lemma map_of_None_keys [simp]: "map_of m k = None \<longleftrightarrow> k \<notin> set (keys m)"
  by (simp add: keys_def map_of_eq_None_iff)

lemma keys_update:
  "keys (AList.update k v m) = (if k \<in> set (keys m) then keys m else keys m @ [k])"
  by (induction m) auto

lemma keys_delete: "keys (AList.delete k m) = removeAll k (keys m)"
  by (induction m) (auto simp: AList.delete_eq)

lemma distinct_keys_update [simp]: "distinct (keys m) \<Longrightarrow> distinct (keys (AList.update k v m))"
  by (simp add: keys_update)

lemma distinct_keys_delete [simp]: "distinct (keys m) \<Longrightarrow> distinct (keys (AList.delete k m))"
  by (simp add: keys_delete distinct_removeAll)

lemma length_map_update:
  "length (AList.update k v m) = (if k \<in> set (keys m) then length m else Suc (length m))"
  using arg_cong [OF keys_update [of k v m], of length] by (simp split: if_splits)

lemma length_map_delete_le: "length (AList.delete k m) \<le> length m"
  by (simp add: AList.delete_eq)

lemma map_get_update [simp]: "map_get (AList.update k v m) k z = v"
  by (simp add: map_get_def update_conv')

lemma map_get_update_neq [simp]: "j \<noteq> k \<Longrightarrow> map_get (AList.update k v m) j z = map_get m j z"
  by (simp add: map_get_def update_conv')

lemma set_update_subset: "set (AList.update k v m) \<subseteq> insert (k, v) (set m)"
  by (induction m) auto

lemma ball_update:
  "(\<And>x. x \<in> set m \<Longrightarrow> P x) \<Longrightarrow> P (k, v) \<Longrightarrow> \<forall>x \<in> set (AList.update k v m). P x"
  using set_update_subset [of k v m] by auto

lemma ball_delete: "\<forall>x \<in> set m. P x \<Longrightarrow> \<forall>x \<in> set (AList.delete k m). P x"
  by (simp add: AList.delete_eq)

text \<open>A run of insertions under pairwise different keys keeps every inserted value.\<close>

lemma map_get_fold_update:
  assumes "inj_on f (set is)" and "i \<in> set is" and "distinct is"
  shows "map_get (fold (\<lambda>i. AList.update (f i) (g i)) is m) (f i) z = g i"
  using assms
proof (induction "is" arbitrary: m rule: rev_induct)
  case (snoc j js)
  show ?case
  proof (cases "i = j")
    case False
    with snoc.prems have "i \<in> set js" by simp
    moreover from this snoc.prems have "f i \<noteq> f j"
      using False inj_onD [OF snoc.prems(1), of i j] by auto
    ultimately show ?thesis using snoc by (simp add: inj_on_def)
  qed simp
qed simp

end
