(* ===== verification/Codec.thy ===== *)
theory Codec
  imports Prelude
begin

text \<open>
  The KRPC codec of \<open>cmd/magneticod/dht/mainline/codec.go\<close>: the message structures, the compact
  encodings of peers (6 or 18 bytes) and of nodes (26 bytes), and the textual encoding of error
  lists.  The bencode library (github.com/anacrolix/torrent/bencode) is a parameter: \<open>marshal\<close> is its
  \<open>Marshal\<close> on a byte slice and \<open>unmarshal\<close> its \<open>Unmarshal\<close> into a byte slice.
\<close>

subsection \<open>Data\<close>

record compact_peer =
  cp_IP :: "byte list"
  cp_Port :: int

record compact_node_info =
  cni_ID :: "byte list"
  cni_Addr :: udp_addr

record krpc_error =
  e_Code :: int
  e_Message :: "byte list"

record query_arguments =
  a_ID :: "byte list"
  a_InfoHash :: "byte list"
  a_Target :: "byte list"
  a_Token :: "byte list"
  a_Port :: int
  a_ImpliedPort :: int
  a_Seed :: int
  a_NoSeed :: int
  a_Scrape :: int

text \<open>The two Bloom filter pointers are never dereferenced by the program; a pointer is an optional
  address.\<close>

record response_values =
  r_ID :: "byte list"
  r_Nodes :: "compact_node_info list"
  r_Token :: "byte list"
  r_Values :: "compact_peer list"
  r_Interval :: int
  r_Num :: int
  r_Samples :: "byte list"
  r_BFsd :: "nat option"
  r_BFpe :: "nat option"

record message =
  m_Q :: string
  m_A :: query_arguments
  m_T :: "byte list"
  m_Y :: string
  m_R :: response_values
  m_E :: krpc_error

text \<open>The zero values a Go composite literal leaves in the fields it does not name.\<close>

definition zero_A :: query_arguments where
  "zero_A = \<lparr>a_ID = [], a_InfoHash = [], a_Target = [], a_Token = [], a_Port = 0,
     a_ImpliedPort = 0, a_Seed = 0, a_NoSeed = 0, a_Scrape = 0\<rparr>"

definition zero_R :: response_values where
  "zero_R = \<lparr>r_ID = [], r_Nodes = [], r_Token = [], r_Values = [], r_Interval = 0, r_Num = 0,
     r_Samples = [], r_BFsd = None, r_BFpe = None\<rparr>"

definition zero_E :: krpc_error where
  "zero_E = \<lparr>e_Code = 0, e_Message = []\<rparr>"

definition zero_message :: message where
  "zero_message = \<lparr>m_Q = [], m_A = zero_A, m_T = [], m_Y = [], m_R = zero_R, m_E = zero_E\<rparr>"

subsection \<open>Compact peers\<close>

definition ip_bytes :: "byte list option \<Rightarrow> byte list" where
  "ip_bytes ip = (case ip of None \<Rightarrow> [] | Some b \<Rightarrow> b)"

definition CompactPeers_MarshalBinary :: "compact_peer list \<Rightarrow> go_error + byte list" where
  "CompactPeers_MarshalBinary cps =
     foldE (\<lambda>ret (i, cp).
         bindE (copy_from ret (6 * i) (ip_bytes (to4 (cp_IP cp)))) (\<lambda>ret.
         put_uint16_at ret (6 * i + 4) (word_of_int (cp_Port cp))))
       (replicate (length cps * 6) 0) (enumerate 0 cps)"

definition CompactPeer_MarshalBencode ::
    "(byte list \<Rightarrow> go_error + byte list) \<Rightarrow> compact_peer \<Rightarrow> go_error + byte list" where
  "CompactPeer_MarshalBencode marshal cp =
     (let ip = (case to4 (cp_IP cp) of Some ip4 \<Rightarrow> ip4 | None \<Rightarrow> cp_IP cp);
          ret = go_copy (replicate (length ip + 2) 0) ip
      in bindE (put_uint16_at ret (length ip) (word_of_int (cp_Port cp))) marshal)"

definition CompactPeer_UnmarshalBinary :: "byte list \<Rightarrow> go_error + compact_peer" where
  "CompactPeer_UnmarshalBinary b =
     (if length b = 18 \<or> length b = 6
      then let ip = go_copy (replicate (if length b = 18 then 16 else 4) 0) b
           in bindE (slice b (int (length ip)) (int (length b))) (\<lambda>b'.
              bindE (bytes_uint16 b') (\<lambda>port. Inr \<lparr>cp_IP = ip, cp_Port = uint port\<rparr>))
      else Inl (Err ''bad compact peer string''))"

definition CompactPeer_UnmarshalBencode ::
    "(byte list \<Rightarrow> go_error + byte list) \<Rightarrow> byte list \<Rightarrow> go_error + compact_peer" where
  "CompactPeer_UnmarshalBencode unmarshal b = bindE (unmarshal b) CompactPeer_UnmarshalBinary"

definition UnmarshalCompactPeers :: "byte list \<Rightarrow> go_error + compact_peer list" where
  "UnmarshalCompactPeers b =
     mapE (\<lambda>i. bindE (slice b (int (i * 6)) (int (i * 6 + 6))) CompactPeer_UnmarshalBinary)
       [0..<length b div 6]"

definition CompactPeers_UnmarshalBencode ::
    "(byte list \<Rightarrow> go_error + byte list) \<Rightarrow> byte list \<Rightarrow> go_error + compact_peer list" where
  "CompactPeers_UnmarshalBencode unmarshal b = bindE (unmarshal b) UnmarshalCompactPeers"

subsection \<open>Compact node infos\<close>

text \<open>The receiver's \<open>ID\<close> was allocated by the caller; only its length matters, since \<open>copy\<close>
  overwrites it.\<close>

definition CompactNodeInfo_UnmarshalBinary ::
    "compact_node_info \<Rightarrow> byte list \<Rightarrow> go_error + compact_node_info" where
  "CompactNodeInfo_UnmarshalBinary cni b =
     (let nid = go_copy (cni_ID cni) b
      in bindE (slice b (int (length nid)) (int (length b))) (\<lambda>b1.
         let ip = go_copy (replicate 4 0) b1
         in bindE (slice b1 (int (length ip)) (int (length b1))) (\<lambda>b2.
            bindE (bytes_uint16 b2) (\<lambda>port.
            Inr \<lparr>cni_ID = nid, cni_Addr = \<lparr>udp_IP = ip, udp_Port = uint port, udp_Zone = []\<rparr>\<rparr>))))"

text \<open>An element of the result slice before it is decoded: its \<open>ID\<close> is 20 zero bytes.\<close>

definition zero_node :: compact_node_info where
  "zero_node = \<lparr>cni_ID = replicate 20 0, cni_Addr = \<lparr>udp_IP = [], udp_Port = 0, udp_Zone = []\<rparr>\<rparr>"

definition UnmarshalCompactNodeInfos :: "byte list \<Rightarrow> go_error + compact_node_info list" where
  "UnmarshalCompactNodeInfos b =
     (if length b mod 26 \<noteq> 0 then Inl (Err ''compact node is not a multiple of 26'')
      else mapE (\<lambda>i. bindE (slice b (int (i * 26)) (int (i * 26 + 26)))
             (CompactNodeInfo_UnmarshalBinary zero_node))
           [0..<length b div 26])"

definition CompactNodeInfos_UnmarshalBencode ::
    "(byte list \<Rightarrow> go_error + byte list) \<Rightarrow> byte list \<Rightarrow> go_error + compact_node_info list" where
  "CompactNodeInfos_UnmarshalBencode unmarshal b = bindE (unmarshal b) UnmarshalCompactNodeInfos"

definition CompactNodeInfo_MarshalBinary :: "compact_node_info \<Rightarrow> byte list" where
  "CompactNodeInfo_MarshalBinary cni =
     go_copy (replicate 20 0) (cni_ID cni)
       @ ip_bytes (to4 (udp_IP (cni_Addr cni)))
       @ uint16_bytes (word_of_int (udp_Port (cni_Addr cni)))"

definition CompactNodeInfos_MarshalBencode ::
    "(byte list \<Rightarrow> go_error + byte list) \<Rightarrow> compact_node_info list \<Rightarrow> go_error + byte list" where
  "CompactNodeInfos_MarshalBencode marshal cnis =
     (if cnis = [] then Inr (bytes_of ''0:'')
      else marshal (concat (map CompactNodeInfo_MarshalBinary cnis)))"

subsection \<open>Error lists\<close>

fun decimal :: "nat \<Rightarrow> byte list" where
  "decimal n = (if n < 10 then [of_nat (48 + n)] else decimal (n div 10) @ [of_nat (48 + n mod 10)])"

declare decimal.simps [simp del]

text \<open>The verb \<open>%d\<close> of package fmt on an \<open>int\<close>.\<close>

definition fmt_d :: "int \<Rightarrow> byte list" where
  "fmt_d i = (if i < 0 then 45 # decimal (nat (- i)) else decimal (nat i))"

definition Error_MarshalBencode :: "krpc_error \<Rightarrow> byte list" where
  "Error_MarshalBencode e =
     bytes_of ''li'' @ fmt_d (e_Code e) @ bytes_of ''e'' @ fmt_d (int (length (e_Message e)))
       @ bytes_of '':'' @ e_Message e @ bytes_of ''e''"

definition is_digit :: "byte \<Rightarrow> bool" where
  "is_digit b \<longleftrightarrow> 48 \<le> b \<and> b \<le> 57"

definition digits_val :: "byte list \<Rightarrow> nat" where
  "digits_val ds = foldl (\<lambda>a d. 10 * a + (unat d - 48)) 0 ds"

text \<open>
  The regular expression \<open>li([0-9]+)e([0-9]+):(.+)e\<close> at one position: both digit runs are maximal,
  since a digit is neither \<open>e\<close> nor a colon; the greedy dot matches any byte but a newline, so the
  third group ends at the last \<open>e\<close> of the line that leaves it non-empty.
\<close>

definition match_error_body :: "byte list \<Rightarrow> byte list option" where
  "match_error_body rest =
     (let line = takeWhile (\<lambda>b. b \<noteq> 10) rest;
          ks = filter (\<lambda>k. line ! k = 101) [1..<length line]
      in if ks = [] then None else Some (take (last ks) line))"

definition match_error_at :: "byte list \<Rightarrow> (byte list \<times> byte list \<times> byte list) option" where
  "match_error_at b =
     (if take 2 b = [108, 105] then
        let ds1 = takeWhile is_digit (drop 2 b); r1 = dropWhile is_digit (drop 2 b)
        in if ds1 \<noteq> [] \<and> take 1 r1 = [101] then
             let ds2 = takeWhile is_digit (drop 1 r1); r2 = dropWhile is_digit (drop 1 r1)
             in if ds2 \<noteq> [] \<and> take 1 r2 = [58]
                then map_option (\<lambda>m. (ds1, ds2, m)) (match_error_body (drop 1 r2))
                else None
           else None
      else None)"

text \<open>\<open>FindAllSubmatch(b, 1)\<close>: the leftmost match.\<close>

fun find_error :: "byte list \<Rightarrow> (byte list \<times> byte list \<times> byte list) option" where
  "find_error [] = None"
| "find_error (x # xs) = (case match_error_at (x # xs) of Some m \<Rightarrow> Some m | None \<Rightarrow> find_error xs)"

text \<open>\<open>fmt.Sscanf(s, "%d", &i)\<close> on a non-empty run of decimal digits fails exactly on overflow.\<close>

definition sscanf_d :: "byte list \<Rightarrow> go_error + int" where
  "sscanf_d ds = (if digits_val ds < 2 ^ 63 then Inr (int (digits_val ds))
     else Inl (Err ''integer overflow''))"

definition Error_UnmarshalBencode :: "byte list \<Rightarrow> go_error + krpc_error" where
  "Error_UnmarshalBencode b =
     (case find_error b of
        None \<Rightarrow> Inl (Err ''could not parse the error list'')
      | Some (m0, m1, m2) \<Rightarrow>
          bindE (wrapE ''could not parse error code'' (sscanf_d m0)) (\<lambda>code.
          bindE (wrapE ''could not parse error msg length'' (sscanf_d m1)) (\<lambda>msgLen.
          if int (length m2) \<noteq> msgLen then Inl (Err ''error message have different lengths'')
          else Inr \<lparr>e_Code = code, e_Message = m2\<rparr>)))"

subsection \<open>Single compact values\<close>

definition valid_port :: "int \<Rightarrow> bool" where
  "valid_port p \<longleftrightarrow> 0 \<le> p \<and> p < 65536"

lemma uint_port [simp]: "valid_port p \<Longrightarrow> uint (word_of_int p :: 16 word) = p"
  by (simp add: valid_port_def uint_word_of_int take_bit_eq_mod)

lemma valid_port_uint [simp]: "valid_port (uint (v :: 16 word))"
  using uint_bounded [of v] by (simp add: valid_port_def)

lemma CompactPeer_UnmarshalBinary_append:
  assumes "length ip = 4 \<or> length ip = 16"
  shows "CompactPeer_UnmarshalBinary (ip @ uint16_bytes v) = Inr \<lparr>cp_IP = ip, cp_Port = uint v\<rparr>"
proof -
  have "slice (ip @ uint16_bytes v) (int (length ip)) (int (length ip + 2)) = Inr (uint16_bytes v)"
    by (subst slice_ok) simp_all
  then show ?thesis
    using assms bytes_uint16_bytes [of v "[]"]
    by (auto simp: CompactPeer_UnmarshalBinary_def go_copy_longer add.commute)
qed

lemma length_two: "length xs = 2 \<Longrightarrow> \<exists>x y. xs = [x, y]"
  by (auto simp: length_Suc_conv numeral_2_eq_2)

lemma split_port:
  assumes "length b = n + 2"
  obtains p v where "b = p @ uint16_bytes v" and "length p = n"
proof -
  from assms have "length (drop n b) = 2" by simp
  then obtain x y where xy: "drop n b = [x, y]"
    using length_two by blast
  obtain v where "bytes_uint16 (x # y # []) = Inr v" by simp
  from uint16_bytes_bytes [OF this] xy have "b = take n b @ uint16_bytes v"
    by (metis append_take_drop_id)
  moreover have "length (take n b) = n" using assms by simp
  ultimately show thesis by (rule that)
qed

lemma CompactNodeInfo_UnmarshalBinary_append:
  assumes "length i = length (cni_ID cni)" and "length ip = 4"
  shows "CompactNodeInfo_UnmarshalBinary cni (i @ ip @ uint16_bytes v)
     = Inr \<lparr>cni_ID = i, cni_Addr = \<lparr>udp_IP = ip, udp_Port = uint v, udp_Zone = []\<rparr>\<rparr>"
proof -
  have "slice (i @ ip @ uint16_bytes v) (int (length i)) (int (length (i @ ip @ uint16_bytes v)))
      = Inr (ip @ uint16_bytes v)"
    by (subst slice_ok) simp_all
  moreover have "slice (ip @ uint16_bytes v) (int 4) (int (length (ip @ uint16_bytes v)))
      = Inr (uint16_bytes v)"
    using assms(2) by (subst slice_ok) simp_all
  ultimately show ?thesis
    using assms bytes_uint16_bytes [of v "[]"]
    by (simp add: CompactNodeInfo_UnmarshalBinary_def go_copy_longer Let_def)
qed

subsection \<open>Lists of compact nodes\<close>

text \<open>The nodes a compact encoding can carry: a 20-byte identifier, an IPv4 address in 4-byte form and
  a 16-bit port.\<close>

definition wf_node :: "compact_node_info \<Rightarrow> bool" where
  "wf_node c \<longleftrightarrow> length (cni_ID c) = 20 \<and> length (udp_IP (cni_Addr c)) = 4
     \<and> valid_port (udp_Port (cni_Addr c)) \<and> udp_Zone (cni_Addr c) = []"

lemma CompactNodeInfo_MarshalBinary_wf:
  "wf_node c \<Longrightarrow> CompactNodeInfo_MarshalBinary c
     = cni_ID c @ udp_IP (cni_Addr c) @ uint16_bytes (word_of_int (udp_Port (cni_Addr c)))"
  by (simp add: wf_node_def CompactNodeInfo_MarshalBinary_def ip_bytes_def)

lemma length_CompactNodeInfo_MarshalBinary [simp]:
  "wf_node c \<Longrightarrow> length (CompactNodeInfo_MarshalBinary c) = 26"
  by (simp add: CompactNodeInfo_MarshalBinary_wf) (simp add: wf_node_def)

lemma CompactNodeInfo_Unmarshal_Marshal:
  assumes "wf_node c" and "length (cni_ID z) = 20"
  shows "CompactNodeInfo_UnmarshalBinary z (CompactNodeInfo_MarshalBinary c) = Inr c"
  using assms
  by (simp add: CompactNodeInfo_MarshalBinary_wf)
     (simp add: CompactNodeInfo_UnmarshalBinary_append wf_node_def)

lemma zero_node_ID [simp]: "length (cni_ID zero_node) = 20"
  by (simp add: zero_node_def)

lemma split_node:
  assumes "length b = 26"
  obtains i ip v where "b = i @ ip @ uint16_bytes v" "length i = 20" "length ip = 4"
proof -
  from assms obtain p v where "b = p @ uint16_bytes v" "length p = 24"
    using split_port [of b 24] by auto
  then show thesis using that [of "take 20 p" "drop 20 p" v] by simp
qed

lemma CompactNodeInfo_UnmarshalBinary_26:
  assumes "length b = 26" and "length (cni_ID z) = 20"
  obtains c where "CompactNodeInfo_UnmarshalBinary z b = Inr c"
    and "wf_node c" and "CompactNodeInfo_MarshalBinary c = b"
proof -
  obtain i ip v where b: "b = i @ ip @ uint16_bytes v" "length i = 20" "length ip = 4"
    using split_node [OF assms(1)] by blast
  let ?c = "\<lparr>cni_ID = i, cni_Addr = \<lparr>udp_IP = ip, udp_Port = uint v, udp_Zone = []\<rparr>\<rparr>"
  have "CompactNodeInfo_UnmarshalBinary z b = Inr ?c"
    using b assms(2) by (simp add: CompactNodeInfo_UnmarshalBinary_append)
  moreover have "wf_node ?c" and "CompactNodeInfo_MarshalBinary ?c = b"
    using b by (simp_all add: wf_node_def CompactNodeInfo_MarshalBinary_def ip_bytes_def)
  ultimately show thesis by (rule that)
qed

lemma CompactNodeInfo_Marshal_Unmarshal:
  assumes "length b = 26" and "length (cni_ID z) = 20"
    and "CompactNodeInfo_UnmarshalBinary z b = Inr c"
  shows "wf_node c \<and> CompactNodeInfo_MarshalBinary c = b"
  using CompactNodeInfo_UnmarshalBinary_26 [OF assms(1,2)] assms(3) by (metis sum.inject(2))

lemma UnmarshalCompactNodeInfos_pieces:
  "length b mod 26 = 0 \<Longrightarrow>
   UnmarshalCompactNodeInfos b = mapE (CompactNodeInfo_UnmarshalBinary zero_node) (pieces 26 b)"
  by (simp add: UnmarshalCompactNodeInfos_def mapE_slices [symmetric])

lemma UnmarshalCompactNodeInfos_encode:
  assumes "\<forall>c \<in> set cnis. wf_node c"
  shows "UnmarshalCompactNodeInfos (concat (map CompactNodeInfo_MarshalBinary cnis)) = Inr cnis"
proof -
  let ?b = "concat (map CompactNodeInfo_MarshalBinary cnis)"
  have "length ?b = 26 * length cnis"
    using assms by (induction cnis) auto
  moreover have "pieces 26 (?b @ []) = map CompactNodeInfo_MarshalBinary cnis"
    using assms by (intro pieces_concat) auto
  ultimately show ?thesis
    using assms mapE_Inr_all [of cnis _ id]
    by (simp add: UnmarshalCompactNodeInfos_pieces mapE_map CompactNodeInfo_Unmarshal_Marshal)
qed

lemma UnmarshalCompactNodeInfos_decode:
  assumes "UnmarshalCompactNodeInfos b = Inr cnis"
  shows "(\<forall>c \<in> set cnis. wf_node c) \<and> concat (map CompactNodeInfo_MarshalBinary cnis) = b"
proof -
  from assms have m: "length b mod 26 = 0"
    by (auto simp: UnmarshalCompactNodeInfos_def split: if_splits)
  have "list_all2 (\<lambda>p c. wf_node c \<and> CompactNodeInfo_MarshalBinary c = p) (pieces 26 b) cnis"
    by (rule list.rel_mono_strong
          [OF mapE_Inr_list_all2 [OF assms [unfolded UnmarshalCompactNodeInfos_pieces [OF m]]]])
       (rule CompactNodeInfo_Marshal_Unmarshal, auto simp: pieces_elem_length)
  then have "map CompactNodeInfo_MarshalBinary cnis = pieces 26 b \<and> (\<forall>c \<in> set cnis. wf_node c)"
    by (induction rule: list_all2_induct) auto
  then show ?thesis using concat_pieces [OF _ m] by simp
qed

subsection \<open>Lists of compact peers\<close>

text \<open>What one peer contributes to the encoding: an address with no IPv4 form is left as zeros.\<close>

definition peer_bytes :: "compact_peer \<Rightarrow> byte list" where
  "peer_bytes cp = (case to4 (cp_IP cp) of None \<Rightarrow> replicate 4 0 | Some b \<Rightarrow> b)
     @ uint16_bytes (word_of_int (cp_Port cp))"

lemma length_peer_bytes [simp]: "length (peer_bytes cp) = 6"
  by (auto simp: peer_bytes_def to4_length split: option.splits)

lemma marshal_peer_step:
  assumes "length A = 6 * i"
  shows "bindE (copy_from (A @ replicate (6 * Suc n) 0) (6 * i) (ip_bytes (to4 (cp_IP cp)))) (\<lambda>ret.
      put_uint16_at ret (6 * i + 4) (word_of_int (cp_Port cp)))
    = Inr ((A @ peer_bytes cp) @ replicate (6 * n) 0)"
proof -
  let ?four = "case to4 (cp_IP cp) of None \<Rightarrow> replicate 4 0 | Some b \<Rightarrow> b"
  have four: "length ?four = 4" by (auto simp: to4_length split: option.splits)
  have r: "replicate (6 * Suc n) (0 :: byte) = replicate 4 0 @ replicate 2 0 @ replicate (6 * n) 0"
    by (simp only: replicate_add [symmetric]) simp
  have "copy_from (A @ replicate (6 * Suc n) 0) (6 * i) (ip_bytes (to4 (cp_IP cp)))
      = Inr ((A @ ?four) @ replicate 2 0 @ replicate (6 * n) 0)"
    unfolding r using assms
    by (auto simp: copy_from_def copy_at_def go_copy_def ip_bytes_def to4_length split: option.splits)
  moreover have "put_uint16_at ((A @ ?four) @ replicate 2 0 @ replicate (6 * n) 0) (6 * i + 4) v
      = Inr ((A @ ?four) @ uint16_bytes v @ replicate (6 * n) 0)" for v
    using assms four by (simp add: put_uint16_at_def copy_at_def go_copy_def)
  ultimately show ?thesis by (simp add: peer_bytes_def)
qed

lemma marshal_peers_loop:
  assumes "length A = 6 * i"
  shows "foldE (\<lambda>ret (i, cp).
         bindE (copy_from ret (6 * i) (ip_bytes (to4 (cp_IP cp)))) (\<lambda>ret.
         put_uint16_at ret (6 * i + 4) (word_of_int (cp_Port cp))))
       (A @ replicate (6 * length cps) 0) (enumerate i cps)
    = Inr (A @ concat (map peer_bytes cps))"
  using assms
proof (induction cps arbitrary: A i)
  case Nil
  then show ?case by simp
next
  case (Cons cp cps)
  from Cons.prems have "length (A @ peer_bytes cp) = 6 * Suc i" by simp
  from Cons.IH [OF this] Cons.prems show ?case
    by (simp only: list.size length_Cons enumerate_simps foldE.simps prod.case add_0_right
        add_Suc_right marshal_peer_step bindE.simps) simp
qed

lemma CompactPeers_MarshalBinary_concat:
  "CompactPeers_MarshalBinary cps = Inr (concat (map peer_bytes cps))"
  using marshal_peers_loop [of "[]" 0 cps]
  by (simp add: CompactPeers_MarshalBinary_def mult.commute)

definition wf_peer :: "compact_peer \<Rightarrow> bool" where
  "wf_peer cp \<longleftrightarrow> length (cp_IP cp) = 4 \<and> valid_port (cp_Port cp)"

lemma CompactPeer_UnmarshalBinary_peer_bytes:
  "wf_peer cp \<Longrightarrow> CompactPeer_UnmarshalBinary (peer_bytes cp) = Inr cp"
  by (simp add: wf_peer_def peer_bytes_def CompactPeer_UnmarshalBinary_append)

lemma UnmarshalCompactPeers_pieces:
  "UnmarshalCompactPeers b = mapE CompactPeer_UnmarshalBinary (pieces 6 b)"
  by (simp add: UnmarshalCompactPeers_def mapE_slices [symmetric])

lemma UnmarshalCompactPeers_encode:
  assumes "\<forall>cp \<in> set cps. wf_peer cp" and "length r < 6"
  shows "UnmarshalCompactPeers (concat (map peer_bytes cps) @ r) = Inr cps"
proof -
  have "pieces 6 (concat (map peer_bytes cps) @ r) = map peer_bytes cps"
    using assms(2) by (intro pieces_concat) auto
  then show ?thesis
    using assms(1) mapE_Inr_all [of cps _ id]
    by (simp add: UnmarshalCompactPeers_pieces mapE_map CompactPeer_UnmarshalBinary_peer_bytes)
qed

subsection \<open>Decimal numbers and error lists\<close>

lemma of_nat_digit: "n < 10 \<Longrightarrow> unat (of_nat (48 + n) :: byte) = 48 + n"
  by (simp add: unat_of_nat del: of_nat_add)

lemma is_digit_of_nat [simp]: "n < 10 \<Longrightarrow> is_digit (of_nat (48 + n))"
  using of_nat_digit [of n] by (simp add: is_digit_def word_le_nat_alt del: of_nat_add)

lemma decimal_digits: "b \<in> set (decimal n) \<Longrightarrow> is_digit b"
proof (induction n rule: decimal.induct)
  case (1 n)
  then show ?case
    by (cases "n < 10") (auto simp: decimal.simps [of n] simp del: of_nat_add)
qed

lemma decimal_not_Nil [simp]: "decimal n \<noteq> []"
  by (subst decimal.simps) simp

lemma digits_val_snoc: "digits_val (ds @ [d]) = 10 * digits_val ds + (unat d - 48)"
  by (simp add: digits_val_def)

lemma digits_val_decimal [simp]: "digits_val (decimal n) = n"
proof (induction n rule: decimal.induct)
  case (1 n)
  show ?case
  proof (cases "n < 10")
    case True
    then show ?thesis
      by (simp add: decimal.simps [of n] digits_val_def of_nat_digit del: of_nat_add)
  next
    case False
    with 1 show ?thesis
      by (simp add: decimal.simps [of n] digits_val_snoc of_nat_digit del: of_nat_add)
  qed
qed

lemma span_decimal [simp]:
  assumes "\<not> is_digit x"
  shows "takeWhile is_digit (decimal n @ x # r) = decimal n"
    and "dropWhile is_digit (decimal n @ x # r) = x # r"
  using assms by (simp_all add: takeWhile_append2 dropWhile_append2 decimal_digits)

lemma not_is_digit [simp]: "\<not> is_digit 101" "\<not> is_digit 58"
  by (simp_all add: is_digit_def)

lemma match_error_body_append:
  assumes "m \<noteq> []" and "10 \<notin> set m"
  shows "match_error_body (m @ [101]) = Some m"
proof -
  from assms(2) have line: "takeWhile (\<lambda>b. b \<noteq> 10) (m @ [101]) = m @ [101]"
    by (auto simp: takeWhile_eq_all_conv)
  from assms(1) have "filter (\<lambda>k. (m @ [101]) ! k = 101) [1..<length (m @ [101])]
      = filter (\<lambda>k. (m @ [101]) ! k = 101) [1..<length m] @ [length m]"
    by (simp add: Suc_leI)
  then show ?thesis
    unfolding match_error_body_def line Let_def by simp
qed

lemma Error_MarshalBencode_eq:
  "0 \<le> e_Code e \<Longrightarrow> Error_MarshalBencode e = 108 # 105 # decimal (nat (e_Code e)) @ 101 #
     decimal (length (e_Message e)) @ 58 # e_Message e @ [101]"
  by (simp add: Error_MarshalBencode_def fmt_d_def)

lemma match_error_at_marshal:
  "match_error_at (108 # 105 # decimal c @ 101 # decimal n @ 58 # r)
     = map_option (\<lambda>m. (decimal c, decimal n, m)) (match_error_body r)"
  by (simp add: match_error_at_def)

lemma match_error_at_message:
  assumes "match_error_at b = Some (d1, d2, m)"
  shows "m \<noteq> [] \<and> 10 \<notin> set m"
proof -
  from assms obtain r where r: "match_error_body r = Some m"
    by (auto simp: match_error_at_def Let_def split: if_splits)
  let ?line = "takeWhile (\<lambda>b. b \<noteq> 10) r"
  let ?ks = "filter (\<lambda>k. ?line ! k = 101) [1..<length ?line]"
  from r have m: "m = take (last ?ks) ?line" and ks: "?ks \<noteq> []"
    by (simp_all add: match_error_body_def Let_def split: if_splits)
  from last_in_set [OF ks] have "0 < last ?ks" and "last ?ks < length ?line"
    by auto
  moreover from this have "?line \<noteq> []" by (metis list.size(3) not_less_zero)
  moreover have "10 \<notin> set ?line" by (auto dest: set_takeWhileD)
  ultimately show ?thesis using m by (auto dest: in_set_takeD)
qed

lemma find_error_message: "find_error b = Some (d1, d2, m) \<Longrightarrow> m \<noteq> [] \<and> 10 \<notin> set m"
  by (induction b rule: find_error.induct)
     (auto split: option.splits dest: match_error_at_message)

lemma Error_UnmarshalBencode_message:
  "Error_UnmarshalBencode b = Inr e \<Longrightarrow> e_Message e \<noteq> [] \<and> 10 \<notin> set (e_Message e)"
  by (auto simp: Error_UnmarshalBencode_def bindE_Inr_iff dest: find_error_message
      split: option.splits if_splits)
     (auto dest: find_error_message)

lemma Error_Unmarshal_Marshal:
  assumes "0 \<le> e_Code e" "e_Code e < 2 ^ 63" "length (e_Message e) < 2 ^ 63"
    and "e_Message e \<noteq> []" "10 \<notin> set (e_Message e)"
  shows "Error_UnmarshalBencode (Error_MarshalBencode e) = Inr e"
proof -
  have "find_error (Error_MarshalBencode e)
      = Some (decimal (nat (e_Code e)), decimal (length (e_Message e)), e_Message e)"
    using assms by (simp add: Error_MarshalBencode_eq match_error_at_marshal match_error_body_append)
  then show ?thesis
    using assms by (simp add: Error_UnmarshalBencode_def sscanf_d_def nat_less_iff)
qed

subsection \<open>A bencode of byte strings\<close>

text \<open>Byte strings in bencode, \<open>length:content\<close>: an instance on which the assumptions about the
  library hold.\<close>

definition bencode_string :: "byte list \<Rightarrow> go_error + byte list" where
  "bencode_string p = Inr (decimal (length p) @ 58 # p)"

definition unbencode_string :: "byte list \<Rightarrow> go_error + byte list" where
  "unbencode_string b =
     (let ds = takeWhile is_digit b; r = dropWhile is_digit b
      in if ds \<noteq> [] \<and> take 1 r = [58] \<and> length (drop 1 r) = digits_val ds then Inr (drop 1 r)
         else Inl (Err ''bencode: syntax error''))"

lemma unbencode_bencode_string: "bindE (bencode_string p) unbencode_string = Inr p"
  by (simp add: bencode_string_def unbencode_string_def)

lemma unbencode_empty: "unbencode_string (bytes_of ''0:'') = Inr []"
  by (simp add: unbencode_string_def is_digit_def digits_val_def)

subsection \<open>Properties\<close>

text \<open>C11: the compact node encoding is a bijection.  A byte string decodes to a list of nodes exactly
  when every node is well formed and the string is the concatenation of their 26-byte encodings: the
  decoder inverts the encoder and accepts nothing else.\<close>

theorem compact_nodes_bijection:
  "UnmarshalCompactNodeInfos b = Inr cnis
     \<longleftrightarrow> (\<forall>c \<in> set cnis. wf_node c) \<and> b = concat (map CompactNodeInfo_MarshalBinary cnis)"
  using UnmarshalCompactNodeInfos_encode UnmarshalCompactNodeInfos_decode by blast

definition example_node :: compact_node_info where
  "example_node = \<lparr>cni_ID = bytes_of ''abcdefghijklmnopqrst'',
     cni_Addr = \<lparr>udp_IP = [139, 130, 142, 245], udp_Port = 3169, udp_Zone = []\<rparr>\<rparr>"

lemma wf_example_node: "wf_node example_node"
  by (simp add: wf_node_def example_node_def valid_port_def)

theorem compact_nodes_bijection_witness:
  "UnmarshalCompactNodeInfos (bytes_of ''abcdefghijklmnopqrst'' @ [139, 130, 142, 245, 12, 97])
     = Inr [example_node]"
proof -
  have "concat (map CompactNodeInfo_MarshalBinary [example_node])
      = bytes_of ''abcdefghijklmnopqrst'' @ [139, 130, 142, 245, 12, 97]"
    by (simp add: CompactNodeInfo_MarshalBinary_def example_node_def ip_bytes_def to4_def
        uint16_bytes_def go_copy_def)
  then show ?thesis
    using wf_example_node by (simp only: compact_nodes_bijection) simp
qed

text \<open>Decoding compact nodes never panics: it succeeds exactly on the strings whose length is a
  multiple of 26 and reports an error on all others, so the index arithmetic of the loop stays in
  bounds.\<close>

theorem compact_nodes_decode_total:
  "(\<exists>cnis. UnmarshalCompactNodeInfos b = Inr cnis) = (length b mod 26 = 0)
     \<and> (\<forall>p. UnmarshalCompactNodeInfos b \<noteq> Inl (Panic p))"
proof (cases "length b mod 26 = 0")
  case True
  have "mapE (CompactNodeInfo_UnmarshalBinary zero_node) (pieces 26 b) \<in> range Inr"
    by (rule mapE_total)
       (metis CompactNodeInfo_UnmarshalBinary_26 pieces_elem_length rangeI zero_node_ID)
  with True show ?thesis by (auto simp: UnmarshalCompactNodeInfos_pieces)
qed (simp add: UnmarshalCompactNodeInfos_def)

text \<open>C37: a node list survives the wire.  With a bencode library that returns the byte string it was
  given, and reads \<open>0:\<close> as the empty string, decoding the bencoding of a list of well-formed nodes
  yields that list, the empty list included.\<close>

theorem compact_nodes_bencode_roundtrip:
  assumes "\<And>p. bindE (marshal p) unmarshal = Inr p"
    and "unmarshal (bytes_of ''0:'') = Inr []"
    and "\<forall>c \<in> set cnis. wf_node c"
  shows "bindE (CompactNodeInfos_MarshalBencode marshal cnis)
     (CompactNodeInfos_UnmarshalBencode unmarshal) = Inr cnis"
proof (cases "cnis = []")
  case True
  with assms(2) show ?thesis
    by (simp add: CompactNodeInfos_MarshalBencode_def CompactNodeInfos_UnmarshalBencode_def
        UnmarshalCompactNodeInfos_def del: bytes_of_simps)
next
  case False
  let ?p = "concat (map CompactNodeInfo_MarshalBinary cnis)"
  from assms(1) [of ?p] obtain x where "marshal ?p = Inr x" and "unmarshal x = Inr ?p"
    by (auto simp: bindE_Inr_iff)
  with False UnmarshalCompactNodeInfos_encode [OF assms(3)] show ?thesis
    by (simp add: CompactNodeInfos_MarshalBencode_def CompactNodeInfos_UnmarshalBencode_def)
qed

theorem compact_nodes_bencode_roundtrip_witness:
  "bindE (CompactNodeInfos_MarshalBencode bencode_string [example_node, example_node])
     (CompactNodeInfos_UnmarshalBencode unbencode_string) = Inr [example_node, example_node]"
  by (rule compact_nodes_bencode_roundtrip)
     (simp_all add: unbencode_bencode_string unbencode_empty wf_example_node del: bytes_of_simps)

text \<open>The in-place loop that encodes a peer list computes the concatenation of the peers' six-byte
  encodings and never panics; a peer with no IPv4 form is encoded with the address 0.0.0.0.\<close>

theorem compact_peers_encode_loop:
  "CompactPeers_MarshalBinary cps = Inr (concat (map peer_bytes cps))"
  by (rule CompactPeers_MarshalBinary_concat)

text \<open>C36: decoding an encoded list of IPv4 peers returns it; up to five trailing bytes are ignored, as
  the decoder only looks at whole six-byte groups.\<close>

theorem compact_peers_roundtrip:
  assumes "\<forall>cp \<in> set cps. wf_peer cp" and "length r < 6"
  shows "bindE (CompactPeers_MarshalBinary cps) (\<lambda>b. UnmarshalCompactPeers (b @ r)) = Inr cps"
  using UnmarshalCompactPeers_encode [OF assms] by (simp add: CompactPeers_MarshalBinary_concat)

theorem compact_peers_roundtrip_witness:
  "bindE (CompactPeers_MarshalBinary
       [\<lparr>cp_IP = bytes_of ''axje'', cp_Port = 11893\<rparr>, \<lparr>cp_IP = bytes_of ''idht'', cp_Port = 28269\<rparr>])
     (\<lambda>b. UnmarshalCompactPeers (b @ [1, 2, 3]))
   = Inr [\<lparr>cp_IP = bytes_of ''axje'', cp_Port = 11893\<rparr>, \<lparr>cp_IP = bytes_of ''idht'', cp_Port = 28269\<rparr>]"
  by (rule compact_peers_roundtrip) (simp_all add: wf_peer_def valid_port_def)

text \<open>C38: a single peer survives the wire for IPv4 and IPv6 addresses alike; an IPv4 address in its
  16-byte form comes back in its 4-byte form.\<close>

theorem compact_peer_bencode_roundtrip:
  assumes "\<And>p. bindE (marshal p) unmarshal = Inr p"
    and "length (cp_IP cp) = 4 \<or> length (cp_IP cp) = 16" and "valid_port (cp_Port cp)"
  shows "bindE (CompactPeer_MarshalBencode marshal cp) (CompactPeer_UnmarshalBencode unmarshal)
     = Inr (cp\<lparr>cp_IP := (case to4 (cp_IP cp) of Some ip4 \<Rightarrow> ip4 | None \<Rightarrow> cp_IP cp)\<rparr>)"
proof -
  define ip where "ip = (case to4 (cp_IP cp) of Some ip4 \<Rightarrow> ip4 | None \<Rightarrow> cp_IP cp)"
  have ip: "length ip = 4 \<or> length ip = 16"
    using assms(2) by (auto simp: ip_def to4_length split: option.splits)
  let ?p = "ip @ uint16_bytes (word_of_int (cp_Port cp))"
  from assms(1) [of ?p] obtain x where "marshal ?p = Inr x" and "unmarshal x = Inr ?p"
    by (auto simp: bindE_Inr_iff)
  moreover have "put_uint16_at (go_copy (replicate (length ip + 2) 0) ip) (length ip)
      (word_of_int (cp_Port cp)) = Inr ?p"
    by (simp add: put_uint16_at_def copy_at_def go_copy_def)
  ultimately show ?thesis
    using ip assms(3) CompactPeer_UnmarshalBinary_append [OF ip]
    by (simp add: CompactPeer_MarshalBencode_def CompactPeer_UnmarshalBencode_def Let_def
        flip: ip_def)
qed

theorem compact_peer_bencode_roundtrip_witness:
  "bindE (CompactPeer_MarshalBencode bencode_string
       \<lparr>cp_IP = replicate 10 0 @ [255, 255, 10, 0, 0, 1], cp_Port = 6881\<rparr>)
     (CompactPeer_UnmarshalBencode unbencode_string)
   = Inr \<lparr>cp_IP = [10, 0, 0, 1], cp_Port = 6881\<rparr>"
  using compact_peer_bencode_roundtrip
    [OF unbencode_bencode_string, of "\<lparr>cp_IP = replicate 10 0 @ [255, 255, 10, 0, 0, 1], cp_Port = 6881\<rparr>"]
  by (simp add: valid_port_def to4_def nth_append)



end
