(* ===== verification/Sha1.thy ===== *)
theory Sha1
  imports Prelude
begin

text \<open>
  \<open>sha1.Sum\<close> of Go's package crypto/sha1 (FIPS 180-4), which \<open>protocol.go\<close> uses for tokens and
  \<open>leech.go\<close> for the check of the received metadata: padding to 64-byte blocks, the message schedule
  of 80 words and the 80 rounds of each block.
\<close>

definition rotl :: "nat \<Rightarrow> 32 word \<Rightarrow> 32 word" where
  "rotl n x = push_bit n x OR drop_bit (32 - n) x"

definition uint64_bytes :: "64 word \<Rightarrow> byte list" where
  "uint64_bytes v = uint32_bytes (ucast (drop_bit 32 v)) @ uint32_bytes (ucast v)"

definition sha1_pad :: "byte list \<Rightarrow> byte list" where
  "sha1_pad m = m @ [128] @ replicate ((119 - length m mod 64) mod 64) 0
     @ uint64_bytes (of_nat (8 * length m))"

fun sha1_words :: "byte list \<Rightarrow> 32 word list" where
  "sha1_words (a # b # c # d # r) =
     (ucast d OR push_bit 8 (ucast c) OR push_bit 16 (ucast b) OR push_bit 24 (ucast a)) # sha1_words r"
| "sha1_words _ = []"

text \<open>The schedule slides a window over the last 16 words.\<close>

fun sha1_schedule :: "nat \<Rightarrow> 32 word list \<Rightarrow> 32 word list" where
  "sha1_schedule 0 w = []"
| "sha1_schedule (Suc n) w =
     hd w # sha1_schedule n (tl w @ [rotl 1 (w ! 13 XOR w ! 8 XOR w ! 2 XOR w ! 0)])"

type_synonym sha1_state = "32 word \<times> 32 word \<times> 32 word \<times> 32 word \<times> 32 word"

definition sha1_f :: "nat \<Rightarrow> 32 word \<Rightarrow> 32 word \<Rightarrow> 32 word \<Rightarrow> 32 word" where
  "sha1_f t b c d =
     (if t < 20 then (b AND c) OR ((NOT b) AND d)
      else if t < 40 then b XOR c XOR d
      else if t < 60 then (b AND c) OR (b AND d) OR (c AND d)
      else b XOR c XOR d)"

definition sha1_k :: "nat \<Rightarrow> 32 word" where
  "sha1_k t = (if t < 20 then 1518500249 else if t < 40 then 1859775393
     else if t < 60 then 2400959708 else 3395469782)"

fun sha1_rounds :: "nat \<Rightarrow> 32 word list \<Rightarrow> sha1_state \<Rightarrow> sha1_state" where
  "sha1_rounds t [] s = s"
| "sha1_rounds t (w # ws) (a, b, c, d, e) =
     sha1_rounds (Suc t) ws (rotl 5 a + sha1_f t b c d + e + sha1_k t + w, a, rotl 30 b, c, d)"

fun sha1_block :: "sha1_state \<Rightarrow> byte list \<Rightarrow> sha1_state" where
  "sha1_block (h0, h1, h2, h3, h4) blk =
     (case sha1_rounds 0 (sha1_schedule 80 (sha1_words blk)) (h0, h1, h2, h3, h4) of
        (a, b, c, d, e) \<Rightarrow> (h0 + a, h1 + b, h2 + c, h3 + d, h4 + e))"

definition sha1 :: "byte list \<Rightarrow> byte list" where
  "sha1 m = (case foldl sha1_block (1732584193, 4023233417, 2562383102, 271733878, 3285377520)
       (pieces 64 (sha1_pad m)) of
     (a, b, c, d, e) \<Rightarrow>
       uint32_bytes a @ uint32_bytes b @ uint32_bytes c @ uint32_bytes d @ uint32_bytes e)"

lemma length_sha1 [simp]: "length (sha1 m) = 20"
  by (simp add: sha1_def split: prod.splits)

lemma sha1_pad_length: "length (sha1_pad m) mod 64 = 0"
proof -
  define r where "r = length m mod 64"
  then have r: "r < 64" by simp
  have "(119 - r) mod 64 = (if r \<le> 55 then 55 - r else 119 - r)"
    using r by (auto simp: mod_if)
  then have "(r + (9 + (119 - r) mod 64)) mod 64 = 0"
    using r by auto
  then have "(length m + (9 + (119 - r) mod 64)) mod 64 = 0"
    unfolding r_def by (simp add: mod_simps)
  then show ?thesis by (simp add: sha1_pad_def uint64_bytes_def r_def ac_simps)
qed

end
