(* ===== verification/Protocol.thy ===== *)
theory Protocol
  imports Codec Sha1
begin

text \<open>
  The KRPC protocol of \<open>cmd/magneticod/dht/mainline/protocol.go\<close>: construction and validation of
  messages, dispatch of received messages to the registered event handlers, and the token secrets.
  An event handler acts on a client state \<open>'s\<close> and may panic; a handler that is not registered is
  \<open>None\<close>, as a nil function value is in the source.
\<close>

subsection \<open>Construction of messages\<close>

definition NewFindNodeQuery :: "byte list \<Rightarrow> byte list \<Rightarrow> message" where
  "NewFindNodeQuery ident target = zero_message
     \<lparr>m_Y := ''q'', m_T := bytes_of ''aa'', m_Q := ''find_node'',
      m_A := zero_A\<lparr>a_ID := ident, a_Target := target\<rparr>\<rparr>"

definition NewGetPeersQuery :: "byte list \<Rightarrow> byte list \<Rightarrow> message" where
  "NewGetPeersQuery ident infoHash = zero_message
     \<lparr>m_Y := ''q'', m_T := bytes_of ''aa'', m_Q := ''get_peers'',
      m_A := zero_A\<lparr>a_ID := ident, a_InfoHash := infoHash\<rparr>\<rparr>"

definition NewSampleInfohashesQuery :: "byte list \<Rightarrow> byte list \<Rightarrow> byte list \<Rightarrow> message" where
  "NewSampleInfohashesQuery ident t target = zero_message
     \<lparr>m_Y := ''q'', m_T := t, m_Q := ''sample_infohashes'',
      m_A := zero_A\<lparr>a_ID := ident, a_Target := target\<rparr>\<rparr>"

definition NewPingResponse :: "byte list \<Rightarrow> byte list \<Rightarrow> message" where
  "NewPingResponse t ident = zero_message
     \<lparr>m_Y := ''r'', m_T := t, m_R := zero_R\<lparr>r_ID := ident\<rparr>\<rparr>"

definition NewGetPeersResponseWithNodes ::
    "byte list \<Rightarrow> byte list \<Rightarrow> byte list \<Rightarrow> compact_node_info list \<Rightarrow> message" where
  "NewGetPeersResponseWithNodes t ident token nodes = zero_message
     \<lparr>m_Y := ''r'', m_T := t,
      m_R := zero_R\<lparr>r_ID := ident, r_Token := token, r_Nodes := nodes\<rparr>\<rparr>"

definition NewAnnouncePeerResponse :: "byte list \<Rightarrow> byte list \<Rightarrow> message" where
  "NewAnnouncePeerResponse t ident = NewPingResponse t ident"

text \<open>The constructors that are declared and panic when called.\<close>

definition NewPingQuery :: "byte list \<Rightarrow> go_error + message" where
  "NewPingQuery ident = Inl (Panic ''Not implemented yet!'')"

definition NewAnnouncePeerQuery ::
    "byte list \<Rightarrow> bool \<Rightarrow> byte list \<Rightarrow> 16 word \<Rightarrow> byte list \<Rightarrow> go_error + message" where
  "NewAnnouncePeerQuery ident implied_port info_hash port token = Inl (Panic ''Not implemented yet!'')"

definition NewFindNodeResponse ::
    "byte list \<Rightarrow> byte list \<Rightarrow> compact_node_info list \<Rightarrow> go_error + message" where
  "NewFindNodeResponse t ident nodes = Inl (Panic ''Not implemented yet!'')"

definition NewGetPeersResponseWithValues ::
    "byte list \<Rightarrow> byte list \<Rightarrow> byte list \<Rightarrow> compact_peer list \<Rightarrow> go_error + message" where
  "NewGetPeersResponseWithValues t ident token vals = Inl (Panic ''Not implemented yet!'')"

subsection \<open>Validation\<close>

definition validatePingQueryMessage :: "message \<Rightarrow> bool" where
  "validatePingQueryMessage msg \<longleftrightarrow> length (a_ID (m_A msg)) = 20"

definition validateFindNodeQueryMessage :: "message \<Rightarrow> bool" where
  "validateFindNodeQueryMessage msg \<longleftrightarrow>
     length (a_ID (m_A msg)) = 20 \<and> length (a_Target (m_A msg)) = 20"

definition validateGetPeersQueryMessage :: "message \<Rightarrow> bool" where
  "validateGetPeersQueryMessage msg \<longleftrightarrow>
     length (a_ID (m_A msg)) = 20 \<and> length (a_InfoHash (m_A msg)) = 20"

definition validateAnnouncePeerQueryMessage :: "message \<Rightarrow> bool" where
  "validateAnnouncePeerQueryMessage msg \<longleftrightarrow>
     length (a_ID (m_A msg)) = 20 \<and> length (a_InfoHash (m_A msg)) = 20
     \<and> a_Port (m_A msg) > 0 \<and> length (a_Token (m_A msg)) > 0"

definition validateSampleInfohashesQueryMessage :: "message \<Rightarrow> bool" where
  "validateSampleInfohashesQueryMessage msg \<longleftrightarrow>
     length (a_ID (m_A msg)) = 20 \<and> length (a_Target (m_A msg)) = 20"

definition validatePingORannouncePeerResponseMessage :: "message \<Rightarrow> bool" where
  "validatePingORannouncePeerResponseMessage msg \<longleftrightarrow> length (r_ID (m_R msg)) = 20"

definition validateFindNodeResponseMessage :: "message \<Rightarrow> bool" where
  "validateFindNodeResponseMessage msg = (if length (r_ID (m_R msg)) \<noteq> 20 then False else True)"

definition validateGetPeersResponseMessage :: "message \<Rightarrow> bool" where
  "validateGetPeersResponseMessage msg \<longleftrightarrow>
     length (r_ID (m_R msg)) = 20 \<and> length (r_Token (m_R msg)) > 0"

definition validateSampleInfohashesResponseMessage :: "message \<Rightarrow> bool" where
  "validateSampleInfohashesResponseMessage msg \<longleftrightarrow>
     length (r_ID (m_R msg)) = 20 \<and> r_Interval (m_R msg) \<ge> 0 \<and> r_Num (m_R msg) \<ge> 0
     \<and> length (r_Samples (m_R msg)) mod 20 = 0"

lemmas validate_defs = validatePingQueryMessage_def validateFindNodeQueryMessage_def
  validateGetPeersQueryMessage_def validateAnnouncePeerQueryMessage_def
  validateSampleInfohashesQueryMessage_def validatePingORannouncePeerResponseMessage_def
  validateFindNodeResponseMessage_def validateGetPeersResponseMessage_def
  validateSampleInfohashesResponseMessage_def

subsection \<open>Dispatch\<close>

type_synonym 's handler = "message \<Rightarrow> udp_addr \<Rightarrow> 's \<Rightarrow> go_error + 's"

record 's protocol_event_handlers =
  OnPingQuery :: "'s handler option"
  OnFindNodeQuery :: "'s handler option"
  OnGetPeersQuery :: "'s handler option"
  OnAnnouncePeerQuery :: "'s handler option"
  OnGetPeersResponse :: "'s handler option"
  OnFindNodeResponse :: "'s handler option"
  OnPingORAnnouncePeerResponse :: "'s handler option"
  OnSampleInfohashesQuery :: "'s handler option"
  OnSampleInfohashesResponse :: "'s handler option"
  OnCongestion :: "('s \<Rightarrow> go_error + 's) option"

definition no_handlers :: "'s protocol_event_handlers" where
  "no_handlers = \<lparr>OnPingQuery = None, OnFindNodeQuery = None, OnGetPeersQuery = None,
     OnAnnouncePeerQuery = None, OnGetPeersResponse = None, OnFindNodeResponse = None,
     OnPingORAnnouncePeerResponse = None, OnSampleInfohashesQuery = None,
     OnSampleInfohashesResponse = None, OnCongestion = None\<rparr>"

text \<open>Call a handler when it is registered.\<close>

definition call :: "'s handler option \<Rightarrow> 's handler" where
  "call h msg addr s = (case h of None \<Rightarrow> Inr s | Some f \<Rightarrow> f msg addr s)"

text \<open>The debug output for an error message (\<open>y = "e"\<close>) does not change the state.\<close>

definition onMessage :: "'s protocol_event_handlers \<Rightarrow> 's handler" where
  "onMessage h msg addr s =
     (if m_Y msg = ''q'' then
        if m_Q msg = ''ping'' then
          if \<not> validatePingQueryMessage msg then Inr s
          else call (OnPingQuery h) msg addr s
        else if m_Q msg = ''find_node'' then
          if \<not> validateFindNodeQueryMessage msg then Inr s
          else call (OnFindNodeQuery h) msg addr s
        else if m_Q msg = ''get_peers'' then
          if \<not> validateGetPeersQueryMessage msg then Inr s
          else call (OnGetPeersQuery h) msg addr s
        else if m_Q msg = ''announce_peer'' then
          if \<not> validateAnnouncePeerQueryMessage msg then Inr s
          else call (OnAnnouncePeerQuery h) msg addr s
        else if m_Q msg = ''vote'' then Inr s
        else if m_Q msg = ''sample_infohashes'' then
          if \<not> validateSampleInfohashesQueryMessage msg then Inr s
          else call (OnSampleInfohashesQuery h) msg addr s
        else Inr s
      else if m_Y msg = ''r'' then
        if length (r_Samples (m_R msg)) \<noteq> 0 then
          if \<not> validateSampleInfohashesResponseMessage msg then Inr s
          else call (OnSampleInfohashesResponse h) msg addr s
        else if length (r_Token (m_R msg)) \<noteq> 0 then
          if \<not> validateGetPeersResponseMessage msg then Inr s
          else call (OnGetPeersResponse h) msg addr s
        else if length (r_Nodes (m_R msg)) \<noteq> 0 then
          if \<not> validateFindNodeResponseMessage msg then Inr s
          else call (OnFindNodeResponse h) msg addr s
        else
          if \<not> validatePingORannouncePeerResponseMessage msg then Inr s
          else call (OnPingORAnnouncePeerResponse h) msg addr s
      else Inr s)"

subsection \<open>Token secrets\<close>

text \<open>The part of \<open>Protocol\<close> that is neither the transport nor the handlers.  \<open>crypto/rand.Read\<close> is
  the environment's: a call is given the bytes it delivers, or nothing when it fails; a failure is
  fatal.\<close>

record protocol =
  previousTokenSecret :: "byte list"
  currentTokenSecret :: "byte list"
  p_started :: bool

definition NewProtocol :: "byte list option \<Rightarrow> go_error + protocol" where
  "NewProtocol rnd =
     (case rnd of
        None \<Rightarrow> Inl (Panic ''Could NOT generate random bytes for token secret!'')
      | Some r \<Rightarrow>
          let cur = go_copy (replicate 20 0) r
          in Inr \<lparr>previousTokenSecret = go_copy (replicate 20 0) cur, currentTokenSecret = cur,
               p_started = False\<rparr>)"

text \<open>\<open>Start\<close> and \<open>Terminate\<close>, given the effect of the transport's own method.\<close>

definition Protocol_Start ::
    "('t \<Rightarrow> go_error + 't) \<Rightarrow> protocol \<Rightarrow> 't \<Rightarrow> go_error + protocol \<times> 't" where
  "Protocol_Start transport_Start p t =
     (if p_started p
      then Inl (Panic ''Attempting to Start() a mainline/Protocol that has been already started! (Programmer error.)'')
      else bindE (transport_Start t) (\<lambda>t'. Inr (p\<lparr>p_started := True\<rparr>, t')))"

definition Protocol_Terminate ::
    "('t \<Rightarrow> go_error + 't) \<Rightarrow> protocol \<Rightarrow> 't \<Rightarrow> go_error + 't" where
  "Protocol_Terminate transport_Terminate p t =
     (if \<not> p_started p
      then Inl (Panic ''Attempted to Terminate() a mainline/Protocol that has not been Start()ed! (Programmer error.)'')
      else transport_Terminate t)"

definition CalculateToken :: "protocol \<Rightarrow> byte list \<Rightarrow> byte list" where
  "CalculateToken p address = sha1 (currentTokenSecret p @ address)"

definition VerifyToken :: "protocol \<Rightarrow> byte list \<Rightarrow> byte list \<Rightarrow> go_error + bool" where
  "VerifyToken p address token = Inl (Panic ''VerifyToken() not implemented yet!'')"

text \<open>One tick of the goroutine \<open>updateTokenSecret\<close>, run under the token lock.\<close>

definition updateTokenSecret :: "byte list option \<Rightarrow> protocol \<Rightarrow> go_error + protocol" where
  "updateTokenSecret rnd p =
     (let p1 = p\<lparr>previousTokenSecret := go_copy (previousTokenSecret p) (currentTokenSecret p)\<rparr>
      in case rnd of
           None \<Rightarrow> Inl (Panic ''Could NOT generate random bytes for token secret!'')
         | Some r \<Rightarrow> Inr (p1\<lparr>currentTokenSecret := go_copy (currentTokenSecret p1) r\<rparr>))"

subsection \<open>What a message is\<close>

text \<open>The reading of a message that the comments of \<open>onMessage\<close> give: a query is of the method it names,
  a response is of the first kind, in the order sample_infohashes, get_peers, find_node, ping or
  announce_peer, whose distinguishing field is present.\<close>

datatype kind = PingQ | FindNodeQ | GetPeersQ | AnnouncePeerQ | SampleInfohashesQ
  | SampleInfohashesR | GetPeersR | FindNodeR | PingOrAnnouncePeerR

definition query_kind :: "(string \<times> kind) list" where
  "query_kind = [(''ping'', PingQ), (''find_node'', FindNodeQ), (''get_peers'', GetPeersQ),
     (''announce_peer'', AnnouncePeerQ), (''sample_infohashes'', SampleInfohashesQ)]"

definition kind_of :: "message \<Rightarrow> kind option" where
  "kind_of msg =
     (if m_Y msg = ''q'' then map_of query_kind (m_Q msg)
      else if m_Y msg = ''r'' then
        Some (if r_Samples (m_R msg) \<noteq> [] then SampleInfohashesR
              else if r_Token (m_R msg) \<noteq> [] then GetPeersR
              else if r_Nodes (m_R msg) \<noteq> [] then FindNodeR else PingOrAnnouncePeerR)
      else None)"

fun validator :: "kind \<Rightarrow> message \<Rightarrow> bool" where
  "validator PingQ = validatePingQueryMessage"
| "validator FindNodeQ = validateFindNodeQueryMessage"
| "validator GetPeersQ = validateGetPeersQueryMessage"
| "validator AnnouncePeerQ = validateAnnouncePeerQueryMessage"
| "validator SampleInfohashesQ = validateSampleInfohashesQueryMessage"
| "validator SampleInfohashesR = validateSampleInfohashesResponseMessage"
| "validator GetPeersR = validateGetPeersResponseMessage"
| "validator FindNodeR = validateFindNodeResponseMessage"
| "validator PingOrAnnouncePeerR = validatePingORannouncePeerResponseMessage"

fun handler_of :: "kind \<Rightarrow> 's protocol_event_handlers \<Rightarrow> 's handler option" where
  "handler_of PingQ h = OnPingQuery h"
| "handler_of FindNodeQ h = OnFindNodeQuery h"
| "handler_of GetPeersQ h = OnGetPeersQuery h"
| "handler_of AnnouncePeerQ h = OnAnnouncePeerQuery h"
| "handler_of SampleInfohashesQ h = OnSampleInfohashesQuery h"
| "handler_of SampleInfohashesR h = OnSampleInfohashesResponse h"
| "handler_of GetPeersR h = OnGetPeersResponse h"
| "handler_of FindNodeR h = OnFindNodeResponse h"
| "handler_of PingOrAnnouncePeerR h = OnPingORAnnouncePeerResponse h"

lemma onMessage_kind:
  "onMessage h msg addr s =
     (case kind_of msg of
        None \<Rightarrow> Inr s
      | Some k \<Rightarrow> if validator k msg then call (handler_of k h) msg addr s else Inr s)"
  by (simp add: onMessage_def kind_of_def query_kind_def)

subsection \<open>The contract of a client\<close>

text \<open>What the dispatch relies on in a client: each registered handler, called with a validated
  message of its kind, keeps the client's invariant.\<close>

locale protocol_client =
  fixes h :: "'s protocol_event_handlers" and inv :: "'s \<Rightarrow> bool"
  assumes handler_inv: "\<lbrakk>kind_of msg = Some k; validator k msg; handler_of k h = Some f; inv s;
     f msg addr s = Inr t\<rbrakk> \<Longrightarrow> inv t"
begin

lemma onMessage_inv: "inv s \<Longrightarrow> onMessage h msg addr s = Inr t \<Longrightarrow> inv t"
  by (auto simp: onMessage_kind call_def dest: handler_inv split: option.splits if_splits)

lemma onMessages_inv:
  "inv s \<Longrightarrow> foldE (\<lambda>s (msg, addr). onMessage h msg addr s) s ms = Inr t \<Longrightarrow> inv t"
  by (induction ms arbitrary: s) (auto simp: bindE_Inr_iff dest: onMessage_inv)

end

text \<open>A client whose handlers, besides, always return.\<close>

locale total_protocol_client = protocol_client +
  assumes handler_returns: "\<lbrakk>kind_of msg = Some k; validator k msg; handler_of k h = Some f; inv s\<rbrakk>
     \<Longrightarrow> \<exists>t. f msg addr s = Inr t"
begin

lemma onMessage_returns: "inv s \<Longrightarrow> \<exists>t. onMessage h msg addr s = Inr t \<and> inv t"
proof -
  assume "inv s"
  then have "\<exists>t. onMessage h msg addr s = Inr t"
    using handler_returns by (auto simp: onMessage_kind call_def split: option.split)
  with \<open>inv s\<close> show ?thesis by (blast intro: onMessage_inv)
qed

lemma onMessages_return:
  "inv s \<Longrightarrow> \<exists>t. foldE (\<lambda>s (msg, addr). onMessage h msg addr s) s ms = Inr t \<and> inv t"
proof (induction ms arbitrary: s)
  case (Cons m ms)
  obtain msg addr where m: "m = (msg, addr)" by (cases m)
  from onMessage_returns [OF Cons.prems] obtain t where "onMessage h msg addr s = Inr t" "inv t"
    by blast
  with Cons.IH [of t] m show ?case by simp
qed simp

end

lemmas message_defs = zero_message_def zero_A_def zero_R_def zero_E_def NewFindNodeQuery_def
  NewGetPeersQuery_def NewSampleInfohashesQuery_def NewPingResponse_def
  NewGetPeersResponseWithNodes_def NewAnnouncePeerResponse_def

subsection \<open>Properties\<close>

text \<open>C12: only validated messages reach the handlers.  Whatever two sets of handlers do, if they agree
  on the messages of each handler's own kind that pass that kind's validator, then dispatching any
  message with either set has the same effect.\<close>

theorem onMessage_only_validated:
  assumes "\<And>k msg addr s. kind_of msg = Some k \<Longrightarrow> validator k msg \<Longrightarrow>
     call (handler_of k h) msg addr s = call (handler_of k h') msg addr s"
  shows "onMessage h msg addr s = onMessage h' msg addr s"
  using assms by (simp add: onMessage_kind split: option.split)

text \<open>A handler for pings that panics unless the sender's identifier has 20 bytes.\<close>

definition strict_ping :: "nat handler" where
  "strict_ping msg addr s = (if length (a_ID (m_A msg)) = 20 then Inr (Suc s)
     else Inl (Panic ''bad id''))"

definition lax_ping :: "nat handler" where
  "lax_ping msg addr s = Inr (Suc s)"

theorem onMessage_only_validated_witness:
  "onMessage (no_handlers\<lparr>OnPingQuery := Some strict_ping\<rparr>)
     (zero_message\<lparr>m_Y := ''q'', m_Q := ''ping'', m_A := zero_A\<lparr>a_ID := [1]\<rparr>\<rparr>)
     \<lparr>udp_IP = [], udp_Port = 0, udp_Zone = []\<rparr> 7 = Inr 7"
proof -
  have "onMessage (no_handlers\<lparr>OnPingQuery := Some strict_ping\<rparr>) m a s
      = onMessage (no_handlers\<lparr>OnPingQuery := Some lax_ping\<rparr>) m a s" for m a s
  proof (rule onMessage_only_validated)
    fix k msg addr s
    assume "kind_of msg = Some k" and "validator k msg"
    then show "call (handler_of k (no_handlers\<lparr>OnPingQuery := Some strict_ping\<rparr>)) msg addr s
        = call (handler_of k (no_handlers\<lparr>OnPingQuery := Some lax_ping\<rparr>)) msg addr s"
      by (cases k) (simp_all add: call_def no_handlers_def strict_ping_def lax_ping_def validate_defs)
  qed
  then show ?thesis
    by (simp add: onMessage_def validate_defs message_defs)
qed

text \<open>C29: the messages the program constructs from 20-byte identifiers are accepted by a node running
  the same code, and each reaches the handler of its own kind: queries by their method, a get_peers
  response through its token, and ping and announce_peer responses through the shared handler.\<close>

theorem constructed_messages_dispatch:
  assumes "length ident = 20" and "length x = 20" and "token \<noteq> []"
  shows "(onMessage h (NewFindNodeQuery ident x) addr s
           = call (OnFindNodeQuery h) (NewFindNodeQuery ident x) addr s)
    \<and> (onMessage h (NewGetPeersQuery ident x) addr s
           = call (OnGetPeersQuery h) (NewGetPeersQuery ident x) addr s)
    \<and> (onMessage h (NewSampleInfohashesQuery ident t x) addr s
           = call (OnSampleInfohashesQuery h) (NewSampleInfohashesQuery ident t x) addr s)
    \<and> (onMessage h (NewPingResponse t ident) addr s
           = call (OnPingORAnnouncePeerResponse h) (NewPingResponse t ident) addr s)
    \<and> (onMessage h (NewAnnouncePeerResponse t ident) addr s
           = call (OnPingORAnnouncePeerResponse h) (NewAnnouncePeerResponse t ident) addr s)
    \<and> (onMessage h (NewGetPeersResponseWithNodes t ident token nodes) addr s
           = call (OnGetPeersResponse h) (NewGetPeersResponseWithNodes t ident token nodes) addr s)"
  using assms by (simp_all add: onMessage_def validate_defs message_defs)

theorem constructed_messages_dispatch_witness:
  "onMessage (no_handlers\<lparr>OnFindNodeQuery := Some lax_ping\<rparr>)
     (NewFindNodeQuery (bytes_of ''abcdefghij0123456789'') (bytes_of ''mnopqrstuvwxyz123456''))
     \<lparr>udp_IP = [], udp_Port = 0, udp_Zone = []\<rparr> 7 = Inr 8"
  using constructed_messages_dispatch [of "bytes_of ''abcdefghij0123456789''"
      "bytes_of ''mnopqrstuvwxyz123456''" "[1]" "no_handlers\<lparr>OnFindNodeQuery := Some lax_ping\<rparr>"]
  by (simp add: call_def lax_ping_def no_handlers_def del: bytes_of_simps(1,2,3))

lemma updateTokenSecret_some:
  assumes "length (previousTokenSecret p) = 20" "length (currentTokenSecret p) = 20" "length r = 20"
  shows "updateTokenSecret (Some r) p
     = Inr (p\<lparr>previousTokenSecret := currentTokenSecret p, currentTokenSecret := r\<rparr>)"
  using assms by (simp add: updateTokenSecret_def Let_def)

lemma rotate_secrets:
  assumes "length (previousTokenSecret p) = 20" "length (currentTokenSecret p) = 20"
    and "\<forall>r \<in> set rs. length r = 20"
  shows "foldE (\<lambda>p r. updateTokenSecret (Some r) p) p rs
     = Inr (p\<lparr>previousTokenSecret :=
                last (butlast (previousTokenSecret p # currentTokenSecret p # rs)),
              currentTokenSecret := last (currentTokenSecret p # rs)\<rparr>)"
  using assms
proof (induction rs arbitrary: p)
  case (Cons r rs)
  then show ?case by (simp add: updateTokenSecret_some)
qed simp

text \<open>C28: the token secrets rotate.  From a freshly created protocol, after any number of ticks the
  current secret is the newest 20 random bytes, the previous secret is the current one of the tick
  before, and a token is the SHA-1 digest, 20 bytes long, of the current secret and the address.\<close>

theorem token_secret_rotation:
  assumes "length r0 = 20" and "\<forall>r \<in> set rs. length r = 20"
  shows "\<exists>p. bindE (NewProtocol (Some r0)) (\<lambda>p. foldE (\<lambda>p r. updateTokenSecret (Some r) p) p rs) = Inr p
     \<and> currentTokenSecret p = last (r0 # rs)
     \<and> previousTokenSecret p = last (butlast (r0 # r0 # rs))
     \<and> CalculateToken p address = sha1 (last (r0 # rs) @ address)
     \<and> length (CalculateToken p address) = 20"
  using assms rotate_secrets [of "\<lparr>previousTokenSecret = r0, currentTokenSecret = r0, p_started = False\<rparr>" rs]
  by (simp add: NewProtocol_def CalculateToken_def)

theorem token_secret_rotation_witness:
  "\<exists>p. bindE (NewProtocol (Some (replicate 20 1)))
      (\<lambda>p. foldE (\<lambda>p r. updateTokenSecret (Some r) p) p [replicate 20 2, replicate 20 3]) = Inr p
    \<and> currentTokenSecret p = replicate 20 3 \<and> previousTokenSecret p = replicate 20 2"
  using token_secret_rotation [of "replicate 20 1" "[replicate 20 2, replicate 20 3]" "[]"] by auto

end
