(* ===== verification/Transport.thy ===== *)
theory Transport
  imports Protocol
begin

text \<open>
  The UDP transport of \<open>cmd/magneticod/dht/mainline/transport.go\<close>.  The kernel and the two packages
  it is reached through (golang.org/x/sys/unix, go-sockaddr) are parameters: the results of
  \<open>Socket\<close>, \<open>Bind\<close>, \<open>Recvfrom\<close> and \<open>Sendto\<close> and the two address conversions.  So is the bencode
  library, as a decoder and an encoder of whole messages.  \<open>'sa\<close> is the type of a socket address.
\<close>

subsection \<open>State and start\<close>

record transport =
  t_fd :: int
  t_laddr :: udp_addr
  t_started :: bool
  t_buffer :: "byte list"
  t_bound :: "(byte list \<times> int) option"

text \<open>\<open>net.ResolveUDPAddr\<close> asks the resolver; its answer is the argument.\<close>

definition NewTransport :: "udp_addr option \<Rightarrow> go_error + transport" where
  "NewTransport resolved =
     (case resolved of
        None \<Rightarrow> Inl (Panic ''Could not resolve the UDP address for the trawler!'')
      | Some a \<Rightarrow>
          if to4 (udp_IP a) = None then Inl (Panic ''IP address is not IPv4!'')
          else Inr \<lparr>t_fd = 0, t_laddr = a, t_started = False, t_buffer = replicate 65507 0,
                 t_bound = None\<rparr>)"

definition Transport_Start :: "int option \<Rightarrow> bool \<Rightarrow> transport \<Rightarrow> go_error + transport" where
  "Transport_Start socket bind_ok t =
     (if t_started t
      then Inl (Panic ''Attempting to Start() a mainline/Transport that has been already started! (Programmer error.)'')
      else case socket of
        None \<Rightarrow> Inl (Panic ''Could NOT create a UDP socket!'')
      | Some fd \<Rightarrow>
          let ip = go_copy (replicate 4 0) (ip_bytes (to4 (udp_IP (t_laddr t))))
          in if \<not> bind_ok then Inl (Panic ''Could NOT bind the socket!'')
             else Inr (t\<lparr>t_started := True, t_fd := fd, t_bound := Some (ip, udp_Port (t_laddr t))\<rparr>))"

text \<open>\<open>Terminate\<close>: the list collects the descriptors handed to \<open>unix.Close\<close>.\<close>

definition Transport_Terminate :: "transport \<times> int list \<Rightarrow> go_error + transport \<times> int list" where
  "Transport_Terminate tc = (case tc of (t, closed) \<Rightarrow> Inr (t, closed @ [t_fd t]))"

subsection \<open>Reading\<close>

datatype errno = EPERM | ENOBUFS | OtherErrno

text \<open>One return of \<open>unix.Recvfrom\<close>: the count, the sender, the error, and the buffer as the kernel
  left it.\<close>

record 'sa recv =
  rv_n :: int
  rv_from :: "'sa option"
  rv_err :: "errno option"
  rv_buffer :: "byte list"

datatype 's loop = Break 's | Continue 's

text \<open>The part of the loop body after the error checks.\<close>

definition read_datagram ::
    "('sa option \<Rightarrow> udp_addr option) \<Rightarrow> (byte list \<Rightarrow> go_error + message) \<Rightarrow> 's handler
      \<Rightarrow> 'sa recv \<Rightarrow> 's \<Rightarrow> go_error + 's loop" where
  "read_datagram toUDPAddr unmarshal onMsg r s =
     (if rv_n r = 0 then Inr (Continue s)
      else case toUDPAddr (rv_from r) of
        None \<Rightarrow> Inl (Panic ''dht mainline transport SockaddrToUDPAddr: nil'')
      | Some from \<Rightarrow>
          bindE (slice (rv_buffer r) 0 (rv_n r)) (\<lambda>d.
          case unmarshal d of
            Inl _ \<Rightarrow> Inr (Continue s)
          | Inr msg \<Rightarrow> bindE (onMsg msg from s) (\<lambda>s'. Inr (Continue s'))))"

definition read_step ::
    "('sa option \<Rightarrow> udp_addr option) \<Rightarrow> (byte list \<Rightarrow> go_error + message) \<Rightarrow> 's handler
      \<Rightarrow> ('s \<Rightarrow> go_error + 's) option \<Rightarrow> 'sa recv \<Rightarrow> 's \<Rightarrow> go_error + 's loop" where
  "read_step toUDPAddr unmarshal onMsg onCongestion r s =
     (if rv_err r = Some EPERM \<or> rv_err r = Some ENOBUFS then
        (case onCongestion of
           None \<Rightarrow> Inl (Panic ''invalid memory address or nil pointer dereference'')
         | Some f \<Rightarrow> bindE (f s) (read_datagram toUDPAddr unmarshal onMsg r))
      else if rv_err r \<noteq> None then Inr (Break s)
      else read_datagram toUDPAddr unmarshal onMsg r s)"

text \<open>The goroutine \<open>readMessages\<close> on the finite sequence of returns it has seen so far; it ends at a
  break and otherwise waits for the next return.\<close>

fun readMessages ::
    "('sa option \<Rightarrow> udp_addr option) \<Rightarrow> (byte list \<Rightarrow> go_error + message) \<Rightarrow> 's handler
      \<Rightarrow> ('s \<Rightarrow> go_error + 's) option \<Rightarrow> 'sa recv list \<Rightarrow> 's \<Rightarrow> go_error + 's loop" where
  "readMessages toUDPAddr unmarshal onMsg onCongestion [] s = Inr (Continue s)"
| "readMessages toUDPAddr unmarshal onMsg onCongestion (r # rs) s =
     bindE (read_step toUDPAddr unmarshal onMsg onCongestion r s) (\<lambda>l.
       case l of
         Break s' \<Rightarrow> Inr (Break s')
       | Continue s' \<Rightarrow> readMessages toUDPAddr unmarshal onMsg onCongestion rs s')"

subsection \<open>Writing\<close>

text \<open>The datagrams handed to \<open>unix.Sendto\<close> are collected in order; \<open>sendto\<close> is the error it returns.\<close>

definition WriteMessages ::
    "(message \<Rightarrow> go_error + byte list) \<Rightarrow> (udp_addr \<Rightarrow> 'sa option) \<Rightarrow> (byte list \<Rightarrow> 'sa \<Rightarrow> errno option)
      \<Rightarrow> ('s \<Rightarrow> go_error + 's) option \<Rightarrow> message \<Rightarrow> udp_addr
      \<Rightarrow> (byte list \<times> 'sa) list \<times> 's \<Rightarrow> go_error + (byte list \<times> 'sa) list \<times> 's" where
  "WriteMessages marshal toSockaddr sendto onCongestion msg addr st =
     (case st of (out, s) \<Rightarrow>
       (case marshal msg of
          Inl _ \<Rightarrow> Inl (Panic ''Could NOT marshal an outgoing message! (Programmer error.)'')
        | Inr d \<Rightarrow>
            (case toSockaddr addr of
               None \<Rightarrow> Inr (out, s)
             | Some sa \<Rightarrow>
                 let out' = out @ [(d, sa)]; err = sendto d sa
                 in if err = Some EPERM \<or> err = Some ENOBUFS then
                      (case onCongestion of
                         None \<Rightarrow> Inr (out', s)
                       | Some f \<Rightarrow> bindE (f s) (\<lambda>s'. Inr (out', s')))
                    else Inr (out', s))))"

text \<open>\<open>Protocol.SendMessage\<close> hands the message to the transport.\<close>

definition SendMessage ::
    "(message \<Rightarrow> go_error + byte list) \<Rightarrow> (udp_addr \<Rightarrow> 'sa option) \<Rightarrow> (byte list \<Rightarrow> 'sa \<Rightarrow> errno option)
      \<Rightarrow> ('s \<Rightarrow> go_error + 's) option \<Rightarrow> message \<Rightarrow> udp_addr
      \<Rightarrow> (byte list \<times> 'sa) list \<times> 's \<Rightarrow> go_error + (byte list \<times> 'sa) list \<times> 's" where
  "SendMessage marshal toSockaddr sendto onCongestion msg addr st =
     WriteMessages marshal toSockaddr sendto onCongestion msg addr st"

subsection \<open>Properties\<close>

text \<open>A return of \<open>Recvfrom\<close> that carries a datagram: no error, the count is within the buffer, and a
  non-empty datagram has a sender.\<close>

definition ok_recv :: "('sa option \<Rightarrow> udp_addr option) \<Rightarrow> 'sa recv \<Rightarrow> bool" where
  "ok_recv toUDPAddr r \<longleftrightarrow> rv_err r = None \<and> 0 \<le> rv_n r \<and> rv_n r \<le> int (length (rv_buffer r))
     \<and> (rv_n r \<noteq> 0 \<longrightarrow> toUDPAddr (rv_from r) \<noteq> None)"

text \<open>The messages a sequence of returns carries: the non-empty datagrams that decode, each with its
  sender.\<close>

fun arrivals :: "('sa option \<Rightarrow> udp_addr option) \<Rightarrow> (byte list \<Rightarrow> go_error + message)
    \<Rightarrow> 'sa recv list \<Rightarrow> (message \<times> udp_addr) list" where
  "arrivals toUDPAddr unmarshal [] = []"
| "arrivals toUDPAddr unmarshal (r # rs) =
     (if rv_n r = 0 then []
      else case (toUDPAddr (rv_from r), unmarshal (take (nat (rv_n r)) (rv_buffer r))) of
             (Some from, Inr msg) \<Rightarrow> [(msg, from)] | _ \<Rightarrow> [])
     @ arrivals toUDPAddr unmarshal rs"

lemma read_step_ok:
  assumes "ok_recv toUDPAddr r"
  shows "read_step toUDPAddr unmarshal onMsg onCongestion r s
     = bindE (foldE (\<lambda>s (msg, from). onMsg msg from s) s (arrivals toUDPAddr unmarshal [r]))
         (\<lambda>s'. Inr (Continue s'))"
proof (cases "rv_n r = 0")
  case True
  with assms show ?thesis by (simp add: read_step_def read_datagram_def ok_recv_def)
next
  case False
  with assms obtain src where f: "toUDPAddr (rv_from r) = Some src"
    by (auto simp: ok_recv_def)
  have "slice (rv_buffer r) 0 (rv_n r) = Inr (take (nat (rv_n r)) (rv_buffer r))"
    using assms by (simp add: slice_def ok_recv_def)
  then show ?thesis
    using assms False f
    by (cases "unmarshal (take (nat (rv_n r)) (rv_buffer r))";
        cases "onMsg (projr (unmarshal (take (nat (rv_n r)) (rv_buffer r)))) src s")
       (simp_all add: read_step_def read_datagram_def ok_recv_def)
qed

lemma arrivals_Cons: "arrivals f u (r # rs) = arrivals f u [r] @ arrivals f u rs"
  by simp

text \<open>C30: the read loop delivers every datagram that decodes, in order and with its sender, and
  nothing else: empty and undecodable datagrams are skipped, only the bytes the kernel reported are
  decoded although the buffer is reused, and a fatal receive error ends the loop.\<close>

theorem readMessages_delivers:
  assumes "\<forall>r \<in> set rs. ok_recv toUDPAddr r" and "rv_err closed = Some OtherErrno"
  shows "readMessages toUDPAddr unmarshal onMsg onCongestion (rs @ [closed]) s
     = bindE (foldE (\<lambda>s (msg, from). onMsg msg from s) s (arrivals toUDPAddr unmarshal rs))
         (\<lambda>s'. Inr (Break s'))"
  using assms(1)
proof (induction rs arbitrary: s)
  case Nil
  with assms(2) show ?case by (simp add: read_step_def)
next
  case (Cons r rs)
  have "ok_recv toUDPAddr r" using Cons.prems by simp
  note step = read_step_ok [OF this, of unmarshal onMsg onCongestion s]
  show ?case
    using Cons
    by (simp only: append_Cons readMessages.simps step arrivals_Cons [of _ _ r rs] foldE_append
        bindE_assoc bindE.simps loop.case list.set_intros ball_simps) simp
qed

text \<open>A client that keeps the contract is never brought down by what arrives.\<close>

context total_protocol_client
begin

lemma readMessages_returns:
  assumes "\<forall>r \<in> set rs. ok_recv toUDPAddr r" and "inv s"
  shows "\<exists>t. readMessages toUDPAddr unmarshal (onMessage h) onCongestion rs s = Inr (Continue t) \<and> inv t"
  using assms
proof (induction rs arbitrary: s)
  case (Cons r rs)
  from onMessages_return [OF Cons.prems(2), of "arrivals toUDPAddr unmarshal [r]"]
  obtain t where "read_step toUDPAddr unmarshal (onMessage h) onCongestion r s = Inr (Continue t)" "inv t"
    using Cons.prems(1) by (auto simp: read_step_ok simp del: arrivals.simps)
  with Cons show ?case by simp
qed simp

end

text \<open>An instance for witnesses: a sender is any number, the only datagram that decodes is \<open>[1, 2]\<close>, and
  messages are counted.\<close>

definition some_addr :: udp_addr where
  "some_addr = \<lparr>udp_IP = [10, 0, 0, 1], udp_Port = 6881, udp_Zone = []\<rparr>"

definition demo_unmarshal :: "byte list \<Rightarrow> go_error + message" where
  "demo_unmarshal d = (if d = [1, 2] then Inr zero_message else Inl (Err ''syntax error''))"

definition demo_recv :: "byte list \<Rightarrow> byte list \<Rightarrow> nat recv" where
  "demo_recv d stale = \<lparr>rv_n = int (length d), rv_from = Some 0, rv_err = None, rv_buffer = d @ stale\<rparr>"

definition demo_closed :: "nat recv" where
  "demo_closed = \<lparr>rv_n = -1, rv_from = None, rv_err = Some OtherErrno, rv_buffer = []\<rparr>"

theorem readMessages_delivers_witness:
  "readMessages (map_option (\<lambda>_. some_addr)) demo_unmarshal (\<lambda>msg src s. Inr (Suc s)) None
     ([demo_recv [1, 2] [3], demo_recv [] [1, 2], demo_recv [1] [2], demo_recv [1, 2] []] @ [demo_closed]) 0
   = Inr (Break 2)"
  by (subst readMessages_delivers)
     (simp_all add: ok_recv_def demo_recv_def demo_closed_def demo_unmarshal_def)



end
