(* ===== verification/IndexingService.thy ===== *)
theory IndexingService
  imports Transport
begin

text \<open>
  The DHT indexing service of \<open>cmd/magneticod/dht/mainline/indexingService.go\<close>.  The routing table
  maps a node identifier to a pointer: \<open>is_heap\<close> holds the variables whose address the code takes,
  and a pointer is an index into it.  Under the language version of \<open>go.mod\<close> (go 1.15) a range loop
  has one loop variable for all its iterations, so \<open>&node.Addr\<close> is the same pointer in each of them.
  Messages handed to \<open>protocol.SendMessage\<close> and results handed to \<open>OnResult\<close> are collected in order in
  \<open>is_sent\<close> and \<open>is_results\<close>.  \<open>rnd\<close> is the random source: what its n-th \<open>rand.Read\<close> delivers.
\<close>

subsection \<open>State\<close>

record indexing_result =
  ir_infoHash :: "byte list"
  ir_peerAddrs :: "tcp_addr list"

record indexing_service =
  is_started :: bool
  nodeID :: "byte list"
  routingTable :: "(byte list \<times> nat) list"
  is_heap :: "udp_addr list"
  maxNeighbors :: nat
  counter :: "16 word"
  getPeersRequests :: "(byte list \<times> byte list) list"
  is_draws :: nat
  is_sent :: "(message \<times> udp_addr) list"
  is_results :: "indexing_result list"

type_synonym random_source = "nat \<Rightarrow> byte list option"

definition zero_udp :: udp_addr where
  "zero_udp = \<lparr>udp_IP = [], udp_Port = 0, udp_Zone = []\<rparr>"

definition NewIndexingService :: "nat \<Rightarrow> indexing_service" where
  "NewIndexingService maxN = \<lparr>is_started = False, nodeID = replicate 20 0, routingTable = [],
     is_heap = [], maxNeighbors = maxN, counter = 0, getPeersRequests = [], is_draws = 0,
     is_sent = [], is_results = []\<rparr>"

definition uint16BE :: "16 word \<Rightarrow> byte list" where
  "uint16BE v = [ucast (drop_bit 8 v), ucast v]"

text \<open>\<open>target := make([]byte, 20); rand.Read(target)\<close>, with the panic on a read error.\<close>

definition draw_target :: "string \<Rightarrow> random_source \<Rightarrow> indexing_service \<Rightarrow> go_error + byte list \<times> indexing_service" where
  "draw_target failure rnd s =
     (case rnd (is_draws s) of
        None \<Rightarrow> Inl (Panic failure)
      | Some r \<Rightarrow> Inr (go_copy (replicate 20 0) r, s\<lparr>is_draws := Suc (is_draws s)\<rparr>))"

definition send :: "message \<Rightarrow> udp_addr \<Rightarrow> indexing_service \<Rightarrow> indexing_service" where
  "send msg addr s = s\<lparr>is_sent := is_sent s @ [(msg, addr)]\<rparr>"

subsection \<open>The indexing goroutine\<close>

definition bootstrappingNodes :: "string list" where
  "bootstrappingNodes = [''router.bittorrent.com:6881'', ''dht.transmissionbt.com:6881'',
     ''dht.libtorrent.org:25401'']"

definition bootstrap ::
    "(string \<Rightarrow> udp_addr option) \<Rightarrow> random_source \<Rightarrow> indexing_service \<Rightarrow> go_error + indexing_service" where
  "bootstrap resolve rnd s =
     foldE (\<lambda>s node.
         bindE (draw_target ''Could NOT generate random bytes during bootstrapping!'' rnd s) (\<lambda>(target, s).
         case resolve node of
           None \<Rightarrow> Inr s
         | Some addr \<Rightarrow> Inr (send (NewFindNodeQuery (nodeID s) target) addr s)))
       s bootstrappingNodes"

text \<open>Go iterates over a map in an unspecified order: \<open>order\<close> lists the table's keys.  The addresses
  are collected first, as pointers, and read when a query is sent.\<close>

definition findNeighbors ::
    "byte list list \<Rightarrow> random_source \<Rightarrow> indexing_service \<Rightarrow> go_error + indexing_service" where
  "findNeighbors order rnd s =
     (let addressesToSend = map (\<lambda>k. map_get (routingTable s) k 0) order
      in foldE (\<lambda>s addr.
           bindE (draw_target ''Could NOT generate random bytes during bootstrapping!'' rnd s) (\<lambda>(target, s).
           Inr (send (NewSampleInfohashesQuery (nodeID s) (bytes_of ''aa'') target)
                  (is_heap s ! addr) s)))
         s addressesToSend)"

definition resetTable :: "indexing_service \<Rightarrow> indexing_service" where
  "resetTable s = s\<lparr>routingTable := []\<rparr>"

text \<open>One tick of \<open>index\<close>.\<close>

definition index_tick ::
    "(string \<Rightarrow> udp_addr option) \<Rightarrow> byte list list \<Rightarrow> random_source \<Rightarrow> indexing_service
      \<Rightarrow> go_error + indexing_service" where
  "index_tick resolve order rnd s =
     (if length (routingTable s) = 0 then bootstrap resolve rnd s
      else bindE (findNeighbors order rnd s) (\<lambda>s. Inr (resetTable s)))"

subsection \<open>Event handlers\<close>

text \<open>The loop over the nodes of a find_node response; \<open>p\<close> is the address of the loop variable.\<close>

fun find_node_loop ::
    "random_source \<Rightarrow> nat \<Rightarrow> compact_node_info list \<Rightarrow> indexing_service \<Rightarrow> go_error + indexing_service" where
  "find_node_loop rnd p [] s = Inr s"
| "find_node_loop rnd p (node # nodes) s =
     (let s = s\<lparr>is_heap := (is_heap s)[p := cni_Addr node]\<rparr>
      in if length (routingTable s) \<ge> maxNeighbors s then Inr s
         else if udp_Port (cni_Addr node) = 0 then find_node_loop rnd p nodes s
         else let s = s\<lparr>routingTable := AList.update (cni_ID node) p (routingTable s)\<rparr>
              in bindE (draw_target ''Could NOT generate random bytes!'' rnd s) (\<lambda>(target, s).
                 find_node_loop rnd p nodes
                   (send (NewSampleInfohashesQuery (nodeID s) (bytes_of ''aa'') target)
                      (is_heap s ! p) s)))"

definition onFindNodeResponse :: "random_source \<Rightarrow> indexing_service handler" where
  "onFindNodeResponse rnd response addr s =
     find_node_loop rnd (length (is_heap s)) (r_Nodes (m_R response))
       (s\<lparr>is_heap := is_heap s @ [zero_udp]\<rparr>)"

definition onGetPeersResponse :: "indexing_service handler" where
  "onGetPeersResponse msg addr s =
     (let t = go_copy (replicate 2 0) (m_T msg);
          infoHash = map_get (getPeersRequests s) t (replicate 20 0);
          s = s\<lparr>getPeersRequests := AList.delete t (getPeersRequests s)\<rparr>
      in if length (r_Values (m_R msg)) = 0 then Inr s
         else let peerAddrs = map (\<lambda>peer. \<lparr>tcp_IP = cp_IP peer, tcp_Port = cp_Port peer\<rparr>)
                    (filter (\<lambda>peer. \<not> cp_Port peer = 0) (r_Values (m_R msg)))
              in Inr (s\<lparr>is_results := is_results s
                     @ [\<lparr>ir_infoHash = infoHash, ir_peerAddrs = peerAddrs\<rparr>]\<rparr>))"

text \<open>One iteration of the loop that requests the samples.\<close>

definition request_sample :: "byte list \<Rightarrow> udp_addr \<Rightarrow> indexing_service \<Rightarrow> nat \<Rightarrow> go_error + indexing_service" where
  "request_sample samples addr s i =
     bindE (slice samples (int i) (int ((i + 1) * 20))) (\<lambda>src.
       let infoHash = go_copy (replicate 20 0) src;
           t = uint16BE (counter s);
           msg = (NewGetPeersQuery (nodeID s) infoHash)\<lparr>m_T := t\<rparr>;
           s = send msg addr s
       in Inr (s\<lparr>getPeersRequests := AList.update t infoHash (getPeersRequests s),
                 counter := counter s + 1\<rparr>))"

text \<open>The loop over the nodes of a sample_infohashes response, which sends nothing.\<close>

fun sample_node_loop :: "nat \<Rightarrow> compact_node_info list \<Rightarrow> indexing_service \<Rightarrow> indexing_service" where
  "sample_node_loop p [] s = s"
| "sample_node_loop p (node # nodes) s =
     (let s = s\<lparr>is_heap := (is_heap s)[p := cni_Addr node]\<rparr>
      in if length (routingTable s) \<ge> maxNeighbors s then s
         else if udp_Port (cni_Addr node) = 0 then sample_node_loop p nodes s
         else sample_node_loop p nodes
                (s\<lparr>routingTable := AList.update (cni_ID node) p (routingTable s)\<rparr>))"

definition onSampleInfohashesResponse :: "indexing_service handler" where
  "onSampleInfohashesResponse msg addr s =
     bindE (foldE (request_sample (r_Samples (m_R msg)) addr) s
              [0..<length (r_Samples (m_R msg)) div 20]) (\<lambda>s.
     Inr (sample_node_loop (length (is_heap s)) (r_Nodes (m_R msg))
            (s\<lparr>is_heap := is_heap s @ [zero_udp]\<rparr>)))"

text \<open>The handlers \<open>NewIndexingService\<close> registers.\<close>

definition service_handlers :: "random_source \<Rightarrow> indexing_service protocol_event_handlers" where
  "service_handlers rnd = no_handlers
     \<lparr>OnFindNodeResponse := Some (onFindNodeResponse rnd),
      OnGetPeersResponse := Some onGetPeersResponse,
      OnSampleInfohashesResponse := Some onSampleInfohashesResponse\<rparr>"

definition IndexingService_Start ::
    "('p \<Rightarrow> go_error + 'p) \<Rightarrow> indexing_service \<Rightarrow> 'p \<Rightarrow> go_error + indexing_service \<times> 'p" where
  "IndexingService_Start protocol_Start s p =
     (if is_started s
      then Inl (Panic ''Attempting to Start() a mainline/IndexingService that has been already started! (Programmer error.)'')
      else bindE (protocol_Start p) (\<lambda>p'. Inr (s\<lparr>is_started := True\<rparr>, p')))"

definition IndexingService_Terminate :: "('p \<Rightarrow> go_error + 'p) \<Rightarrow> 'p \<Rightarrow> go_error + 'p" where
  "IndexingService_Terminate protocol_Terminate p = protocol_Terminate p"

subsection \<open>Steps of the service\<close>

text \<open>The service runs in two goroutines: the transport's, which dispatches messages, and \<open>index\<close>.  A
  handler runs to its end under the table's lock or touches only what its own goroutine owns, and
  \<open>findNeighbors\<close> reads the table under the lock, so a step is one handler call, one bootstrap, one
  round of queries, or one reset of the table; they interleave freely.\<close>

inductive service_step ::
    "(string \<Rightarrow> udp_addr option) \<Rightarrow> random_source \<Rightarrow> indexing_service \<Rightarrow> indexing_service \<Rightarrow> bool"
  for resolve rnd where
  receive: "onMessage (service_handlers rnd) msg addr s = Inr t \<Longrightarrow> service_step resolve rnd s t"
| seed: "bootstrap resolve rnd s = Inr t \<Longrightarrow> service_step resolve rnd s t"
| query: "distinct order \<Longrightarrow> set order = set (keys (routingTable s)) \<Longrightarrow>
     findNeighbors order rnd s = Inr t \<Longrightarrow> service_step resolve rnd s t"
| reset: "service_step resolve rnd s (resetTable s)"

inductive service_reachable ::
    "(string \<Rightarrow> udp_addr option) \<Rightarrow> random_source \<Rightarrow> nat \<Rightarrow> indexing_service \<Rightarrow> bool"
  for resolve rnd maxN where
  init: "service_reachable resolve rnd maxN (NewIndexingService maxN)"
| step: "service_reachable resolve rnd maxN s \<Longrightarrow> service_step resolve rnd s t \<Longrightarrow>
     service_reachable resolve rnd maxN t"

text \<open>A message that the receiver's own dispatch accepts.\<close>

definition sendable :: "message \<Rightarrow> bool" where
  "sendable msg = (case kind_of msg of None \<Rightarrow> False | Some k \<Rightarrow> validator k msg)"

definition table_inv :: "indexing_service \<Rightarrow> bool" where
  "table_inv s \<longleftrightarrow> distinct (keys (routingTable s)) \<and> length (routingTable s) \<le> maxNeighbors s
     \<and> (\<forall>(i, p) \<in> set (routingTable s). p < length (is_heap s))"

definition requests_inv :: "indexing_service \<Rightarrow> bool" where
  "requests_inv s \<longleftrightarrow> distinct (keys (getPeersRequests s))
     \<and> (\<forall>(t, i) \<in> set (getPeersRequests s). length t = 2 \<and> length i = 20)"

definition sent_inv :: "indexing_service \<Rightarrow> bool" where
  "sent_inv s \<longleftrightarrow> length (nodeID s) = 20 \<and> (\<forall>(msg, addr) \<in> set (is_sent s). sendable msg)"

definition svc_inv :: "nat \<Rightarrow> indexing_service \<Rightarrow> bool" where
  "svc_inv N s \<longleftrightarrow> maxNeighbors s = N \<and> table_inv s \<and> requests_inv s \<and> sent_inv s"

lemmas svc_inv_defs = svc_inv_def table_inv_def requests_inv_def sent_inv_def

lemma length_uint16BE [simp]: "length (uint16BE v) = 2"
  by (simp add: uint16BE_def)

lemma uint16BE_eq: "uint16BE = uint16_bytes"
  by (simp add: fun_eq_iff uint16BE_def uint16_bytes_def)

lemma sendable_queries [simp]:
  "length i = 20 \<Longrightarrow> length x = 20 \<Longrightarrow> sendable (NewFindNodeQuery i x)"
  "length i = 20 \<Longrightarrow> length x = 20 \<Longrightarrow> sendable (NewSampleInfohashesQuery i t x)"
  "length i = 20 \<Longrightarrow> length x = 20 \<Longrightarrow> sendable ((NewGetPeersQuery i x)\<lparr>m_T := t\<rparr>)"
  by (simp_all add: sendable_def kind_of_def query_kind_def validate_defs message_defs)

lemma draw_target_Inr:
  assumes "draw_target failure rnd s = Inr (target, t)"
  shows "length target = 20 \<and> t = s\<lparr>is_draws := Suc (is_draws s)\<rparr>"
  using assms by (auto simp: draw_target_def split: option.splits)

lemma svc_inv_draws [simp]: "svc_inv N (s\<lparr>is_draws := n\<rparr>) = svc_inv N s"
  by (simp add: svc_inv_defs)

lemma svc_inv_send: "svc_inv N s \<Longrightarrow> sendable msg \<Longrightarrow> svc_inv N (send msg addr s)"
  by (auto simp: svc_inv_defs send_def)

lemma svc_inv_nodeID: "svc_inv N s \<Longrightarrow> length (nodeID s) = 20"
  by (simp add: svc_inv_defs)

text \<open>Writing the loop variable and storing its address.\<close>

lemma svc_inv_heap_write: "svc_inv N s \<Longrightarrow> svc_inv N (s\<lparr>is_heap := (is_heap s)[p := a]\<rparr>)"
  by (simp add: svc_inv_defs)

lemma svc_inv_heap_alloc: "svc_inv N s \<Longrightarrow> svc_inv N (s\<lparr>is_heap := is_heap s @ [a]\<rparr>)"
  by (auto simp: svc_inv_defs)

lemma svc_inv_insert:
  assumes "svc_inv N s" and "p < length (is_heap s)" and "length (routingTable s) < maxNeighbors s"
  shows "svc_inv N (s\<lparr>routingTable := AList.update i p (routingTable s)\<rparr>)"
  using assms set_update_subset [of i p "routingTable s"]
  by (fastforce simp: svc_inv_defs length_map_update)

lemma find_node_loop_inv:
  "svc_inv N s \<Longrightarrow> p < length (is_heap s) \<Longrightarrow> find_node_loop rnd p nodes s = Inr t \<Longrightarrow> svc_inv N t"
proof (induction nodes arbitrary: s)
  case (Cons node nodes)
  let ?s1 = "s\<lparr>is_heap := (is_heap s)[p := cni_Addr node]\<rparr>"
  have i1: "svc_inv N ?s1" using Cons.prems(1) by (rule svc_inv_heap_write)
  show ?case
  proof (cases "length (routingTable s) \<ge> maxNeighbors s \<or> udp_Port (cni_Addr node) = 0")
    case True
    with Cons i1 show ?thesis by (auto simp: Let_def split: if_splits)
  next
    case False
    let ?s2 = "?s1\<lparr>routingTable := AList.update (cni_ID node) p (routingTable ?s1)\<rparr>"
    have i2: "svc_inv N ?s2"
      using i1 Cons.prems(2) False by (intro svc_inv_insert) auto
    from Cons.prems(3) False obtain target s3 where d: "draw_target ''Could NOT generate random bytes!'' rnd ?s2 = Inr (target, s3)"
      and l: "find_node_loop rnd p nodes (send (NewSampleInfohashesQuery (nodeID s3)
          (bytes_of ''aa'') target) (is_heap s3 ! p) s3) = Inr t"
      by (auto simp: Let_def bindE_Inr_iff)
    from draw_target_Inr [OF d] have s3: "length target = 20" "svc_inv N s3" "p < length (is_heap s3)"
      using i2 Cons.prems(2) by simp_all
    with Cons.IH [OF _ _ l] show ?thesis
      by (simp add: svc_inv_send svc_inv_nodeID) (simp add: send_def)
  qed
qed simp

lemma sample_node_loop_inv:
  "svc_inv N s \<Longrightarrow> p < length (is_heap s) \<Longrightarrow> svc_inv N (sample_node_loop p nodes s)"
proof (induction nodes arbitrary: s)
  case (Cons node nodes)
  let ?s1 = "s\<lparr>is_heap := (is_heap s)[p := cni_Addr node]\<rparr>"
  have i1: "svc_inv N ?s1" using Cons.prems(1) by (rule svc_inv_heap_write)
  with Cons svc_inv_insert [OF i1, of p "cni_ID node"] show ?case
    by (simp add: Let_def)
qed simp

subsection \<open>Requesting samples\<close>

text \<open>The infohash that the i-th iteration asks for, its transaction identifier and its query.\<close>

definition sample_hash :: "byte list \<Rightarrow> nat \<Rightarrow> byte list" where
  "sample_hash samples i = take 20 (drop i samples)"

definition sample_tid :: "indexing_service \<Rightarrow> nat \<Rightarrow> byte list" where
  "sample_tid s i = uint16BE (counter s + of_nat i)"

definition sample_query :: "byte list \<Rightarrow> indexing_service \<Rightarrow> nat \<Rightarrow> message" where
  "sample_query samples s i =
     (NewGetPeersQuery (nodeID s) (sample_hash samples i))\<lparr>m_T := sample_tid s i\<rparr>"

definition after_requests :: "byte list \<Rightarrow> udp_addr \<Rightarrow> nat \<Rightarrow> indexing_service \<Rightarrow> indexing_service" where
  "after_requests samples addr n s = s
     \<lparr>is_sent := is_sent s @ map (\<lambda>i. (sample_query samples s i, addr)) [0..<n],
      getPeersRequests := fold (\<lambda>i. AList.update (sample_tid s i) (sample_hash samples i)) [0..<n]
        (getPeersRequests s),
      counter := counter s + of_nat n\<rparr>"

lemma sample_bounds: "i < length samples div 20 \<Longrightarrow> (i + 1) * 20 \<le> length samples"
  by (metis Suc_eq_plus1 Suc_leI div_times_less_eq_dividend le_trans mult_le_mono1)

lemma length_sample_hash [simp]:
  "i < length samples div 20 \<Longrightarrow> length (sample_hash samples i) = 20"
  using sample_bounds [of i samples] by (simp add: sample_hash_def)

lemma request_sample_eq:
  assumes "i < length samples div 20"
  shows "request_sample samples addr s i =
     Inr (s\<lparr>is_sent := is_sent s
              @ [((NewGetPeersQuery (nodeID s) (sample_hash samples i))\<lparr>m_T := uint16BE (counter s)\<rparr>, addr)],
            getPeersRequests := AList.update (uint16BE (counter s)) (sample_hash samples i)
              (getPeersRequests s),
            counter := counter s + 1\<rparr>)"
proof -
  from sample_bounds [OF assms] have "slice samples (int i) (int ((i + 1) * 20))
      = Inr (take (i * 19 + 20) (drop i samples))"
    by (subst slice_ok) (simp_all add: algebra_simps)
  moreover have "go_copy (replicate 20 0) (take (i * 19 + 20) (drop i samples)) = sample_hash samples i"
    using sample_bounds [OF assms] by (simp add: go_copy_def sample_hash_def min_def) linarith
  ultimately show ?thesis
    by (simp add: request_sample_def Let_def send_def del: of_nat_mult of_nat_add)
qed

lemma request_loop:
  "n \<le> length samples div 20 \<Longrightarrow>
   foldE (request_sample samples addr) s [0..<n] = Inr (after_requests samples addr n s)"
proof (induction n)
  case 0
  show ?case by (simp add: after_requests_def)
next
  case (Suc n)
  then show ?case
    by (simp add: foldE_append request_sample_eq)
       (simp add: after_requests_def sample_query_def sample_tid_def)
qed

lemma inj_sample_tid: "inj_on (sample_tid s) {..<65536}"
proof (rule inj_onI)
  fix i j :: nat
  assume ij: "i \<in> {..<65536}" "j \<in> {..<65536}" and "sample_tid s i = sample_tid s j"
  then have "(of_nat i :: 16 word) = of_nat j"
    by (simp add: sample_tid_def uint16BE_eq)
  then have "unat (of_nat i :: 16 word) = unat (of_nat j :: 16 word)" by simp
  then show "i = j" using ij by (simp add: unat_of_nat)
qed

lemma requests_inv_fold:
  assumes "distinct (keys m)" and "\<forall>(t, h) \<in> set m. length t = 2 \<and> length h = 20"
    and "\<forall>i \<in> set is. length (g i) = 20"
  shows "distinct (keys (fold (\<lambda>i. AList.update (sample_tid s i) (g i)) is m))
     \<and> (\<forall>(t, h) \<in> set (fold (\<lambda>i. AList.update (sample_tid s i) (g i)) is m). length t = 2 \<and> length h = 20)"
  using assms
proof (induction "is" arbitrary: m)
  case (Cons i js)
  have "\<forall>(t, h) \<in> set (AList.update (sample_tid s i) (g i) m). length t = 2 \<and> length h = 20"
    using Cons.prems(2,3) by (intro ball_update) (auto simp: sample_tid_def)
  moreover have "distinct (keys (AList.update (sample_tid s i) (g i) m))"
    using Cons.prems(1) by simp
  ultimately show ?case
    using Cons.IH [of "AList.update (sample_tid s i) (g i) m"] Cons.prems(3) by simp
qed simp

lemma svc_inv_after_requests:
  assumes "svc_inv N s" and "n \<le> length samples div 20"
  shows "svc_inv N (after_requests samples addr n s)"
proof -
  have "requests_inv (after_requests samples addr n s)"
    using assms requests_inv_fold [of "getPeersRequests s" "[0..<n]" "sample_hash samples" s]
    by (simp add: svc_inv_defs after_requests_def)
  moreover have "sent_inv (after_requests samples addr n s)"
    using assms by (auto simp: svc_inv_defs after_requests_def sample_query_def)
  ultimately show ?thesis
    using assms(1) by (simp add: svc_inv_def table_inv_def after_requests_def)
qed

lemma onSampleInfohashesResponse_eq:
  "onSampleInfohashesResponse msg addr s =
     (let s1 = after_requests (r_Samples (m_R msg)) addr (length (r_Samples (m_R msg)) div 20) s
      in Inr (sample_node_loop (length (is_heap s1)) (r_Nodes (m_R msg))
            (s1\<lparr>is_heap := is_heap s1 @ [zero_udp]\<rparr>)))"
  by (simp add: onSampleInfohashesResponse_def request_loop Let_def)

subsection \<open>The service as a client of the protocol\<close>

lemma onFindNodeResponse_inv:
  "svc_inv N s \<Longrightarrow> onFindNodeResponse rnd msg addr s = Inr t \<Longrightarrow> svc_inv N t"
  unfolding onFindNodeResponse_def
  by (erule find_node_loop_inv [rotated 2]) (auto intro: svc_inv_heap_alloc)

lemma onGetPeersResponse_inv:
  assumes "svc_inv N s" and "onGetPeersResponse msg addr s = Inr t"
  shows "svc_inv N t"
  using assms by (auto simp: onGetPeersResponse_def svc_inv_defs Let_def AList.delete_eq
      keys_delete [unfolded AList.delete_eq] distinct_removeAll split: if_splits)

lemma onSampleInfohashesResponse_inv:
  assumes "svc_inv N s" and "onSampleInfohashesResponse msg addr s = Inr t"
  shows "svc_inv N t"
  using assms(2) svc_inv_after_requests [OF assms(1) order_refl]
  by (auto simp: onSampleInfohashesResponse_eq Let_def intro!: sample_node_loop_inv svc_inv_heap_alloc)

interpretation svc: protocol_client "service_handlers rnd" "svc_inv N" for rnd N
proof
  fix msg k f s addr t
  assume "handler_of k (service_handlers rnd) = Some f" and "svc_inv N s" and "f msg addr s = Inr t"
  then show "svc_inv N t"
    by (cases k) (auto simp: service_handlers_def no_handlers_def dest: onFindNodeResponse_inv
        onGetPeersResponse_inv onSampleInfohashesResponse_inv)
qed

lemma find_node_loop_returns: "\<exists>t. find_node_loop (\<lambda>n. Some (r n)) p nodes s = Inr t"
proof (induction nodes arbitrary: s)
  case (Cons node nodes)
  then show ?case by (simp add: Let_def draw_target_def)
qed simp

interpretation svc: total_protocol_client "service_handlers (\<lambda>n. Some (r n))" "svc_inv N" for r N
proof
  fix msg k f s addr
  assume "handler_of k (service_handlers (\<lambda>n. Some (r n))) = Some f"
  then show "\<exists>t. f msg addr s = Inr t"
    by (cases k) (auto simp: service_handlers_def no_handlers_def onFindNodeResponse_def
        find_node_loop_returns onGetPeersResponse_def onSampleInfohashesResponse_eq Let_def)
qed

subsection \<open>Every reachable state\<close>

lemma bootstrap_inv: "svc_inv N s \<Longrightarrow> bootstrap resolve rnd s = Inr t \<Longrightarrow> svc_inv N t"
  unfolding bootstrap_def
  by (erule foldE_inv [where I = "svc_inv N"])
     (auto simp: bindE_Inr_iff svc_inv_nodeID intro!: svc_inv_send dest!: draw_target_Inr
       split: option.splits)

lemma findNeighbors_inv: "svc_inv N s \<Longrightarrow> findNeighbors order rnd s = Inr t \<Longrightarrow> svc_inv N t"
  unfolding findNeighbors_def Let_def
  by (erule foldE_inv [where I = "svc_inv N"])
     (auto simp: bindE_Inr_iff svc_inv_nodeID intro!: svc_inv_send dest!: draw_target_Inr)

lemma service_step_inv: "service_step resolve rnd s t \<Longrightarrow> svc_inv N s \<Longrightarrow> svc_inv N t"
proof (induction rule: service_step.induct)
  case (receive msg addr s t)
  then show ?case by (blast intro: svc.onMessage_inv)
next
  case (reset s)
  then show ?case by (simp add: resetTable_def svc_inv_defs)
qed (auto intro: bootstrap_inv findNeighbors_inv)

lemma svc_inv_init: "svc_inv maxN (NewIndexingService maxN)"
  by (simp add: NewIndexingService_def svc_inv_defs)

lemma reachable_inv: "service_reachable resolve rnd maxN s \<Longrightarrow> svc_inv maxN s"
  by (induction rule: service_reachable.induct) (blast intro: svc_inv_init service_step_inv)+

lemma card_transaction_ids: "card {t :: byte list. length t = 2} = 65536"
  using card_lists_length_eq [of "UNIV :: byte set" 2] by (simp add: card_word)

lemma requests_bound:
  assumes "requests_inv s"
  shows "length (getPeersRequests s) \<le> 65536"
proof -
  have "set (keys (getPeersRequests s)) \<subseteq> {t. length t = 2}"
    using assms by (auto simp: requests_inv_def keys_def)
  moreover have "finite {t :: byte list. length t = 2}"
    using card_transaction_ids card.infinite by force
  ultimately have "card (set (keys (getPeersRequests s))) \<le> 65536"
    using card_mono card_transaction_ids by metis
  then show ?thesis
    using assms by (simp add: distinct_card requests_inv_def)
qed

subsection \<open>Properties\<close>

text \<open>C4: in every reachable state of the service, whatever arrives and however its goroutines
  interleave, the routing table holds at most the configured number of neighbours, one entry per
  identifier and no dangling pointer; at most 65536 get_peers requests are outstanding, one per
  transaction identifier; and every message sent so far is one that the receiver's dispatch accepts.\<close>

theorem service_invariant:
  assumes "service_reachable resolve rnd maxN s"
  shows "length (routingTable s) \<le> maxN \<and> distinct (keys (routingTable s))
     \<and> (\<forall>(i, p) \<in> set (routingTable s). p < length (is_heap s))
     \<and> length (getPeersRequests s) \<le> 65536 \<and> distinct (keys (getPeersRequests s))
     \<and> (\<forall>(msg, addr) \<in> set (is_sent s). sendable msg)"
  using reachable_inv [OF assms] requests_bound [of s] by (auto simp: svc_inv_defs)

text \<open>A find_node response of two nodes, the second of which uses port 0.\<close>

definition node_at :: "byte \<Rightarrow> int \<Rightarrow> compact_node_info" where
  "node_at x port = \<lparr>cni_ID = replicate 20 x,
     cni_Addr = \<lparr>udp_IP = [10, 0, 0, x], udp_Port = port, udp_Zone = []\<rparr>\<rparr>"

definition find_node_reply :: message where
  "find_node_reply = zero_message\<lparr>m_Y := ''r'', m_T := bytes_of ''aa'',
     m_R := zero_R\<lparr>r_ID := replicate 20 9, r_Nodes := [node_at 1 6881, node_at 2 0]\<rparr>\<rparr>"

definition zero_random :: random_source where
  "zero_random n = Some []"

definition service_after_reply :: indexing_service where
  "service_after_reply = projr (onFindNodeResponse zero_random find_node_reply some_addr (NewIndexingService 5))"

lemma find_node_reply_run:
  "onMessage (service_handlers zero_random) find_node_reply some_addr (NewIndexingService 5)
     = Inr service_after_reply"
  by (simp add: onMessage_def find_node_reply_def validate_defs message_defs service_handlers_def
      no_handlers_def call_def service_after_reply_def onFindNodeResponse_def Let_def node_at_def
      NewIndexingService_def draw_target_def zero_random_def)

lemmas service_after_reply_simps = service_after_reply_def find_node_reply_def message_defs
  onFindNodeResponse_def node_at_def NewIndexingService_def draw_target_def zero_random_def Let_def send_def

theorem service_invariant_witness:
  "length (routingTable service_after_reply) \<le> 5 \<and> routingTable service_after_reply = [(replicate 20 1, 0)]
   \<and> list_all (\<lambda>(msg, addr). sendable msg) (is_sent service_after_reply)"
proof -
  have "service_reachable (\<lambda>_. None) zero_random 5 service_after_reply"
    by (rule service_reachable.step [OF service_reachable.init]) (rule service_step.receive, rule find_node_reply_run)
  then show ?thesis
    using service_invariant [of "\<lambda>_. None" zero_random 5 service_after_reply]
    by (simp add: service_after_reply_simps list_all_iff)
qed



text \<open>C25: the infohashes that are asked for.  Processing a sample_infohashes response sends one
  get_peers query per 20-byte sample, to the responder, with consecutive transaction identifiers; the
  i-th query asks for the 20 bytes that start at offset i, so only the first of them is a sample of
  the response.\<close>

theorem sample_queries_sent:
  assumes "onSampleInfohashesResponse msg addr s = Inr t"
  shows "is_sent t = is_sent s @ map (\<lambda>i. ((NewGetPeersQuery (nodeID s)
        (take 20 (drop i (r_Samples (m_R msg)))))\<lparr>m_T := uint16BE (counter s + of_nat i)\<rparr>, addr))
      [0..<length (r_Samples (m_R msg)) div 20]"
proof -
  have loop: "is_sent (sample_node_loop p nodes u) = is_sent u" for p nodes u
    by (induction nodes arbitrary: u) (auto simp: Let_def)
  from assms show ?thesis
    by (auto simp: onSampleInfohashesResponse_eq Let_def loop after_requests_def sample_query_def
        sample_hash_def sample_tid_def)
qed

definition samples_reply :: message where
  "samples_reply = zero_message\<lparr>m_Y := ''r'', m_T := bytes_of ''aa'',
     m_R := zero_R\<lparr>r_ID := replicate 20 9, r_Samples := replicate 20 1 @ replicate 20 2\<rparr>\<rparr>"

theorem sample_queries_sent_witness:
  "\<exists>t. onSampleInfohashesResponse samples_reply some_addr (NewIndexingService 5) = Inr t
     \<and> map (\<lambda>(msg, addr). a_InfoHash (m_A msg)) (is_sent t)
         = [replicate 20 1, replicate 19 1 @ [2]]"
proof -
  obtain t where t: "onSampleInfohashesResponse samples_reply some_addr (NewIndexingService 5) = Inr t"
    by (simp add: onSampleInfohashesResponse_eq Let_def)
  from sample_queries_sent [OF t] t show ?thesis
    by (simp add: samples_reply_def message_defs NewIndexingService_def upt_rec)
qed

lemma sample_node_loop_requests [simp]:
  "getPeersRequests (sample_node_loop p nodes s) = getPeersRequests s"
  by (induction nodes arbitrary: s) (auto simp: Let_def)

lemma after_requests_get:
  assumes "i < n" and "n \<le> 65536"
  shows "map_get (getPeersRequests (after_requests samples addr n s)) (sample_tid s i) z
     = sample_hash samples i"
proof -
  have "inj_on (sample_tid s) (set [0..<n])"
    by (rule inj_on_subset [OF inj_sample_tid]) (use assms(2) in auto)
  then show ?thesis
    using assms(1) map_get_fold_update [of "sample_tid s" "[0..<n]" i "sample_hash samples"]
    by (simp add: after_requests_def)
qed


definition peers_reply :: message where
  "peers_reply = zero_message\<lparr>m_Y := ''r'', m_T := [0, 1],
     m_R := zero_R\<lparr>r_ID := replicate 20 9, r_Token := [1],
       r_Values := [\<lparr>cp_IP = [10, 0, 0, 7], cp_Port = 6881\<rparr>, \<lparr>cp_IP = [10, 0, 0, 8], cp_Port = 0\<rparr>]\<rparr>\<rparr>"


subsection \<open>The shared loop variable\<close>

text \<open>When the table has room for all nodes, the loop runs to its end; afterwards the loop variable
  holds the last node's address, and every node that was stored is stored under its address \<open>p\<close>.\<close>

definition usable :: "compact_node_info list \<Rightarrow> compact_node_info list" where
  "usable nodes = filter (\<lambda>node. udp_Port (cni_Addr node) \<noteq> 0) nodes"

definition points_to :: "nat \<Rightarrow> byte list set \<Rightarrow> indexing_service \<Rightarrow> bool" where
  "points_to p ids s \<longleftrightarrow> (\<forall>i \<in> ids. map_of (routingTable s) i = Some p)"

lemma points_to_insert:
  "points_to p ids s \<Longrightarrow>
   points_to p (insert i ids) (s\<lparr>routingTable := AList.update i p (routingTable s)\<rparr>)"
  by (auto simp: points_to_def update_conv')

lemma points_to_fields [simp]:
  "points_to p ids (s\<lparr>is_heap := h\<rparr>) = points_to p ids s"
  "points_to p ids (s\<lparr>is_draws := n\<rparr>) = points_to p ids s"
  "points_to p ids (send msg addr s) = points_to p ids s"
  by (simp_all add: points_to_def send_def)

lemma find_node_loop_alias:
  assumes "find_node_loop rnd p nodes s = Inr t" and "p < length (is_heap s)"
    and "length (routingTable s) + length nodes \<le> maxNeighbors s" and "points_to p ids s"
  shows "length (is_heap t) = length (is_heap s)
     \<and> is_heap t ! p = (if nodes = [] then is_heap s ! p else cni_Addr (last nodes))
     \<and> points_to p (ids \<union> cni_ID ` set (usable nodes)) t
     \<and> map snd (is_sent t) = map snd (is_sent s) @ map cni_Addr (usable nodes)"
  using assms
proof (induction nodes arbitrary: s ids)
  case (Cons node nodes)
  let ?s1 = "s\<lparr>is_heap := (is_heap s)[p := cni_Addr node]\<rparr>"
  show ?case
  proof (cases "udp_Port (cni_Addr node) = 0")
    case True
    with Cons.prems have "find_node_loop rnd p nodes ?s1 = Inr t" by (simp add: Let_def)
    from Cons.IH [OF this, of ids] Cons.prems True show ?thesis
      by (simp add: usable_def)
  next
    case False
    let ?s2 = "?s1\<lparr>routingTable := AList.update (cni_ID node) p (routingTable s)\<rparr>"
    from Cons.prems False obtain target s3 where d: "draw_target ''Could NOT generate random bytes!'' rnd ?s2 = Inr (target, s3)"
      and l: "find_node_loop rnd p nodes (send (NewSampleInfohashesQuery (nodeID s3)
          (bytes_of ''aa'') target) (is_heap s3 ! p) s3) = Inr t"
      by (auto simp: Let_def bindE_Inr_iff)
    from draw_target_Inr [OF d] have s3: "s3 = ?s2\<lparr>is_draws := Suc (is_draws s)\<rparr>" by simp
    have "length (AList.update (cni_ID node) p (routingTable s)) \<le> Suc (length (routingTable s))"
      by (simp add: length_map_update)
    moreover have "points_to p (insert (cni_ID node) ids) s3"
      using points_to_insert [of p ids ?s1 "cni_ID node"] Cons.prems(4) by (simp add: s3)
    ultimately show ?thesis
      using Cons.IH [OF l, of "insert (cni_ID node) ids"] Cons.prems(2,3) False
      by (simp add: usable_def) (auto simp: s3 send_def)
  qed
qed (simp add: usable_def)



end
