(* ===== verification/Channel.thy ===== *)
theory Channel
  imports Prelude "HOL-Library.Sublist"
begin

text \<open>
  Go's buffered channels, which connect the goroutines of magneticod: the values waiting in the
  buffer, its capacity, and whether the channel is closed.  A send that has to wait is \<open>None\<close>: the
  sender is not scheduled in that state.  The locale \<open>outlet\<close> is what a component promises that
  puts values on a channel others read: nothing is invented, duplicated or reordered.
\<close>

subsection \<open>Channels\<close>

record 'a chan =
  ch_cap :: nat
  ch_buf :: "'a list"
  ch_closed :: bool

definition make_chan :: "nat \<Rightarrow> 'a chan" where
  "make_chan n = \<lparr>ch_cap = n, ch_buf = [], ch_closed = False\<rparr>"

definition chan_send :: "'a \<Rightarrow> 'a chan \<Rightarrow> go_error + 'a chan option" where
  "chan_send x c =
     (if ch_closed c then Inl (Panic ''send on closed channel'')
      else if length (ch_buf c) < ch_cap c then Inr (Some (c\<lparr>ch_buf := ch_buf c @ [x]\<rparr>))
      else Inr None)"

text \<open>\<open>select { case c <- x: default: }\<close>\<close>

definition chan_try_send :: "'a \<Rightarrow> 'a chan \<Rightarrow> go_error + 'a chan" where
  "chan_try_send x c =
     bindE (chan_send x c) (\<lambda>r. case r of None \<Rightarrow> Inr c | Some c' \<Rightarrow> Inr c')"

text \<open>A receive takes the oldest value; it waits on an empty channel.\<close>

definition chan_recv :: "'a chan \<Rightarrow> ('a \<times> 'a chan) option" where
  "chan_recv c = (case ch_buf c of [] \<Rightarrow> None | x # xs \<Rightarrow> Some (x, c\<lparr>ch_buf := xs\<rparr>))"

definition chan_close :: "'a chan \<Rightarrow> go_error + 'a chan" where
  "chan_close c = (if ch_closed c then Inl (Panic ''close of closed channel'')
     else Inr (c\<lparr>ch_closed := True\<rparr>))"

definition chan_ok :: "nat \<Rightarrow> 'a chan \<Rightarrow> bool" where
  "chan_ok n c \<longleftrightarrow> ch_cap c = n \<and> length (ch_buf c) \<le> n"

lemma chan_ok_make [simp]: "chan_ok n (make_chan n)"
  by (simp add: chan_ok_def make_chan_def)

lemma chan_send_Some:
  "chan_send x c = Inr (Some c') \<longleftrightarrow>
     \<not> ch_closed c \<and> length (ch_buf c) < ch_cap c \<and> c' = c\<lparr>ch_buf := ch_buf c @ [x]\<rparr>"
  by (auto simp: chan_send_def)

lemma chan_try_send_Inr:
  "chan_try_send x c = Inr c' \<longleftrightarrow> \<not> ch_closed c \<and>
     c' = (if length (ch_buf c) < ch_cap c then c\<lparr>ch_buf := ch_buf c @ [x]\<rparr> else c)"
  by (auto simp: chan_try_send_def chan_send_def)

lemma chan_recv_Some:
  "chan_recv c = Some (x, c') \<longleftrightarrow> ch_buf c = x # ch_buf c' \<and> c' = c\<lparr>ch_buf := ch_buf c'\<rparr>"
  by (cases "ch_buf c") (auto simp: chan_recv_def)

subsection \<open>Producers and consumers\<close>

text \<open>The history of an outlet is a sequence of values offered to it and of receives.\<close>

datatype 'a traffic = Offer 'a | Receive

fun offered :: "'a traffic list \<Rightarrow> 'a list" where
  "offered [] = []"
| "offered (Offer x # ts) = x # offered ts"
| "offered (Receive # ts) = offered ts"

fun traffic_run ::
    "('a \<Rightarrow> 's \<Rightarrow> go_error + 's) \<Rightarrow> ('s \<Rightarrow> ('a \<times> 's) option) \<Rightarrow> 'a traffic list \<Rightarrow> 's
      \<Rightarrow> go_error + 'a list \<times> 's" where
  "traffic_run put get [] s = Inr ([], s)"
| "traffic_run put get (Offer x # ts) s = bindE (put x s) (traffic_run put get ts)"
| "traffic_run put get (Receive # ts) s =
     (case get s of None \<Rightarrow> traffic_run put get ts s
      | Some (x, t) \<Rightarrow> bindE (traffic_run put get ts t) (\<lambda>(xs, u). Inr (x # xs, u)))"

locale outlet =
  fixes put :: "'a \<Rightarrow> 's \<Rightarrow> go_error + 's"
    and get :: "'s \<Rightarrow> ('a \<times> 's) option"
    and queue :: "'s \<Rightarrow> 'a list"
    and good :: "'s \<Rightarrow> bool"
    and cap :: nat
  assumes put_queue: "good s \<Longrightarrow> put x s = Inr t \<Longrightarrow>
      good t \<and> queue t = (if length (queue s) < cap then queue s @ [x] else queue s)"
    and get_queue: "good s \<Longrightarrow> get s = Some (x, t) \<Longrightarrow> good t \<and> queue s = x # queue t"
    and put_returns: "good s \<Longrightarrow> \<exists>t. put x s = Inr t"
    and good_bound: "good s \<Longrightarrow> length (queue s) \<le> cap"
begin

lemma traffic_subseq:
  "good s \<Longrightarrow> traffic_run put get ts s = Inr (xs, t) \<Longrightarrow>
   good t \<and> subseq (xs @ queue t) (queue s @ offered ts)"
proof (induction ts arbitrary: s xs)
  case (Cons op ts)
  show ?case
  proof (cases op)
    case (Offer x)
    with Cons.prems obtain u where u: "put x s = Inr u" "traffic_run put get ts u = Inr (xs, t)"
      by (auto simp: bindE_Inr_iff)
    with put_queue [OF Cons.prems(1) u(1)] Cons.IH [of u xs] have "good t"
      and sub: "subseq (xs @ queue t) (queue u @ offered ts)" by auto
    have "subseq (queue u @ offered ts) (queue s @ x # offered ts)"
      using put_queue [OF Cons.prems(1) u(1)] by (auto intro: list_emb_append_mono)
    with sub Offer \<open>good t\<close> show ?thesis
      by (auto intro: subseq_order.trans)
  next
    case Receive
    show ?thesis
    proof (cases "get s")
      case None
      with Receive Cons show ?thesis by simp
    next
      case (Some r)
      then obtain x u where r: "get s = Some (x, u)" by (cases r) auto
      with Receive Cons.prems obtain ys where "traffic_run put get ts u = Inr (ys, t)" "xs = x # ys"
        by (auto simp: bindE_Inr_iff)
      with Cons.IH [of u ys] get_queue [OF Cons.prems(1) r] Receive show ?thesis by simp
    qed
  qed
qed simp

lemma traffic_returns: "good s \<Longrightarrow> \<exists>xs t. traffic_run put get ts s = Inr (xs, t)"
proof (induction ts arbitrary: s)
  case (Cons op ts)
  show ?case
  proof (cases op)
    case (Offer x)
    from put_returns [OF Cons.prems] obtain u where u: "put x s = Inr u" by blast
    with put_queue [OF Cons.prems u] Cons.IH [of u] Offer show ?thesis by simp
  next
    case Receive
    show ?thesis
    proof (cases "get s")
      case None
      with Receive Cons show ?thesis by simp
    next
      case (Some r)
      then obtain x u where r: "get s = Some (x, u)" by (cases r) auto
      with get_queue [OF Cons.prems r] Cons.IH [of u] obtain xs t
        where "traffic_run put get ts u = Inr (xs, t)" by auto
      with r Receive show ?thesis by simp
    qed
  qed
qed simp

lemma traffic_lossless:
  "good s \<Longrightarrow> traffic_run put get ts s = Inr (xs, t) \<Longrightarrow>
   length (queue s) + length (offered ts) \<le> cap \<Longrightarrow> xs @ queue t = queue s @ offered ts"
proof (induction ts arbitrary: s xs)
  case (Cons op ts)
  show ?case
  proof (cases op)
    case (Offer x)
    with Cons.prems obtain u where u: "put x s = Inr u" "traffic_run put get ts u = Inr (xs, t)"
      by (auto simp: bindE_Inr_iff)
    with put_queue [OF Cons.prems(1) u(1)] Cons.IH [of u xs] Cons.prems(3) Offer show ?thesis
      by (simp split: if_splits)
  next
    case Receive
    show ?thesis
    proof (cases "get s")
      case None
      with Receive Cons.IH [of s xs] Cons.prems show ?thesis by simp
    next
      case (Some r)
      then obtain x u where r: "get s = Some (x, u)" by (cases r) auto
      with Receive Cons.prems obtain ys where "traffic_run put get ts u = Inr (ys, t)" "xs = x # ys"
        by (auto simp: bindE_Inr_iff)
      with Cons.IH [of u ys] get_queue [OF Cons.prems(1) r] Cons.prems(3) Receive show ?thesis by simp
    qed
  qed
qed simp

end

end
