(* ===== verification/Manager.thy ===== *)
theory Manager
  imports IndexingService Channel
begin

text \<open>
  The DHT manager of \<open>cmd/magneticod/dht/managers.go\<close>: it builds and starts one indexing service per
  address, and puts their results on a channel of 20 entries.  A service is the stack of the three
  components \<open>NewIndexingService\<close> builds; what the host answers while one of them is built and
  started (resolver, random source, socket, bind) is its \<open>service_env\<close>.
\<close>

record service_env =
  e_resolved :: "udp_addr option"
  e_random :: "byte list option"
  e_socket :: "int option"
  e_bind :: bool

record service_stack =
  st_service :: indexing_service
  st_protocol :: protocol
  st_transport :: transport

definition new_service :: "service_env \<Rightarrow> nat \<Rightarrow> go_error + service_stack" where
  "new_service e maxN =
     bindE (NewTransport (e_resolved e)) (\<lambda>t.
     bindE (NewProtocol (e_random e)) (\<lambda>p.
     Inr \<lparr>st_service = NewIndexingService maxN, st_protocol = p, st_transport = t\<rparr>))"

definition start_service :: "service_env \<Rightarrow> service_stack \<Rightarrow> go_error + service_stack" where
  "start_service e st =
     bindE (IndexingService_Start
              (\<lambda>(p, t). Protocol_Start (Transport_Start (e_socket e) (e_bind e)) p t)
              (st_service st) (st_protocol st, st_transport st)) (\<lambda>(s, p, t).
     Inr (st\<lparr>st_service := s, st_protocol := p, st_transport := t\<rparr>))"

text \<open>\<open>service.Terminate()\<close>: the list collects the descriptors handed to \<open>unix.Close\<close>.\<close>

definition terminate_service :: "int list \<Rightarrow> service_stack \<Rightarrow> go_error + int list" where
  "terminate_service closed st =
     bindE (IndexingService_Terminate (Protocol_Terminate Transport_Terminate (st_protocol st))
              (st_transport st, closed)) (\<lambda>(t, closed). Inr closed)"

record manager =
  m_output :: "indexing_result chan"
  indexingServices :: "service_stack list"

definition NewManager :: "service_env list \<Rightarrow> nat \<Rightarrow> go_error + manager" where
  "NewManager addrs maxN =
     foldE (\<lambda>m e.
         bindE (new_service e maxN) (\<lambda>service.
         bindE (start_service e service) (\<lambda>service.
         Inr (m\<lparr>indexingServices := indexingServices m @ [service]\<rparr>))))
       \<lparr>m_output = make_chan 20, indexingServices = []\<rparr> addrs"

definition onIndexingResult :: "indexing_result \<Rightarrow> manager \<Rightarrow> go_error + manager" where
  "onIndexingResult res m = bindE (chan_try_send res (m_output m)) (\<lambda>c. Inr (m\<lparr>m_output := c\<rparr>))"

text \<open>A receive from \<open>Output()\<close>.\<close>

definition Manager_Output :: "manager \<Rightarrow> (indexing_result \<times> manager) option" where
  "Manager_Output m = map_option (\<lambda>(res, c). (res, m\<lparr>m_output := c\<rparr>)) (chan_recv (m_output m))"

definition Manager_Terminate :: "manager \<Rightarrow> go_error + int list" where
  "Manager_Terminate m = foldE terminate_service [] (indexingServices m)"

subsection \<open>The manager as an outlet\<close>

definition manager_ok :: "manager \<Rightarrow> bool" where
  "manager_ok m \<longleftrightarrow> chan_ok 20 (m_output m) \<and> \<not> ch_closed (m_output m)"

interpretation mgr: outlet onIndexingResult Manager_Output "\<lambda>m. ch_buf (m_output m)" manager_ok 20
proof
  show "manager_ok t \<and> ch_buf (m_output t) = (if length (ch_buf (m_output s)) < 20
       then ch_buf (m_output s) @ [x] else ch_buf (m_output s))"
    if "manager_ok s" and "onIndexingResult x s = Inr t" for x s t
    using that by (auto simp: manager_ok_def onIndexingResult_def bindE_Inr_iff chan_try_send_Inr chan_ok_def)
  show "manager_ok t \<and> ch_buf (m_output s) = x # ch_buf (m_output t)"
    if "manager_ok s" and "Manager_Output s = Some (x, t)" for x s t
    using that by (auto simp: manager_ok_def Manager_Output_def chan_recv_Some chan_ok_def)
       (metis chan.ext_inject chan.surjective chan.update_convs(2))+
  show "\<exists>t. onIndexingResult x s = Inr t" if "manager_ok s" for x s
    using that by (auto simp: manager_ok_def onIndexingResult_def chan_try_send_def chan_send_def)
qed (simp add: manager_ok_def chan_ok_def)

subsection \<open>Building and terminating\<close>

text \<open>The environments in which a service can be built and started, and the result.\<close>

definition env_ok :: "service_env \<Rightarrow> bool" where
  "env_ok e \<longleftrightarrow> (\<exists>a. e_resolved e = Some a \<and> to4 (udp_IP a) \<noteq> None) \<and> e_random e \<noteq> None
     \<and> e_socket e \<noteq> None \<and> e_bind e"

definition running :: "service_env \<Rightarrow> nat \<Rightarrow> service_stack \<Rightarrow> bool" where
  "running e maxN st \<longleftrightarrow> is_started (st_service st) \<and> p_started (st_protocol st)
     \<and> t_started (st_transport st) \<and> e_socket e = Some (t_fd (st_transport st))
     \<and> maxNeighbors (st_service st) = maxN"

lemmas lifecycle_defs = new_service_def start_service_def NewTransport_def NewProtocol_def
  NewIndexingService_def IndexingService_Start_def Protocol_Start_def Transport_Start_def Let_def

lemma new_start_service:
  "(\<exists>st. bindE (new_service e maxN) (start_service e) = Inr st) \<longleftrightarrow> env_ok e"
  by (auto simp: lifecycle_defs env_ok_def split: option.split)

lemma new_start_running:
  "new_service e maxN = Inr st \<Longrightarrow> start_service e st = Inr st' \<Longrightarrow> running e maxN st'"
  by (auto simp: lifecycle_defs running_def split: option.splits if_splits)

lemma NewManager_loop:
  "foldE (\<lambda>m e.
         bindE (new_service e maxN) (\<lambda>service.
         bindE (start_service e service) (\<lambda>service.
         Inr (m\<lparr>indexingServices := indexingServices m @ [service]\<rparr>)))) m addrs
   = bindE (mapE (\<lambda>e. bindE (new_service e maxN) (start_service e)) addrs)
       (\<lambda>sts. Inr (m\<lparr>indexingServices := indexingServices m @ sts\<rparr>))"
  by (induction addrs arbitrary: m) (simp_all add: bindE_assoc)

lemma NewManager_eq:
  "NewManager addrs maxN =
     bindE (mapE (\<lambda>e. bindE (new_service e maxN) (start_service e)) addrs)
       (\<lambda>sts. Inr \<lparr>m_output = make_chan 20, indexingServices = sts\<rparr>)"
  by (simp add: NewManager_def NewManager_loop)

lemma terminate_services:
  "list_all2 (\<lambda>e st. running e maxN st) addrs sts \<Longrightarrow>
   foldE terminate_service closed sts = Inr (closed @ map (\<lambda>e. the (e_socket e)) addrs)"
  by (induction addrs sts arbitrary: closed rule: list_all2_induct)
     (auto simp: terminate_service_def IndexingService_Terminate_def Protocol_Terminate_def
       Transport_Terminate_def running_def)

lemma service_only_panics:
  "\<not> env_ok e \<Longrightarrow> \<exists>msg. bindE (new_service e maxN) (start_service e) = Inl (Panic msg)"
  by (auto simp: lifecycle_defs env_ok_def split: option.split)

lemma services_built:
  assumes "list_all env_ok addrs"
  obtains sts where "mapE (\<lambda>e. bindE (new_service e maxN) (start_service e)) addrs = Inr sts"
    and "list_all2 (\<lambda>e st. running e maxN st) addrs sts"
proof -
  have "mapE (\<lambda>e. bindE (new_service e maxN) (start_service e)) addrs \<in> range Inr"
    using assms new_start_service [of _ maxN] by (intro mapE_total) (metis list_all_iff rangeI)
  then obtain sts where sts: "mapE (\<lambda>e. bindE (new_service e maxN) (start_service e)) addrs = Inr sts"
    by auto
  moreover have "list_all2 (\<lambda>e st. running e maxN st) addrs sts"
    using mapE_Inr_list_all2 [OF sts]
    by (rule list.rel_mono_strong) (auto simp: bindE_Inr_iff intro: new_start_running)
  ultimately show ?thesis by (rule that)
qed

lemma services_not_built:
  "\<not> list_all env_ok addrs \<Longrightarrow>
   \<exists>msg. mapE (\<lambda>e. bindE (new_service e maxN) (start_service e)) addrs = Inl (Panic msg)"
proof (induction addrs)
  case (Cons e addrs)
  show ?case
  proof (cases "env_ok e")
    case True
    with new_start_service [of e maxN] obtain st
      where "bindE (new_service e maxN) (start_service e) = Inr st" by blast
    with Cons True show ?thesis by auto
  next
    case False
    from service_only_panics [OF this, of maxN] show ?thesis by auto
  qed
qed simp

text \<open>C32: the life cycle of the manager.  When every address resolves to an IPv4 address and the random
  source, the socket and the bind succeed for it, \<open>NewManager\<close> returns with every layer of every service
  started; a second \<open>Start\<close> of any of them panics, and \<open>Terminate\<close> closes the socket of each service
  once, in the order of the addresses.  When one of these fails, \<open>NewManager\<close> panics.\<close>

theorem manager_lifecycle:
  "if list_all env_ok addrs
   then \<exists>m. NewManager addrs maxN = Inr m
     \<and> list_all2 (\<lambda>e st. running e maxN st) addrs (indexingServices m)
     \<and> list_all (\<lambda>st. \<forall>e. \<exists>msg. start_service e st = Inl (Panic msg)) (indexingServices m)
     \<and> Manager_Terminate m = Inr (map (\<lambda>e. the (e_socket e)) addrs)
   else \<exists>msg. NewManager addrs maxN = Inl (Panic msg)"
proof (cases "list_all env_ok addrs")
  case True
  then obtain sts where sts: "mapE (\<lambda>e. bindE (new_service e maxN) (start_service e)) addrs = Inr sts"
    and run: "list_all2 (\<lambda>e st. running e maxN st) addrs sts" by (rule services_built)
  have "\<forall>st \<in> set sts. is_started (st_service st)"
    using run by (auto simp: running_def list_all2_conv_all_nth in_set_conv_nth)
  then have "list_all (\<lambda>st. \<forall>e. \<exists>msg. start_service e st = Inl (Panic msg)) sts"
    by (simp add: start_service_def IndexingService_Start_def list_all_iff)
  with run True show ?thesis
    using terminate_services [OF run, of "[]"] by (simp add: NewManager_eq sts Manager_Terminate_def)
next
  case False
  with services_not_built [OF False, of maxN] show ?thesis by (auto simp: NewManager_eq)
qed

text \<open>C20: what leaves the manager.  However the services' results and the reads from \<open>Output\<close>
  interleave, no call of \<open>onIndexingResult\<close> panics or waits; the results read, followed by those
  still on the channel, are a subsequence of the results the services produced, in their order, with at
  most 20 waiting; and none is dropped while no more than 20 have been produced.\<close>

theorem manager_output:
  assumes "NewManager addrs maxN = Inr m"
  shows "\<exists>xs t. traffic_run onIndexingResult Manager_Output ts m = Inr (xs, t)
     \<and> subseq (xs @ ch_buf (m_output t)) (offered ts) \<and> length (ch_buf (m_output t)) \<le> 20
     \<and> (length (offered ts) \<le> 20 \<longrightarrow> xs @ ch_buf (m_output t) = offered ts)"
proof -
  have m: "m_output m = make_chan 20"
    using assms by (auto simp: NewManager_eq bindE_Inr_iff)
  then have ok: "manager_ok m" and empty: "ch_buf (m_output m) = []"
    by (simp_all add: manager_ok_def) (simp_all add: make_chan_def)
  from mgr.traffic_returns [OF ok] obtain xs t
    where r: "traffic_run onIndexingResult Manager_Output ts m = Inr (xs, t)" by blast
  from mgr.traffic_subseq [OF ok r] mgr.traffic_lossless [OF ok r] mgr.good_bound [of t] r empty
  show ?thesis by simp
qed

definition demo_env :: service_env where
  "demo_env = \<lparr>e_resolved = Some some_addr, e_random = Some [7], e_socket = Some 3, e_bind = True\<rparr>"

definition demo_result :: "byte \<Rightarrow> indexing_result" where
  "demo_result x = \<lparr>ir_infoHash = replicate 20 x, ir_peerAddrs = []\<rparr>"

theorem manager_output_witness:
  "\<exists>m xs t. NewManager [demo_env] 5 = Inr m
     \<and> traffic_run onIndexingResult Manager_Output
         [Offer (demo_result 1), Offer (demo_result 2), Receive] m = Inr (xs, t)
     \<and> xs @ ch_buf (m_output t) = [demo_result 1, demo_result 2]"
proof -
  obtain m where m: "NewManager [demo_env] 5 = Inr m"
    by (simp add: NewManager_def lifecycle_defs demo_env_def some_addr_def)
  with manager_output [OF m, of "[Offer (demo_result 1), Offer (demo_result 2), Receive]"]
  show ?thesis by auto
qed

end
