(* ===== verification/StateError.thy ===== *)
theory StateError
  imports Prelude
begin

text \<open>
  Operations on a state that may fail and whose state is known after a failure too: the shape of the
  methods of the leech and of the SQL databases, which return a Go error after part of their
  work is done.  The predicates \<open>keeps\<close> and \<open>panics\<close> say what an operation does to the state however it
  ends, and in which states it can panic; the locale \<open>frame_order\<close> gives the rules by which they pass through
  the sequencing operators.
\<close>

subsection \<open>Sequencing\<close>

type_synonym ('s, 'a) op = "'s \<Rightarrow> (go_error + 'a) \<times> 's"

definition ret :: "'a \<Rightarrow> ('s, 'a) op" where
  "ret x l = (Inr x, l)"

definition raise :: "go_error \<Rightarrow> ('s, 'a) op" where
  "raise e l = (Inl e, l)"

definition bindL :: "('s, 'a) op \<Rightarrow> ('a \<Rightarrow> ('s, 'b) op) \<Rightarrow> ('s, 'b) op" where
  "bindL m f l = (case m l of (Inl e, l') \<Rightarrow> (Inl e, l') | (Inr x, l') \<Rightarrow> f x l')"

definition wrapL :: "string \<Rightarrow> ('s, 'a) op \<Rightarrow> ('s, 'a) op" where
  "wrapL msg m l = (case m l of (r, l') \<Rightarrow> (wrapE msg r, l'))"

definition liftL :: "go_error + 'a \<Rightarrow> ('s, 'a) op" where
  "liftL r l = (r, l)"

text \<open>The error of a library call as a Go error.\<close>

definition lib :: "string + 'a \<Rightarrow> go_error + 'a" where
  "lib r = (case r of Inl e \<Rightarrow> Inl (Err e) | Inr x \<Rightarrow> Inr x)"

text \<open>\<open>defer cleanup\<close>: the clean-up runs however the body ends, and a panic of its own replaces the result.\<close>

definition deferL :: "('s, unit) op \<Rightarrow> ('s, 'a) op \<Rightarrow> ('s, 'a) op" where
  "deferL cleanup m l = (case m l of (r, l') \<Rightarrow>
     (case cleanup l' of (Inl e, l'') \<Rightarrow> (Inl e, l'') | (Inr _, l'') \<Rightarrow> (r, l'')))"

text \<open>\<open>x, err := m\<close> where the code goes on with both: an error is a value, a panic is not.\<close>

definition catchL :: "('s, 'a) op \<Rightarrow> ('s, string + 'a) op" where
  "catchL m l = (case m l of (Inl (Err e), l') \<Rightarrow> (Inr (Inl e), l')
     | (Inl (Panic p), l') \<Rightarrow> (Inl (Panic p), l') | (Inr x, l') \<Rightarrow> (Inr (Inr x), l'))"

lemma bindL_cong [fundef_cong]:
  assumes "m l = m' l'" and "\<And>x l1. m' l' = (Inr x, l1) \<Longrightarrow> f x l1 = g x l1" and "l = l'"
  shows "bindL m f l = bindL m' g l'"
  using assms by (auto simp: bindL_def split: prod.split sum.split)

lemma bindL_Inr_iff:
  "bindL m f l = (Inr y, l') \<longleftrightarrow> (\<exists>x l1. m l = (Inr x, l1) \<and> f x l1 = (Inr y, l'))"
  by (auto simp: bindL_def split: prod.split sum.split)

lemma bindL_Inl_iff:
  "bindL m f l = (Inl e, l') \<longleftrightarrow>
     m l = (Inl e, l') \<or> (\<exists>x l1. m l = (Inr x, l1) \<and> f x l1 = (Inl e, l'))"
  by (auto simp: bindL_def split: prod.split sum.split)

lemma wrapL_Inr_iff [simp]: "wrapL msg m l = (Inr x, l') \<longleftrightarrow> m l = (Inr x, l')"
  by (auto simp: wrapL_def split: prod.split)

lemma wrapL_Panic_iff [simp]: "wrapL msg m l = (Inl (Panic p), l') \<longleftrightarrow> m l = (Inl (Panic p), l')"
  by (auto simp: wrapL_def split: prod.split)

subsection \<open>What operations keep\<close>

definition keeps :: "('s \<Rightarrow> 's \<Rightarrow> bool) \<Rightarrow> ('s, 'a) op \<Rightarrow> bool" where
  "keeps R m \<longleftrightarrow> (\<forall>l r l'. m l = (r, l') \<longrightarrow> R l l')"

definition panics :: "(string \<Rightarrow> 's \<Rightarrow> bool) \<Rightarrow> ('s, 'a) op \<Rightarrow> bool" where
  "panics P m \<longleftrightarrow> (\<forall>l p l'. m l = (Inl (Panic p), l') \<longrightarrow> P p l')"

abbreviation calm :: "('s, 'a) op \<Rightarrow> bool" where
  "calm \<equiv> panics (\<lambda>p l. False)"

lemma keepsD: "keeps R m \<Longrightarrow> m l = (r, l') \<Longrightarrow> R l l'"
  by (simp add: keeps_def)

locale frame_order =
  fixes R :: "'s \<Rightarrow> 's \<Rightarrow> bool"
  assumes R_refl: "R l l" and R_trans: "R l l' \<Longrightarrow> R l' l'' \<Longrightarrow> R l l''"
begin

lemma keeps_basic: "keeps R (ret x)" "keeps R (raise e)" "keeps R (liftL r)"
  by (simp_all add: keeps_def ret_def raise_def liftL_def R_refl)

lemma keeps_wrapL: "keeps R m \<Longrightarrow> keeps R (wrapL msg m)"
  by (auto simp: keeps_def wrapL_def split: prod.splits)

lemma keeps_bindL: "keeps R m \<Longrightarrow> (\<And>x. keeps R (f x)) \<Longrightarrow> keeps R (bindL m f)"
  by (fastforce simp: keeps_def bindL_def split: prod.splits sum.splits intro: R_trans)

lemma keeps_deferL: "keeps R c \<Longrightarrow> keeps R m \<Longrightarrow> keeps R (deferL c m)"
  unfolding keeps_def deferL_def by (auto split: prod.splits sum.splits) (blast intro: R_trans)+

lemma keeps_catchL: "keeps R m \<Longrightarrow> keeps R (catchL m)"
  by (auto simp: keeps_def catchL_def split: prod.splits sum.splits go_error.splits)

lemma keeps_sum:
  "(\<And>e. keeps R (f e)) \<Longrightarrow> (\<And>x. keeps R (g x)) \<Longrightarrow> keeps R (case r of Inl e \<Rightarrow> f e | Inr x \<Rightarrow> g x)"
  by (cases r) simp_all

lemma keeps_if: "(b \<Longrightarrow> keeps R m) \<Longrightarrow> (\<not> b \<Longrightarrow> keeps R n) \<Longrightarrow> keeps R (if b then m else n)"
  by simp

text \<open>An operation whose text depends on the state it starts in.\<close>

lemma keeps_at: "(\<And>l. \<exists>m. keeps R m \<and> f l = m l) \<Longrightarrow> keeps R f"
  unfolding keeps_def by metis

end

lemma calm_basic [simp]: "calm (ret x)" "panics P (raise (Err e))"
  by (simp_all add: panics_def ret_def raise_def)

lemma panics_liftL: "(\<And>p. r \<noteq> Inl (Panic p)) \<Longrightarrow> panics P (liftL r)"
  by (simp add: panics_def liftL_def)

lemma panics_wrapL [simp]: "panics P m \<Longrightarrow> panics P (wrapL msg m)"
  by (simp add: panics_def)

lemma panics_bindL: "panics P m \<Longrightarrow> (\<And>x. panics P (f x)) \<Longrightarrow> panics P (bindL m f)"
  by (auto simp: panics_def bindL_Inl_iff)

lemma panics_if: "(b \<Longrightarrow> panics P m) \<Longrightarrow> (\<not> b \<Longrightarrow> panics P n) \<Longrightarrow> panics P (if b then m else n)"
  by simp

end
