(* ===== verification/Persistence.thy ===== *)
theory Persistence
  imports StateError Complex_Main
begin

text \<open>
  What the storage engines of \<open>pkg/persistence\<close> share (\<open>interface.go\<close>): the types that pass through the
  interface \<open>Database\<close>, hexadecimal infohashes and the JSON form of the values handed out, and the two
  engines that only pass torrents on, \<open>stdout.go\<close> and \<open>beanstalkd.go\<close>.

  A \<open>float64\<close> is the rational number it stands for (infinities and NaN do not occur in what is stored); a JSON document is
  its tree, whose text is the business of \<open>encoding/json\<close>.  Whether a write to standard output or a
  command of the beanstalkd server succeeds is decided by the parameters of the two engines.
\<close>

subsection \<open>Types of the interface\<close>

definition NotImplementedError :: go_error where
  "NotImplementedError = Err ''Function not implemented''"

datatype OrderingCriteria =
  ByRelevance | ByTotalSize | ByDiscoveredOn | ByNFiles | ByNSeeders | ByNLeechers | ByUpdatedOn

datatype databaseEngine = Sqlite3 | Postgres | Beanstalkd | Stdout

record Statistics =
  NDiscovered :: "(string \<times> 64 word) list"
  NFiles :: "(string \<times> 64 word) list"
  TotalSize :: "(string \<times> 64 word) list"

definition NewStatistics :: Statistics where
  "NewStatistics = \<lparr>NDiscovered = [], NFiles = [], TotalSize = []\<rparr>"

record File =
  f_Size :: int
  f_Path :: string

record TorrentMetadata =
  tm_ID :: "64 word"
  tm_InfoHash :: "byte list"
  tm_Name :: string
  tm_Size :: "64 word"
  tm_DiscoveredOn :: int
  tm_NFiles :: "64 word"
  tm_Relevance :: rat

record SimpleTorrentSummary =
  sts_InfoHash :: string
  sts_Name :: string
  sts_Files :: "File list"

subsection \<open>Package encoding/hex\<close>

definition hex_digits :: string where
  "hex_digits = ''0123456789abcdef''"

definition hex_byte :: "byte \<Rightarrow> string" where
  "hex_byte b = [hex_digits ! (unat b div 16), hex_digits ! (unat b mod 16)]"

definition EncodeToString :: "byte list \<Rightarrow> string" where
  "EncodeToString bs = concat (map hex_byte bs)"

definition hex_value :: "char \<Rightarrow> nat option" where
  "hex_value c = (let n = of_char c :: nat in
     if 48 \<le> n \<and> n \<le> 57 then Some (n - 48)
     else if 97 \<le> n \<and> n \<le> 102 then Some (n - 87)
     else if 65 \<le> n \<and> n \<le> 70 then Some (n - 55) else None)"

fun DecodeString :: "string \<Rightarrow> go_error + byte list" where
  "DecodeString [] = Inr []"
| "DecodeString [c] = (if hex_value c = None then Inl (Err ''encoding/hex: invalid byte'')
     else Inl (Err ''encoding/hex: odd length hex string''))"
| "DecodeString (c # d # s) = (case (hex_value c, hex_value d) of
       (Some h, Some l) \<Rightarrow> bindE (DecodeString s) (\<lambda>bs. Inr (of_nat (16 * h + l) # bs))
     | _ \<Rightarrow> Inl (Err ''encoding/hex: invalid byte''))"

lemma hex_value_digit: "n < 16 \<Longrightarrow> hex_value (hex_digits ! n) = Some n"
proof -
  have "\<forall>n \<in> set [0..<16]. hex_value (hex_digits ! n) = Some n"
    by (simp add: hex_digits_def hex_value_def upt_rec)
  then show "n < 16 \<Longrightarrow> hex_value (hex_digits ! n) = Some n" by simp
qed

lemma unat_byte: "unat (b :: byte) < 256"
  using unsigned_less [of b] by simp

lemma DecodeString_encode [simp]: "DecodeString (EncodeToString bs) = Inr bs"
proof (induction bs)
  case (Cons b bs)
  have "unat b div 16 < 16" using unat_byte [of b] by linarith
  then show ?case
    using Cons by (simp add: EncodeToString_def hex_byte_def hex_value_digit)
qed (simp add: EncodeToString_def)

lemma length_DecodeString: "DecodeString s = Inr bs \<Longrightarrow> length s = 2 * length bs"
  by (induction s arbitrary: bs rule: DecodeString.induct)
    (auto simp: bindE_Inr_iff split: option.splits if_splits)

lemma length_EncodeToString: "length (EncodeToString bs) = 2 * length bs"
  by (induction bs) (simp_all add: EncodeToString_def hex_byte_def)

subsection \<open>JSON\<close>

datatype json = JStr string | JNum rat | JArr "json list" | JObj "(string \<times> json) list"

definition file_json :: "File \<Rightarrow> json" where
  "file_json f = JObj [(''size'', JNum (of_int (f_Size f))), (''path'', JStr (f_Path f))]"

definition summary_json :: "SimpleTorrentSummary \<Rightarrow> json" where
  "summary_json s = JObj [(''infoHash'', JStr (sts_InfoHash s)), (''name'', JStr (sts_Name s)),
     (''files'', JArr (map file_json (sts_Files s)))]"

text \<open>\<open>MarshalJSON\<close>: the outer field \<open>infoHash\<close> hides the one of the embedded alias, and the fields come in
  the order of the anonymous struct.\<close>

definition MarshalJSON :: "TorrentMetadata \<Rightarrow> json" where
  "MarshalJSON tm = JObj [(''infoHash'', JStr (EncodeToString (tm_InfoHash tm))),
     (''id'', JNum (of_nat (unat (tm_ID tm)))), (''name'', JStr (tm_Name tm)),
     (''size'', JNum (of_nat (unat (tm_Size tm)))), (''discoveredOn'', JNum (of_int (tm_DiscoveredOn tm))),
     (''nFiles'', JNum (of_nat (unat (tm_NFiles tm)))), (''relevance'', JNum (tm_Relevance tm))]"

definition counts_json :: "(string \<times> 64 word) list \<Rightarrow> json" where
  "counts_json m = JObj (map (\<lambda>(k, n). (k, JNum (of_nat (unat n)))) m)"

definition statistics_json :: "Statistics \<Rightarrow> json" where
  "statistics_json s = JObj [(''nDiscovered'', counts_json (NDiscovered s)),
     (''nFiles'', counts_json (NFiles s)), (''totalSize'', counts_json (TotalSize s))]"

subsection \<open>URLs\<close>

text \<open>The parts of a \<open>url.URL\<close> that the engines read; \<open>url_Query\<close> are its parsed query parameters.\<close>

record url =
  url_Scheme :: string
  url_Hostname :: string
  url_Port :: string
  url_Path :: string
  url_Query :: "(string \<times> string list) list"

definition Get :: "(string \<times> string list) list \<Rightarrow> string \<Rightarrow> string" where
  "Get q k = (case map_get q k [] of [] \<Rightarrow> [] | v # _ \<Rightarrow> v)"

definition TrimPrefix :: "string \<Rightarrow> string \<Rightarrow> string" where
  "TrimPrefix s p = (if take (length p) s = p then drop (length p) s else s)"

subsection \<open>Engine stdout\<close>

text \<open>\<open>wr n\<close> is the error, if any, that the \<open>n\<close>-th write to standard output meets.\<close>

record stdout =
  so_written :: "json list"

definition makeStdoutDatabase :: "go_error + stdout" where
  "makeStdoutDatabase = Inr \<lparr>so_written = []\<rparr>"

definition stdout_DoesTorrentExist :: "byte list \<Rightarrow> (stdout, bool) op" where
  "stdout_DoesTorrentExist infoHash = ret False"

definition stdout_AddNewTorrent ::
  "(nat \<Rightarrow> string option) \<Rightarrow> byte list \<Rightarrow> string \<Rightarrow> File list \<Rightarrow> (stdout, unit) op" where
  "stdout_AddNewTorrent wr infoHash name files s =
     (let summary = \<lparr>sts_InfoHash = EncodeToString infoHash, sts_Name = name, sts_Files = files\<rparr> in
      case wr (length (so_written s)) of
        Some e \<Rightarrow> wrapL ''DB engine stdout encode error'' (raise (Err e)) s
      | None \<Rightarrow> ret () (s\<lparr>so_written := so_written s @ [summary_json summary]\<rparr>))"

definition stdout_Close :: "string option \<Rightarrow> (stdout, unit) op" where
  "stdout_Close sync = (case sync of None \<Rightarrow> ret () | Some e \<Rightarrow> raise (Err e))"

text \<open>The methods that the engines without a store do not have.\<close>

definition stdout_GetNumberOfTorrents :: "(stdout, 64 word) op" where
  "stdout_GetNumberOfTorrents = raise NotImplementedError"

definition stdout_QueryTorrents :: "string \<Rightarrow> int \<Rightarrow> OrderingCriteria \<Rightarrow> bool \<Rightarrow> 64 word \<Rightarrow> rat option \<Rightarrow>
    64 word option \<Rightarrow> (stdout, TorrentMetadata list) op" where
  "stdout_QueryTorrents query epoch orderBy ascending limit lastOrderedValue lastID = raise NotImplementedError"

definition stdout_GetTorrent :: "byte list \<Rightarrow> (stdout, TorrentMetadata option) op" where
  "stdout_GetTorrent infoHash = raise NotImplementedError"

definition stdout_GetFiles :: "byte list \<Rightarrow> (stdout, File list) op" where
  "stdout_GetFiles infoHash = raise NotImplementedError"

definition stdout_GetStatistics :: "string \<Rightarrow> 64 word \<Rightarrow> (stdout, Statistics) op" where
  "stdout_GetStatistics since n = raise NotImplementedError"

subsection \<open>Engine beanstalkd\<close>

text \<open>The answers of the server: to \<open>Dial\<close> and \<open>Use\<close>, and to the \<open>n\<close>-th \<open>Put\<close>.\<close>

record beanstalk_server =
  bs_dial :: "string \<Rightarrow> string option"
  bs_use :: "string \<Rightarrow> string option"
  bs_put :: "nat \<Rightarrow> string option"

record beanstalkd =
  bs_addr :: string
  bs_tube :: string
  bs_jobs :: "json list"
  bs_quit :: bool

definition makeBeanstalkDatabase :: "beanstalk_server \<Rightarrow> url \<Rightarrow> go_error + beanstalkd" where
  "makeBeanstalkDatabase srv u =
     (let addr = url_Hostname u @ '':'' @ url_Port u in
      case bs_dial srv addr of
        Some e \<Rightarrow> wrapE ''Beanstalkd connection error'' (Inl (Err e))
      | None \<Rightarrow>
          (let tubeName = TrimPrefix (url_Path u) ''/'' in
           case bs_use srv tubeName of
             Some e \<Rightarrow> wrapE ''Beanstalkd tube set error'' (Inl (Err e))
           | None \<Rightarrow> Inr \<lparr>bs_addr = addr, bs_tube = tubeName, bs_jobs = [], bs_quit = False\<rparr>))"

definition beanstalkd_DoesTorrentExist :: "byte list \<Rightarrow> (beanstalkd, bool) op" where
  "beanstalkd_DoesTorrentExist infoHash = ret False"

text \<open>\<open>json.Marshal\<close> does not fail on strings and integers.\<close>

definition beanstalkd_AddNewTorrent ::
  "beanstalk_server \<Rightarrow> byte list \<Rightarrow> string \<Rightarrow> File list \<Rightarrow> (beanstalkd, unit) op" where
  "beanstalkd_AddNewTorrent srv infoHash name files s =
     (let payloadJson = summary_json
        \<lparr>sts_InfoHash = EncodeToString infoHash, sts_Name = name, sts_Files = files\<rparr> in
      case bs_put srv (length (bs_jobs s)) of
        Some e \<Rightarrow> wrapL ''DB engine beanstalkd Put() error'' (raise (Err e)) s
      | None \<Rightarrow> ret () (s\<lparr>bs_jobs := bs_jobs s @ [payloadJson]\<rparr>))"

definition beanstalkd_Close :: "(beanstalkd, unit) op" where
  "beanstalkd_Close s = ret () (s\<lparr>bs_quit := True\<rparr>)"

definition beanstalkd_GetNumberOfTorrents :: "(beanstalkd, 64 word) op" where
  "beanstalkd_GetNumberOfTorrents = raise NotImplementedError"

definition beanstalkd_QueryTorrents :: "string \<Rightarrow> int \<Rightarrow> OrderingCriteria \<Rightarrow> bool \<Rightarrow> 64 word \<Rightarrow> rat option \<Rightarrow>
    64 word option \<Rightarrow> (beanstalkd, TorrentMetadata list) op" where
  "beanstalkd_QueryTorrents query epoch orderBy ascending limit lastOrderedValue lastID = raise NotImplementedError"

definition beanstalkd_GetTorrent :: "byte list \<Rightarrow> (beanstalkd, TorrentMetadata option) op" where
  "beanstalkd_GetTorrent infoHash = raise NotImplementedError"

definition beanstalkd_GetFiles :: "byte list \<Rightarrow> (beanstalkd, File list) op" where
  "beanstalkd_GetFiles infoHash = raise NotImplementedError"

definition beanstalkd_GetStatistics :: "string \<Rightarrow> 64 word \<Rightarrow> (beanstalkd, Statistics) op" where
  "beanstalkd_GetStatistics since n = raise NotImplementedError"

end
