(* ===== verification/SQL.thy ===== *)
theory SQL
  imports Persistence
begin

text \<open>
  What the two SQL engines use of the package \<open>database/sql\<close>: queries on a connection, transactions with
  their deferred rollback, and result sets.  The contents of the database are a type parameter; a
  statement is a function on them that may fail.

  The driver is a \<open>sql_driver\<close>: it decides which of the calls made to it fail, and after how many rows
  the iteration over the result of a query breaks off with an error.  Calls are numbered in the order
  in which they are made.  A transaction works on a copy of the contents, which replaces them when it is committed; a query on
  the connection, outside of the transaction, sees the committed contents.
\<close>

subsection \<open>Connections\<close>

record sql_driver =
  drv_fail :: "nat \<Rightarrow> string option"
  drv_break :: "nat \<Rightarrow> nat option"
  drv_now :: "nat \<Rightarrow> int"

record 'd sql_conn =
  sc_db :: 'd
  sc_tx :: "'d option"
  sc_calls :: nat

text \<open>The rows that \<open>Next\<close> delivers before it returns false, and whether \<open>Err\<close> is non-nil then.\<close>

record 'r rows =
  rs_rows :: "'r list"
  rs_Err :: bool

definition driver_call :: "sql_driver \<Rightarrow> ('d sql_conn, unit) op" where
  "driver_call drv c = (let c' = c\<lparr>sc_calls := Suc (sc_calls c)\<rparr> in
     case drv_fail drv (sc_calls c) of Some e \<Rightarrow> (Inl (Err e), c') | None \<Rightarrow> (Inr (), c'))"

definition fetch :: "nat option \<Rightarrow> 'r list \<Rightarrow> 'r rows" where
  "fetch brk rows = (case brk of None \<Rightarrow> \<lparr>rs_rows = rows, rs_Err = False\<rparr>
     | Some n \<Rightarrow> \<lparr>rs_rows = take n rows, rs_Err = True\<rparr>)"

definition conn_Query :: "sql_driver \<Rightarrow> ('d \<Rightarrow> string + 'r list) \<Rightarrow> ('d sql_conn, 'r rows) op" where
  "conn_Query drv select c = bindL (driver_call drv) (\<lambda>_ c'. case select (sc_db c') of
       Inl e \<Rightarrow> (Inl (Err e), c')
     | Inr rows \<Rightarrow> (Inr (fetch (drv_break drv (sc_calls c)) rows), c')) c"

definition conn_Exec :: "sql_driver \<Rightarrow> ('d sql_conn, unit) op" where
  "conn_Exec drv = driver_call drv"

definition Begin :: "sql_driver \<Rightarrow> ('d sql_conn, unit) op" where
  "Begin drv = bindL (driver_call drv) (\<lambda>_ c. (Inr (), c\<lparr>sc_tx := Some (sc_db c)\<rparr>))"

definition ErrTxDone :: go_error where
  "ErrTxDone = Err ''sql: transaction has already been committed or rolled back''"

definition tx_Exec :: "sql_driver \<Rightarrow> ('d \<Rightarrow> string + 'r \<times> 'd) \<Rightarrow> ('d sql_conn, 'r) op" where
  "tx_Exec drv stmt = bindL (driver_call drv) (\<lambda>_ c. case sc_tx c of
       None \<Rightarrow> (Inl ErrTxDone, c)
     | Some d \<Rightarrow> (case stmt d of Inl e \<Rightarrow> (Inl (Err e), c) | Inr (r, d') \<Rightarrow> (Inr r, c\<lparr>sc_tx := Some d'\<rparr>)))"

definition tx_Query :: "sql_driver \<Rightarrow> ('d \<Rightarrow> string + 'r list) \<Rightarrow> ('d sql_conn, 'r rows) op" where
  "tx_Query drv select c = bindL (driver_call drv) (\<lambda>_ c'. case sc_tx c' of
       None \<Rightarrow> (Inl ErrTxDone, c')
     | Some d \<Rightarrow> (case select d of Inl e \<Rightarrow> (Inl (Err e), c')
         | Inr rows \<Rightarrow> (Inr (fetch (drv_break drv (sc_calls c)) rows), c'))) c"

text \<open>A transaction whose commit fails is over as well.\<close>

definition Commit :: "sql_driver \<Rightarrow> ('d sql_conn, unit) op" where
  "Commit drv c = (case sc_tx c of
       None \<Rightarrow> (Inl ErrTxDone, c)
     | Some d \<Rightarrow> (case driver_call drv c of
           (Inl e, c') \<Rightarrow> (Inl e, c'\<lparr>sc_tx := None\<rparr>)
         | (Inr _, c') \<Rightarrow> (Inr (), c'\<lparr>sc_db := d, sc_tx := None\<rparr>)))"

text \<open>\<open>defer tx.Rollback()\<close>, whose own error is dropped.\<close>

definition Rollback :: "('d sql_conn, unit) op" where
  "Rollback c = (Inr (), c\<lparr>sc_tx := None\<rparr>)"

text \<open>\<open>closeRows\<close> logs the error of \<open>rows.Close\<close>; on the nil result of a failed query it dereferences a
  nil pointer.\<close>

definition closeRows :: "string + 'r rows \<Rightarrow> ('d sql_conn, unit) op" where
  "closeRows rows = (case rows of
       Inl _ \<Rightarrow> raise (Panic ''invalid memory address or nil pointer dereference'') | Inr _ \<Rightarrow> ret ())"

text \<open>Values handed to the driver and scanned from it: \<open>database/sql\<close> refuses to pass a \<open>uint64\<close> whose high bit
  is set, and to store a negative number in an unsigned variable.\<close>

definition bind_uint64 :: "64 word \<Rightarrow> string + int" where
  "bind_uint64 w = (if uint w < 2 ^ 63 then Inr (uint w)
     else Inl ''uint64 values with high bit set are not supported'')"

definition scan_uint64 :: "int \<Rightarrow> go_error + 64 word" where
  "scan_uint64 v = (if 0 \<le> v then Inr (of_int v) else Inl (Err ''converting driver.Value type int64 to a uint64: invalid syntax''))"

subsection \<open>Calls that succeed\<close>

text \<open>A driver all of whose calls from the \<open>k\<close>-th on succeed.\<close>

definition smooth :: "sql_driver \<Rightarrow> nat \<Rightarrow> bool" where
  "smooth drv k \<longleftrightarrow> (\<forall>i \<ge> k. drv_fail drv i = None \<and> drv_break drv i = None)"

lemma smooth_Suc [simp]: "smooth drv k \<Longrightarrow> smooth drv (Suc k)"
  by (simp add: smooth_def)

lemma smooth_le: "smooth drv k \<Longrightarrow> k \<le> j \<Longrightarrow> smooth drv j"
  by (auto simp: smooth_def)

lemma smooth_call:
  "smooth drv (sc_calls c) \<Longrightarrow> driver_call drv c = (Inr (), c\<lparr>sc_calls := Suc (sc_calls c)\<rparr>)"
  by (simp add: smooth_def driver_call_def Let_def)

lemma smooth_ops:
  assumes "smooth drv (sc_calls c)"
  shows "Begin drv c = (Inr (), c\<lparr>sc_calls := Suc (sc_calls c), sc_tx := Some (sc_db c)\<rparr>)"
    and "select (sc_db c) = Inr rs \<Longrightarrow> conn_Query drv select c
      = (Inr \<lparr>rs_rows = rs, rs_Err = False\<rparr>, c\<lparr>sc_calls := Suc (sc_calls c)\<rparr>)"
    and "sc_tx c = Some d \<Longrightarrow> select d = Inr rs \<Longrightarrow> tx_Query drv select c
      = (Inr \<lparr>rs_rows = rs, rs_Err = False\<rparr>, c\<lparr>sc_calls := Suc (sc_calls c)\<rparr>)"
    and "sc_tx c = Some d \<Longrightarrow> Commit drv c
      = (Inr (), c\<lparr>sc_calls := Suc (sc_calls c), sc_db := d, sc_tx := None\<rparr>)"
    and "sc_tx c = Some d \<Longrightarrow> stmt d = Inr (r, d') \<Longrightarrow> tx_Exec drv stmt c
      = (Inr r, c\<lparr>sc_calls := Suc (sc_calls c), sc_tx := Some d'\<rparr>)"
    and "sc_tx c = Some d \<Longrightarrow> stmt d = Inl e \<Longrightarrow> tx_Exec drv stmt c
      = (Inl (Err e), c\<lparr>sc_calls := Suc (sc_calls c)\<rparr>)"
  using assms
  by (simp_all add: Begin_def conn_Query_def tx_Query_def Commit_def tx_Exec_def bindL_def smooth_call)
    (simp_all add: fetch_def smooth_def)

subsection \<open>What a successful call did\<close>

lemma driver_call_Inr:
  "driver_call drv c = (Inr u, c') \<Longrightarrow> c' = c\<lparr>sc_calls := Suc (sc_calls c)\<rparr>"
  by (auto simp: driver_call_def Let_def split: option.splits)

lemma Begin_Inr:
  "Begin drv c = (Inr u, c') \<Longrightarrow> c' = c\<lparr>sc_calls := Suc (sc_calls c), sc_tx := Some (sc_db c)\<rparr>"
  by (auto simp: Begin_def bindL_Inr_iff dest!: driver_call_Inr)

lemma conn_Query_Inr:
  assumes "conn_Query drv select c = (Inr rows, c')"
  shows "c' = c\<lparr>sc_calls := Suc (sc_calls c)\<rparr>
     \<and> (\<exists>rs. select (sc_db c) = Inr rs \<and> rows = fetch (drv_break drv (sc_calls c)) rs)"
proof -
  from assms obtain c1 where "driver_call drv c = (Inr (), c1)"
    and q: "(case select (sc_db c1) of Inl e \<Rightarrow> (Inl (Err e), c1)
      | Inr rows \<Rightarrow> (Inr (fetch (drv_break drv (sc_calls c)) rows), c1)) = (Inr rows, c')"
    by (auto simp: conn_Query_def bindL_Inr_iff)
  with driver_call_Inr [OF this(1)] show ?thesis by (auto split: sum.splits)
qed

lemma tx_Exec_Inr:
  assumes "tx_Exec drv stmt c = (Inr r, c')"
  shows "\<exists>d d'. sc_tx c = Some d \<and> stmt d = Inr (r, d')
     \<and> c' = c\<lparr>sc_calls := Suc (sc_calls c), sc_tx := Some d'\<rparr>"
proof -
  from assms obtain c1 where "driver_call drv c = (Inr (), c1)"
    and "(case sc_tx c1 of None \<Rightarrow> (Inl ErrTxDone, c1) | Some d \<Rightarrow>
      (case stmt d of Inl e \<Rightarrow> (Inl (Err e), c1) | Inr (r, d') \<Rightarrow> (Inr r, c1\<lparr>sc_tx := Some d'\<rparr>))) = (Inr r, c')"
    by (auto simp: tx_Exec_def bindL_Inr_iff)
  with driver_call_Inr [OF this(1)] show ?thesis by (auto split: sum.splits option.splits)
qed

lemma Commit_Inr:
  assumes "Commit drv c = (Inr u, c')"
  shows "\<exists>d. sc_tx c = Some d \<and> c' = c\<lparr>sc_calls := Suc (sc_calls c), sc_db := d, sc_tx := None\<rparr>"
  using assms
  by (auto simp: Commit_def split: option.splits prod.splits sum.splits dest!: driver_call_Inr)

lemma driver_call_tx: "driver_call drv c = (r, c') \<Longrightarrow> sc_tx c' = sc_tx c"
  by (auto simp: driver_call_def Let_def split: option.splits)

lemma conn_Query_tx: "conn_Query drv select c = (r, c') \<Longrightarrow> sc_tx c' = sc_tx c"
  by (auto simp: conn_Query_def bindL_def split: prod.splits sum.splits dest!: driver_call_tx)

lemma Begin_Inl:
  assumes "Begin drv c = (Inl e, c')"
  shows "sc_tx c' = sc_tx c \<and> sc_db c' = sc_db c"
proof -
  from assms have "driver_call drv c = (Inl e, c')" by (auto simp: Begin_def bindL_Inl_iff)
  then show ?thesis by (auto simp: driver_call_def Let_def split: option.splits)
qed

subsection \<open>What is committed\<close>

definition committed_same :: "'d sql_conn \<Rightarrow> 'd sql_conn \<Rightarrow> bool" where
  "committed_same c c' \<longleftrightarrow> sc_db c' = sc_db c"

interpretation committed: frame_order committed_same
  by unfold_locales (simp_all add: committed_same_def)

lemma driver_call_committed: "keeps committed_same (driver_call drv)"
  by (auto simp: keeps_def committed_same_def driver_call_def Let_def split: option.splits)

lemma sql_committed:
  "keeps committed_same (conn_Query drv select)" "keeps committed_same (Begin drv)"
  "keeps committed_same (tx_Exec drv stmt)" "keeps committed_same (tx_Query drv select)"
  "keeps committed_same Rollback" "keeps committed_same (closeRows rs)" "keeps committed_same (conn_Exec drv)"
  using driver_call_committed [of drv]
  by (fastforce simp: keeps_def committed_same_def conn_Query_def Begin_def tx_Exec_def tx_Query_def
      Rollback_def closeRows_def conn_Exec_def raise_def ret_def bindL_def
      split: prod.splits sum.splits option.splits if_splits)+

lemmas keeps_committed = sql_committed committed.keeps_basic committed.keeps_bindL committed.keeps_wrapL
  committed.keeps_deferL committed.keeps_catchL committed.keeps_if committed.keeps_sum

text \<open>An operation is atomic when an error or a panic leaves the committed contents as they were.\<close>

definition atomic :: "('d sql_conn, 'a) op \<Rightarrow> bool" where
  "atomic m \<longleftrightarrow> (\<forall>c e c'. m c = (Inl e, c') \<longrightarrow> sc_db c' = sc_db c)"

lemma atomic_Commit: "atomic (Commit drv)"
  by (auto simp: atomic_def Commit_def driver_call_def Let_def split: option.splits prod.splits sum.splits)

lemma atomic_keeps: "keeps committed_same m \<Longrightarrow> atomic m"
  by (auto simp: keeps_def committed_same_def atomic_def)

lemma atomic_bindL: "keeps committed_same m \<Longrightarrow> (\<And>x. atomic (f x)) \<Longrightarrow> atomic (bindL m f)"
  by (auto simp: keeps_def committed_same_def atomic_def bindL_Inl_iff)

lemma atomic_wrapL: "atomic m \<Longrightarrow> atomic (wrapL msg m)"
  unfolding atomic_def wrapL_def by (auto split: prod.splits) (metis wrapE.simps(3) sum.exhaust sum.distinct(1))

lemma atomic_Rollback: "atomic m \<Longrightarrow> atomic (deferL Rollback m)"
  by (auto simp: atomic_def deferL_def Rollback_def split: prod.splits)

lemma atomic_if: "(b \<Longrightarrow> atomic m) \<Longrightarrow> (\<not> b \<Longrightarrow> atomic n) \<Longrightarrow> atomic (if b then m else n)"
  by simp

text \<open>The shape of \<open>AddNewTorrent\<close>: within a transaction that is rolled back at the end, unless there is nothing to
  do, look up the torrent on the connection and insert it when it is not there.  What the insertion
  may have committed is all that can have changed.\<close>

lemma guarded_transaction:
  assumes "bindL (wrapL msg (Begin drv)) (\<lambda>_. deferL Rollback (if skip then ret ()
      else bindL ex (\<lambda>exist. if exist then ret () else ins))) c = (r, c')"
    and "sc_tx c = None" and "keeps committed_same ex" and "\<And>c q c'. ex c = (q, c') \<Longrightarrow> sc_tx c' = sc_tx c"
    and "\<And>c1 q c2. sc_tx c1 = Some (sc_db c) \<Longrightarrow> ins c1 = (q, c2) \<Longrightarrow> sc_db c2 = sc_db c1 \<or> P q (sc_db c2)"
  shows "sc_tx c' = None \<and> (sc_db c' = sc_db c \<or> P r (sc_db c'))"
proof (cases "fst (Begin drv c)")
  case (Inl e)
  then obtain c1 where b: "Begin drv c = (Inl e, c1)" by (cases "Begin drv c") auto
  with assms(1) have "c' = c1" by (cases e) (auto simp: bindL_def wrapL_def)
  with Begin_Inl [OF b] assms(2) show ?thesis by simp
next
  case (Inr u)
  then obtain c1 where b: "Begin drv c = (Inr u, c1)" by (cases "Begin drv c") auto
  from Begin_Inr [OF b] have c1: "sc_db c1 = sc_db c" "sc_tx c1 = Some (sc_db c)" by simp_all
  let ?body = "if skip then ret () else bindL ex (\<lambda>exist. if exist then ret () else ins)"
  obtain q c2 where y: "?body c1 = (q, c2)" by fastforce
  from assms(1) b have "deferL Rollback ?body c1 = (r, c')" by (simp add: bindL_def wrapL_def)
  with y have c': "c' = c2\<lparr>sc_tx := None\<rparr>" "r = q" by (auto simp: deferL_def Rollback_def)
  obtain x c3 where e: "ex c1 = (x, c3)" by fastforce
  with assms(3) have c3: "sc_db c3 = sc_db c1" by (auto simp: committed_same_def dest: keepsD)
  have "sc_tx c3 = Some (sc_db c)" using assms(4) [OF e] c1 by simp
  from assms(5) [OF this] y e c3 c1 have "sc_db c2 = sc_db c \<or> P q (sc_db c2)"
    by (auto simp: bindL_def ret_def split: sum.splits if_splits)
  with c' show ?thesis by simp
qed

end
