(* ===== verification/Store.thy ===== *)
theory Store
  imports Persistence
begin

text \<open>
  What a client of an engine that keeps torrents can rely on: the locale \<open>torrent_store\<close>.  The
  contents of a store map an infohash to the name and the files stored for it.  Asking whether a
  torrent exists changes nothing and says yes only of what is there; adding one leaves the contents as
  they were, or, when it succeeds, extends them by the new torrent.
\<close>

type_synonym contents = "byte list \<Rightarrow> (string \<times> File list) option"

text \<open>What a program does with a store: it asks, or it adds.\<close>

datatype request = Ask "byte list" | Add "byte list" string "File list"

locale torrent_store =
  fixes ok :: "'s \<Rightarrow> bool"
    and contents :: "'s \<Rightarrow> contents"
    and exists :: "byte list \<Rightarrow> ('s, bool) op"
    and add :: "byte list \<Rightarrow> string \<Rightarrow> File list \<Rightarrow> ('s, unit) op"
  assumes exists_keeps: "ok s \<Longrightarrow> exists h s = (r, t) \<Longrightarrow> ok t \<and> contents t = contents s"
    and exists_sound: "ok s \<Longrightarrow> exists h s = (Inr True, t) \<Longrightarrow> contents s h \<noteq> None"
    and add_ok: "ok s \<Longrightarrow> add h n fs s = (r', t) \<Longrightarrow> ok t"
    and add_contents: "ok s \<Longrightarrow> add h n fs s = (r', t) \<Longrightarrow>
      contents t = contents s
      \<or> r' = Inr () \<and> contents s h = None \<and> contents t = (contents s)(h \<mapsto> (n, fs))"
begin

fun serve :: "request \<Rightarrow> ('s, unit) op" where
  "serve (Ask h) = bindL (exists h) (\<lambda>_. ret ())"
| "serve (Add h n fs) = add h n fs"

fun serve_all :: "request list \<Rightarrow> 's \<Rightarrow> 's" where
  "serve_all [] s = s"
| "serve_all (q # qs) s = serve_all qs (snd (serve q s))"

text \<open>No request changes what is stored under an infohash.\<close>

lemma serve_step:
  assumes "ok s"
  shows "ok (snd (serve q s)) \<and> contents s \<subseteq>\<^sub>m contents (snd (serve q s))
     \<and> (\<forall>h v. contents (snd (serve q s)) h = Some v \<longrightarrow>
          contents s h = Some v \<or> (\<exists>n fs. q = Add h n fs \<and> v = (n, fs)))"
proof (cases q)
  case (Ask h)
  obtain r t where e: "exists h s = (r, t)" by fastforce
  then have "snd (serve q s) = t" by (cases r) (simp_all add: Ask bindL_def ret_def)
  with exists_keeps [OF assms e] show ?thesis by simp
next
  case (Add h n fs)
  obtain r t where a: "add h n fs s = (r, t)" by fastforce
  then have t: "snd (serve q s) = t" by (simp add: Add)
  from add_contents [OF assms a] have "contents s \<subseteq>\<^sub>m contents t"
    by (auto simp: map_le_def)
  moreover from add_contents [OF assms a]
  have "contents t k = Some v \<Longrightarrow> contents s k = Some v \<or> k = h \<and> v = (n, fs)" for k v
    by (auto split: if_splits)
  ultimately show ?thesis using add_ok [OF assms a] unfolding t by (auto simp: Add)
qed

lemma serve_all_contents:
  assumes "ok s"
  shows "ok (serve_all qs s) \<and> contents s \<subseteq>\<^sub>m contents (serve_all qs s)
     \<and> (\<forall>h v. contents (serve_all qs s) h = Some v \<longrightarrow>
          contents s h = Some v \<or> (\<exists>n fs. Add h n fs \<in> set qs \<and> v = (n, fs)))"
  using assms
proof (induction qs arbitrary: s)
  case (Cons q qs)
  note step = serve_step [OF Cons.prems, of q]
  note rest = Cons.IH [of "snd (serve q s)"]
  from step rest have "contents s \<subseteq>\<^sub>m contents (serve_all (q # qs) s)"
    by (auto intro: map_le_trans)
  moreover have "contents s h = Some v \<or> (\<exists>n fs. Add h n fs \<in> set (q # qs) \<and> v = (n, fs))"
    if "contents (serve_all (q # qs) s) h = Some v" for h v
    using that step rest by fastforce
  ultimately show ?case using step rest by simp
qed simp

end

end
