(* ===== verification/Sqlite3.thy ===== *)
theory Sqlite3
  imports SQL Store
begin

text \<open>
  The SQLite engine of \<open>pkg/persistence/sqlite3.go\<close>: the tables, adding a torrent, and reading torrents
  and their files back.  The meaning of an SQL statement of the source is a function on the tables,
  with the constraints that \<open>setupDatabase\<close> declares and the default values and triggers that
  bear on the columns read.  Theory \<open>Sqlite3Schema\<close> has \<open>setupDatabase\<close> itself, theory \<open>Sqlite3Query\<close>
  the search and the statistics.

  The columns \<open>n_seeders\<close>, \<open>n_leechers\<close>, \<open>is_readme\<close> and \<open>content\<close> are neither written nor read by the
  program and are left out of the rows.
\<close>

subsection \<open>Tables\<close>

text \<open>\<open>modified_on\<close> is None in the rows of a database that has not got the column yet.\<close>

record torrent_row =
  tr_id :: int
  tr_info_hash :: "byte list"
  tr_name :: string
  tr_total_size :: int
  tr_discovered_on :: int
  tr_updated_on :: "int option"
  tr_modified_on :: "int option"

record file_row =
  fr_id :: int
  fr_torrent_id :: int
  fr_size :: int
  fr_path :: string

record sqlite_db =
  sl_version :: int
  sl_objects :: "string list"
  sl_torrents_cols :: "string list"
  sl_files_cols :: "string list"
  sl_torrents :: "torrent_row list"
  sl_files :: "file_row list"

type_synonym 'a sqlite_op = "(sqlite_db sql_conn, 'a) op"

text \<open>The \<open>INTEGER PRIMARY KEY\<close> chosen for a new row: one more than the largest in use.\<close>

definition next_rowid :: "int list \<Rightarrow> int" where
  "next_rowid ids = (if ids = [] then 1 else Max (set ids) + 1)"

definition modified_on_default :: int where
  "modified_on_default = 32503680000"

text \<open>\<open>INSERT INTO torrents\<close> with its constraints: \<open>info_hash\<close> is unique, \<open>total_size\<close> and \<open>discovered_on\<close> are
  positive, and the default of \<open>modified_on\<close> is not below \<open>discovered_on\<close>; then the trigger
  \<open>torrents_modified_on_default_t\<close> sets \<open>modified_on\<close> to \<open>discovered_on\<close>.\<close>

definition insert_torrent :: "byte list \<Rightarrow> string \<Rightarrow> 64 word \<Rightarrow> int \<Rightarrow> sqlite_db \<Rightarrow> string + int \<times> sqlite_db" where
  "insert_torrent infoHash name totalSize discovered_on d =
     (case bind_uint64 totalSize of Inl e \<Rightarrow> Inl e | Inr total_size \<Rightarrow>
      if infoHash \<in> set (map tr_info_hash (sl_torrents d)) then Inl ''UNIQUE constraint failed: torrents.info_hash''
      else if \<not> total_size > 0 then Inl ''CHECK constraint failed: total_size''
      else if \<not> discovered_on > 0 then Inl ''CHECK constraint failed: discovered_on''
      else if \<not> modified_on_default \<ge> discovered_on then Inl ''CHECK constraint failed: modified_on''
      else let id = next_rowid (map tr_id (sl_torrents d)) in
        Inr (id, d\<lparr>sl_torrents := sl_torrents d @
          [\<lparr>tr_id = id, tr_info_hash = infoHash, tr_name = name, tr_total_size = total_size,
            tr_discovered_on = discovered_on, tr_updated_on = None, tr_modified_on = Some discovered_on\<rparr>]\<rparr>))"

text \<open>\<open>INSERT INTO files\<close>; \<open>torrent_id\<close> references \<open>torrents\<close>.\<close>

definition insert_file :: "int \<Rightarrow> File \<Rightarrow> sqlite_db \<Rightarrow> string + unit \<times> sqlite_db" where
  "insert_file torrent_id f d =
     (if torrent_id \<notin> set (map tr_id (sl_torrents d)) then Inl ''FOREIGN KEY constraint failed''
      else Inr ((), d\<lparr>sl_files := sl_files d @ [\<lparr>fr_id = next_rowid (map fr_id (sl_files d)),
        fr_torrent_id = torrent_id, fr_size = f_Size f, fr_path = f_Path f\<rparr>]\<rparr>))"

definition files_of :: "int \<Rightarrow> sqlite_db \<Rightarrow> file_row list" where
  "files_of i d = filter (\<lambda>f. fr_torrent_id f = i) (sl_files d)"

subsection \<open>DoesTorrentExist and AddNewTorrent\<close>

text \<open>When the iteration breaks off, \<open>err\<close> is still the nil error of \<open>Query\<close>.\<close>

definition sqlite3_DoesTorrentExist :: "sql_driver \<Rightarrow> byte list \<Rightarrow> bool sqlite_op" where
  "sqlite3_DoesTorrentExist drv infoHash =
     bindL (conn_Query drv (\<lambda>d. Inr (map (\<lambda>t. 1 :: int) (filter (\<lambda>t. tr_info_hash t = infoHash) (sl_torrents d)))))
       (\<lambda>rows. let exists = rs_rows rows \<noteq> [] in if rs_Err rows then ret False else ret exists)"

definition total_size_of :: "File list \<Rightarrow> 64 word" where
  "total_size_of files = fold (\<lambda>f s. s + of_int (f_Size f)) files 0"

fun insert_files :: "sql_driver \<Rightarrow> int \<Rightarrow> File list \<Rightarrow> unit sqlite_op" where
  "insert_files drv lastInsertId [] = ret ()"
| "insert_files drv lastInsertId (f # fs) =
     bindL (wrapL ''tx.Exec (INSERT INTO files)'' (tx_Exec drv (insert_file lastInsertId f)))
       (\<lambda>_. insert_files drv lastInsertId fs)"

text \<open>The clock is read when the statement is made.\<close>

definition sqlite3_insert :: "sql_driver \<Rightarrow> byte list \<Rightarrow> string \<Rightarrow> File list \<Rightarrow> unit sqlite_op" where
  "sqlite3_insert drv infoHash name files =
     bindL (wrapL ''tx.Exec (INSERT OR REPLACE INTO torrents)''
         (\<lambda>c. tx_Exec drv (insert_torrent infoHash name (total_size_of files) (drv_now drv (sc_calls c))) c))
       (\<lambda>lastInsertId. if lastInsertId \<le> 0
          then raise (Panic ''last_insert_rowid() <= 0 (this should have never happened!)'')
          else bindL (insert_files drv lastInsertId files) (\<lambda>_. wrapL ''tx.Commit'' (Commit drv)))"

definition sqlite3_AddNewTorrent :: "sql_driver \<Rightarrow> byte list \<Rightarrow> string \<Rightarrow> File list \<Rightarrow> unit sqlite_op" where
  "sqlite3_AddNewTorrent drv infoHash name files =
     bindL (wrapL ''conn.Begin'' (Begin drv)) (\<lambda>_. deferL Rollback
       (if total_size_of files = 0 then ret ()
        else bindL (sqlite3_DoesTorrentExist drv infoHash) (\<lambda>exist.
          if exist then ret () else sqlite3_insert drv infoHash name files)))"

subsection \<open>Reading\<close>

definition sqlite3_GetNumberOfTorrents :: "sql_driver \<Rightarrow> 64 word sqlite_op" where
  "sqlite3_GetNumberOfTorrents drv =
     bindL (conn_Query drv (\<lambda>d. Inr [if sl_torrents d = [] then None else Some (Max (set (map tr_id (sl_torrents d))))]))
       (\<lambda>rows. case rs_rows rows of
          [] \<Rightarrow> raise (Err ''no rows returned from `SELECT MAX(ROWID)`'')
        | n # _ \<Rightarrow> (case n of None \<Rightarrow> ret 0 | Some v \<Rightarrow> liftL (scan_uint64 v)))"

definition sqlite3_GetTorrent :: "sql_driver \<Rightarrow> byte list \<Rightarrow> TorrentMetadata option sqlite_op" where
  "sqlite3_GetTorrent drv infoHash =
     bindL (catchL (conn_Query drv (\<lambda>d. Inr (map (\<lambda>t. (t, int (length (files_of (tr_id t) d))))
         (filter (\<lambda>t. tr_info_hash t = infoHash) (sl_torrents d))))))
       (\<lambda>rows. deferL (closeRows rows) (case rows of
          Inl e \<Rightarrow> raise (Err e)
        | Inr rs \<Rightarrow> (case rs_rows rs of
              [] \<Rightarrow> ret None
            | (t, n_files) # _ \<Rightarrow> bindL (liftL (scan_uint64 (tr_total_size t))) (\<lambda>size.
                bindL (liftL (scan_uint64 n_files)) (\<lambda>nFiles.
                ret (Some \<lparr>tm_ID = 0, tm_InfoHash = tr_info_hash t, tm_Name = tr_name t, tm_Size = size,
                  tm_DiscoveredOn = tr_discovered_on t, tm_NFiles = nFiles, tm_Relevance = 0\<rparr>))))))"

definition select_files :: "byte list \<Rightarrow> sqlite_db \<Rightarrow> File list" where
  "select_files infoHash d = concat (map (\<lambda>f. map (\<lambda>t. \<lparr>f_Size = fr_size f, f_Path = fr_path f\<rparr>)
     (filter (\<lambda>t. fr_torrent_id f = tr_id t \<and> tr_info_hash t = infoHash) (sl_torrents d))) (sl_files d))"

definition sqlite3_GetFiles :: "sql_driver \<Rightarrow> byte list \<Rightarrow> File list sqlite_op" where
  "sqlite3_GetFiles drv infoHash =
     bindL (catchL (conn_Query drv (\<lambda>d. Inr (select_files infoHash d))))
       (\<lambda>rows. deferL (closeRows rows) (case rows of
          Inl e \<Rightarrow> raise (Err e) | Inr rs \<Rightarrow> ret (rs_rows rs)))"

text \<open>\<open>conn.Close\<close>; the file keeps what was committed.\<close>

definition sqlite3_Close :: "sql_driver \<Rightarrow> unit sqlite_op" where
  "sqlite3_Close drv = driver_call drv"

subsection \<open>The tables as a store\<close>

definition stored_file :: "file_row \<Rightarrow> File" where
  "stored_file f = \<lparr>f_Size = fr_size f, f_Path = fr_path f\<rparr>"

text \<open>What the constraints of the tables guarantee.\<close>

definition tables_ok :: "sqlite_db \<Rightarrow> bool" where
  "tables_ok d \<longleftrightarrow> distinct (map tr_id (sl_torrents d)) \<and> distinct (map tr_info_hash (sl_torrents d))
     \<and> (\<forall>t \<in> set (sl_torrents d). 0 < tr_id t \<and> 0 < tr_total_size t \<and> tr_total_size t < 2 ^ 63)
     \<and> distinct (map fr_id (sl_files d))
     \<and> (\<forall>f \<in> set (sl_files d). fr_torrent_id f \<in> set (map tr_id (sl_torrents d)))"

definition torrent_of :: "sqlite_db \<Rightarrow> byte list \<Rightarrow> torrent_row option" where
  "torrent_of d h = map_of (map (\<lambda>t. (tr_info_hash t, t)) (sl_torrents d)) h"

definition sqlite_contents :: "sqlite_db \<Rightarrow> contents" where
  "sqlite_contents d h = map_option (\<lambda>t. (tr_name t, map stored_file (files_of (tr_id t) d))) (torrent_of d h)"

definition sqlite_ok :: "sqlite_db sql_conn \<Rightarrow> bool" where
  "sqlite_ok c \<longleftrightarrow> tables_ok (sc_db c) \<and> sc_tx c = None"

lemma next_rowid_fresh: "next_rowid ids \<notin> set ids"
proof
  assume "next_rowid ids \<in> set ids"
  moreover from this have "ids \<noteq> []" by auto
  ultimately show False using Max_ge [of "set ids" "next_rowid ids"] by (simp add: next_rowid_def)
qed

lemma next_rowid_pos: "\<forall>i \<in> set ids. 0 < i \<Longrightarrow> 0 < next_rowid ids"
  by (cases ids) (auto simp: next_rowid_def intro!: add_nonneg_pos Max_ge_iff [THEN iffD2])

lemma torrent_of_eq:
  assumes "tables_ok d"
  shows "torrent_of d h = Some t \<longleftrightarrow> t \<in> set (sl_torrents d) \<and> tr_info_hash t = h"
proof -
  have "distinct (map fst (map (\<lambda>t. (tr_info_hash t, t)) (sl_torrents d)))"
    using assms by (simp add: tables_ok_def comp_def)
  then show ?thesis unfolding torrent_of_def by (simp add: map_of_eq_Some_iff) auto
qed

lemma torrent_of_None: "torrent_of d h = None \<longleftrightarrow> h \<notin> set (map tr_info_hash (sl_torrents d))"
  by (simp add: torrent_of_def map_of_eq_None_iff comp_def image_image del: map_of_None_keys)

lemma torrent_of_snoc:
  assumes "torrent_of d (tr_info_hash t) = None"
  shows "torrent_of (d\<lparr>sl_torrents := sl_torrents d @ [t]\<rparr>) = (torrent_of d)(tr_info_hash t \<mapsto> t)"
proof
  fix k show "torrent_of (d\<lparr>sl_torrents := sl_torrents d @ [t]\<rparr>) k = ((torrent_of d)(tr_info_hash t \<mapsto> t)) k"
    using assms by (cases "torrent_of d k") (auto simp: torrent_of_def map_add_def simp del: map_of_None_keys)
qed

text \<open>The rows of one infohash: none or one.\<close>

lemma filter_info_hash:
  assumes "tables_ok d"
  shows "filter (\<lambda>t. tr_info_hash t = h) (sl_torrents d) = (case torrent_of d h of None \<Rightarrow> [] | Some t \<Rightarrow> [t])"
proof -
  have "distinct (map tr_info_hash ts) \<Longrightarrow> filter (\<lambda>t. tr_info_hash t = h) ts
      = (case map_of (map (\<lambda>t. (tr_info_hash t, t)) ts) h of None \<Rightarrow> [] | Some t \<Rightarrow> [t])" for ts :: "torrent_row list"
    by (induction ts) (auto simp: filter_empty_conv split: option.splits dest!: map_of_SomeD)
  then show ?thesis using assms by (simp add: torrent_of_def tables_ok_def)
qed

text \<open>A new torrent row with its file rows extends the contents by one entry.\<close>

lemma append_contents:
  assumes "tables_ok d" and "torrent_of d (tr_info_hash t) = None" and "tr_id t \<notin> set (map tr_id (sl_torrents d))"
    and "\<forall>f \<in> set rows. fr_torrent_id f = tr_id t"
  shows "sqlite_contents (d\<lparr>sl_torrents := sl_torrents d @ [t], sl_files := sl_files d @ rows\<rparr>)
    = (sqlite_contents d)(tr_info_hash t \<mapsto> (tr_name t, map stored_file rows))"
proof
  fix k
  let ?d = "d\<lparr>sl_torrents := sl_torrents d @ [t], sl_files := sl_files d @ rows\<rparr>"
  have "torrent_of ?d = torrent_of (d\<lparr>sl_torrents := sl_torrents d @ [t]\<rparr>)"
    by (simp add: torrent_of_def [abs_def])
  then have t: "torrent_of ?d k = (if k = tr_info_hash t then Some t else torrent_of d k)"
    by (simp only: torrent_of_snoc [OF assms(2)] fun_upd_apply)
  have "fr_torrent_id f \<in> set (map tr_id (sl_torrents d))" if "f \<in> set (sl_files d)" for f
    using that assms(1) by (simp only: tables_ok_def)
  with assms(3) have no: "fr_torrent_id f \<noteq> tr_id t" if "f \<in> set (sl_files d)" for f
    using that by metis
  have new: "files_of (tr_id t) ?d = rows"
    using assms(4) no by (simp add: files_of_def filter_empty_conv filter_id_conv)
  have old: "files_of (tr_id u) ?d = files_of (tr_id u) d" if "tr_id u \<noteq> tr_id t" for u
    using that assms(4) by (simp add: files_of_def filter_empty_conv)
  have neq: "tr_id u \<noteq> tr_id t" if "torrent_of d k = Some u" for u
    using that assms(3) torrent_of_eq [OF assms(1), of k u] by (simp add: image_iff) metis
  show "sqlite_contents ?d k = ((sqlite_contents d)(tr_info_hash t \<mapsto> (tr_name t, map stored_file rows))) k"
  proof (cases "k = tr_info_hash t")
    case True
    with t have "torrent_of ?d (tr_info_hash t) = Some t" by simp
    with True show ?thesis by (simp only: sqlite_contents_def option.map new fun_upd_same)
  next
    case False
    then have "sqlite_contents ?d k = map_option (\<lambda>u. (tr_name u, map stored_file (files_of (tr_id u) ?d))) (torrent_of d k)"
      by (simp only: sqlite_contents_def t if_False)
    also have "\<dots> = sqlite_contents d k"
      unfolding sqlite_contents_def by (cases "torrent_of d k") (simp_all only: option.map old [OF neq])
    finally show ?thesis using False by (simp only: fun_upd_other [OF False])
  qed
qed

subsection \<open>Inserting\<close>

fun with_files :: "int \<Rightarrow> File list \<Rightarrow> sqlite_db \<Rightarrow> sqlite_db" where
  "with_files i [] d = d"
| "with_files i (f # fs) d = with_files i fs (d\<lparr>sl_files := sl_files d @ [\<lparr>fr_id = next_rowid (map fr_id (sl_files d)),
     fr_torrent_id = i, fr_size = f_Size f, fr_path = f_Path f\<rparr>]\<rparr>)"

lemma with_files_torrents [simp]: "sl_torrents (with_files i fs d) = sl_torrents d"
  by (induction fs arbitrary: d) auto

lemma with_files_ok: "tables_ok d \<Longrightarrow> i \<in> set (map tr_id (sl_torrents d)) \<Longrightarrow> tables_ok (with_files i fs d)"
proof (induction fs arbitrary: d)
  case (Cons f fs)
  have "next_rowid (map fr_id (sl_files d)) \<notin> set (map fr_id (sl_files d))" by (rule next_rowid_fresh)
  then have "tables_ok (d\<lparr>sl_files := sl_files d @ [\<lparr>fr_id = next_rowid (map fr_id (sl_files d)),
     fr_torrent_id = i, fr_size = f_Size f, fr_path = f_Path f\<rparr>]\<rparr>)"
    using Cons.prems by (simp add: tables_ok_def)
  then show ?case using Cons.IH Cons.prems(2) by simp
qed simp

lemma with_files_of:
  "map stored_file (files_of j (with_files i fs d)) = map stored_file (files_of j d) @ (if i = j then fs else [])"
  by (induction fs arbitrary: d) (auto simp: files_of_def stored_file_def)

lemma insert_files_Inr:
  assumes "insert_files drv i fs c = (Inr u, c')" and "sc_tx c = Some d"
  shows "sc_tx c' = Some (with_files i fs d) \<and> sc_db c' = sc_db c"
  using assms
proof (induction fs arbitrary: c d)
  case (Cons f fs)
  from Cons.prems(1) obtain c1 where e: "tx_Exec drv (insert_file i f) c = (Inr (), c1)"
    and r: "insert_files drv i fs c1 = (Inr u, c')" by (auto simp: bindL_Inr_iff)
  from tx_Exec_Inr [OF e] Cons.prems(2) show ?case
    using Cons.IH [OF r] by (auto simp: insert_file_def split: if_splits)
qed (simp add: ret_def)

lemma insert_files_smooth:
  assumes "smooth drv (sc_calls c)" and "sc_tx c = Some d" and "i \<in> set (map tr_id (sl_torrents d))"
  shows "insert_files drv i fs c
    = (Inr (), c\<lparr>sc_calls := sc_calls c + length fs, sc_tx := Some (with_files i fs d)\<rparr>)"
  using assms
proof (induction fs arbitrary: c d)
  case (Cons f fs)
  let ?d = "d\<lparr>sl_files := sl_files d @ [\<lparr>fr_id = next_rowid (map fr_id (sl_files d)),
     fr_torrent_id = i, fr_size = f_Size f, fr_path = f_Path f\<rparr>]\<rparr>"
  have "tx_Exec drv (insert_file i f) c = (Inr (), c\<lparr>sc_calls := Suc (sc_calls c), sc_tx := Some ?d\<rparr>)"
    using Cons.prems by (intro smooth_ops(5)) (auto simp: insert_file_def)
  then show ?case
    using Cons.IH [of "c\<lparr>sc_calls := Suc (sc_calls c), sc_tx := Some ?d\<rparr>" ?d] Cons.prems
    by (simp add: bindL_def wrapL_def)
qed (simp add: ret_def)

lemma insert_files_committed: "keeps committed_same (insert_files drv i fs)"
  by (induction fs) (auto intro: keeps_committed)

lemma insert_torrent_ok:
  assumes "tables_ok d" and "insert_torrent h n sz now d = Inr (i, d')"
  shows "tables_ok d' \<and> 0 < i \<and> i \<in> set (map tr_id (sl_torrents d')) \<and> sqlite_contents d h = None
    \<and> i \<notin> set (map tr_id (sl_torrents d)) \<and> sl_files d' = sl_files d
    \<and> torrent_of d' = (torrent_of d)(h \<mapsto> \<lparr>tr_id = i, tr_info_hash = h, tr_name = n, tr_total_size = uint sz,
        tr_discovered_on = now, tr_updated_on = None, tr_modified_on = Some now\<rparr>)"
proof -
  from assms(2) have d': "h \<notin> set (map tr_info_hash (sl_torrents d))" "i = next_rowid (map tr_id (sl_torrents d))"
    "0 < uint sz" "uint sz < 2 ^ 63"
    "d' = d\<lparr>sl_torrents := sl_torrents d @ [\<lparr>tr_id = i, tr_info_hash = h, tr_name = n, tr_total_size = uint sz,
      tr_discovered_on = now, tr_updated_on = None, tr_modified_on = Some now\<rparr>]\<rparr>"
    by (auto simp: insert_torrent_def bind_uint64_def Let_def split: sum.splits if_splits)
  have f: "i \<notin> set (map tr_id (sl_torrents d))" using next_rowid_fresh d'(2) by metis
  have p: "0 < i" using assms(1) unfolding d'(2) by (intro next_rowid_pos) (auto simp: tables_ok_def)
  have "tables_ok d'" using assms(1) d'(1,3,4) f p by (auto simp: d'(5) tables_ok_def)
  moreover have "torrent_of d' = (torrent_of d)(h \<mapsto> \<lparr>tr_id = i, tr_info_hash = h, tr_name = n,
      tr_total_size = uint sz, tr_discovered_on = now, tr_updated_on = None, tr_modified_on = Some now\<rparr>)"
    using d'(1) torrent_of_snoc [of d "\<lparr>tr_id = i, tr_info_hash = h, tr_name = n, tr_total_size = uint sz,
      tr_discovered_on = now, tr_updated_on = None, tr_modified_on = Some now\<rparr>"]
    by (simp add: d'(5) torrent_of_None)
  ultimately show ?thesis using f p d'(1) by (auto simp: d'(5) sqlite_contents_def torrent_of_None)
qed

lemma inserted_contents:
  assumes "tables_ok d" and "insert_torrent h n sz now d = Inr (i, d')"
  shows "sqlite_contents (with_files i fs d') = (sqlite_contents d)(h \<mapsto> (n, fs))"
proof
  fix k
  note ins = insert_torrent_ok [OF assms]
  have "fr_torrent_id f \<noteq> i" if "f \<in> set (sl_files d)" for f
    using that ins assms(1) unfolding tables_ok_def by metis
  then have new: "map stored_file (files_of i d') = []"
    using ins by (simp add: files_of_def filter_empty_conv)
  have same: "tr_id t \<noteq> i" if "torrent_of d k = Some t" for t
    using that ins torrent_of_eq [OF assms(1)] by force
  have "torrent_of (with_files i fs d') = torrent_of d'" by (simp add: torrent_of_def fun_eq_iff)
  moreover have "files_of j d' = files_of j d" for j using ins by (simp add: files_of_def)
  ultimately show "sqlite_contents (with_files i fs d') k = ((sqlite_contents d)(h \<mapsto> (n, fs))) k"
    using new same ins by (cases "torrent_of d k") (auto simp: sqlite_contents_def with_files_of)
qed

subsection \<open>AddNewTorrent\<close>

lemma sqlite3_exists_eq:
  "tables_ok d \<Longrightarrow> map f (filter (\<lambda>t. tr_info_hash t = h) (sl_torrents d)) \<noteq> [] \<longleftrightarrow> sqlite_contents d h \<noteq> None"
  by (simp add: filter_info_hash sqlite_contents_def split: option.splits)

lemma DoesTorrentExist_committed: "keeps committed_same (sqlite3_DoesTorrentExist drv h)"
  unfolding sqlite3_DoesTorrentExist_def Let_def by (intro keeps_committed)

lemma DoesTorrentExist_tx:
  "sqlite3_DoesTorrentExist drv h c = (r, c') \<Longrightarrow> sc_tx c' = sc_tx c"
  by (auto simp: sqlite3_DoesTorrentExist_def bindL_def ret_def Let_def
      split: prod.splits sum.splits if_splits dest!: conn_Query_tx)

lemma DoesTorrentExist_sound:
  assumes "sqlite3_DoesTorrentExist drv h c = (Inr True, c')" and "tables_ok (sc_db c)"
  shows "sqlite_contents (sc_db c) h \<noteq> None"
proof -
  from assms(1) obtain rows c1 where q: "conn_Query drv (\<lambda>d. Inr (map (\<lambda>t. 1 :: int)
      (filter (\<lambda>t. tr_info_hash t = h) (sl_torrents d)))) c = (Inr rows, c1)" and "rs_rows rows \<noteq> []"
    by (auto simp: sqlite3_DoesTorrentExist_def bindL_Inr_iff Let_def ret_def split: if_splits)
  with conn_Query_Inr [OF q] have "filter (\<lambda>t. tr_info_hash t = h) (sl_torrents (sc_db c)) \<noteq> []"
    by (auto simp: fetch_def split: option.splits)
  with sqlite3_exists_eq [OF assms(2), of "\<lambda>t. t"] show ?thesis by simp
qed

lemma DoesTorrentExist_smooth:
  assumes "smooth drv (sc_calls c)" and "tables_ok (sc_db c)"
  shows "sqlite3_DoesTorrentExist drv h c
    = (Inr (sqlite_contents (sc_db c) h \<noteq> None), c\<lparr>sc_calls := Suc (sc_calls c)\<rparr>)"
  using sqlite3_exists_eq [OF assms(2), of "\<lambda>t. 1 :: int"]
  by (simp add: sqlite3_DoesTorrentExist_def bindL_def smooth_ops(2) [OF assms(1)] Let_def ret_def)

lemma sqlite3_insert_atomic: "atomic (sqlite3_insert drv h n fs)"
  unfolding sqlite3_insert_def
  by (intro atomic_bindL atomic_if atomic_wrapL atomic_Commit committed.keeps_wrapL insert_files_committed
      atomic_keeps committed.keeps_basic) (rule committed.keeps_at, use sql_committed(3) in blast)

lemma sqlite3_insert_Inr:
  assumes "sqlite3_insert drv h n fs c = (Inr u, c')" and "sc_tx c = Some d"
  shows "\<exists>now i d'. insert_torrent h n (total_size_of fs) now d = Inr (i, d')
    \<and> sc_db c' = with_files i fs d' \<and> sc_tx c' = None"
proof -
  from assms(1) obtain i c1 c2 where
    e: "tx_Exec drv (insert_torrent h n (total_size_of fs) (drv_now drv (sc_calls c))) c = (Inr i, c1)"
    and f: "insert_files drv i fs c1 = (Inr (), c2)" and k: "Commit drv c2 = (Inr (), c')"
    by (auto simp: sqlite3_insert_def bindL_Inr_iff raise_def split: if_splits)
  from tx_Exec_Inr [OF e] assms(2) obtain d' where
    i: "insert_torrent h n (total_size_of fs) (drv_now drv (sc_calls c)) d = Inr (i, d')"
    and "sc_tx c1 = Some d'" by auto
  from insert_files_Inr [OF f this(2)] Commit_Inr [OF k] have "sc_db c' = with_files i fs d' \<and> sc_tx c' = None"
    by auto
  with i show ?thesis by blast
qed

lemma AddNewTorrent_cases:
  assumes "sqlite3_AddNewTorrent drv h n fs c = (r, c')" and "sqlite_ok c"
  shows "sc_tx c' = None \<and> (sc_db c' = sc_db c \<or> r = Inr () \<and> (\<exists>now i d'.
    insert_torrent h n (total_size_of fs) now (sc_db c) = Inr (i, d') \<and> sc_db c' = with_files i fs d'))"
proof (rule guarded_transaction [where P = "\<lambda>q d. q = Inr () \<and> (\<exists>now i d'.
    insert_torrent h n (total_size_of fs) now (sc_db c) = Inr (i, d') \<and> d = with_files i fs d')"])
  fix c1 c2 :: "sqlite_db sql_conn" and q
  assume tx: "sc_tx c1 = Some (sc_db c)" and ins: "sqlite3_insert drv h n fs c1 = (q, c2)"
  show "sc_db c2 = sc_db c1 \<or> q = Inr () \<and> (\<exists>now i d'.
    insert_torrent h n (total_size_of fs) now (sc_db c) = Inr (i, d') \<and> sc_db c2 = with_files i fs d')"
  proof (cases q)
    case (Inl e)
    with ins sqlite3_insert_atomic show ?thesis by (auto simp: atomic_def)
  next
    case (Inr u)
    with ins have "sqlite3_insert drv h n fs c1 = (Inr u, c2)" by simp
    from sqlite3_insert_Inr [OF this tx] Inr show ?thesis by auto
  qed
qed (use assms in \<open>auto simp: sqlite3_AddNewTorrent_def sqlite_ok_def intro: DoesTorrentExist_committed DoesTorrentExist_tx\<close>)

lemma sqlite_add_ok:
  assumes "sqlite3_AddNewTorrent drv h n fs c = (r, c')" and "sqlite_ok c"
  shows "sqlite_ok c'"
  using AddNewTorrent_cases [OF assms] assms(2) insert_torrent_ok with_files_ok
  by (fastforce simp: sqlite_ok_def)

lemma sqlite_add_contents:
  assumes "sqlite3_AddNewTorrent drv h n fs c = (r, c')" and "sqlite_ok c"
  shows "sc_db c' = sc_db c \<or> r = Inr () \<and> sqlite_contents (sc_db c) h = None
    \<and> sqlite_contents (sc_db c') = (sqlite_contents (sc_db c))(h \<mapsto> (n, fs))"
  using AddNewTorrent_cases [OF assms] assms(2) insert_torrent_ok inserted_contents
  by (fastforce simp: sqlite_ok_def)

interpretation sqlite: torrent_store sqlite_ok "\<lambda>c. sqlite_contents (sc_db c)"
  "sqlite3_DoesTorrentExist drv" "sqlite3_AddNewTorrent drv" for drv
proof
  fix c c' :: "sqlite_db sql_conn" and h r
  assume "sqlite_ok c" and "sqlite3_DoesTorrentExist drv h c = (r, c')"
  then show "sqlite_ok c' \<and> sqlite_contents (sc_db c') = sqlite_contents (sc_db c)"
    using DoesTorrentExist_tx DoesTorrentExist_committed [THEN keepsD]
    by (fastforce simp: sqlite_ok_def committed_same_def)
qed (use sqlite_add_ok sqlite_add_contents DoesTorrentExist_sound in \<open>fastforce simp: sqlite_ok_def\<close>)+

subsection \<open>Reading back\<close>

lemma closed_rows: "closeRows (Inr rs) c = (Inr (), c)"
  by (simp add: closeRows_def ret_def)

lemma GetTorrent_smooth:
  assumes "smooth drv (sc_calls c)" and "tables_ok (sc_db c)"
  shows "sqlite3_GetTorrent drv h c = (Inr (map_option (\<lambda>t. \<lparr>tm_ID = 0, tm_InfoHash = h, tm_Name = tr_name t,
      tm_Size = of_int (tr_total_size t), tm_DiscoveredOn = tr_discovered_on t,
      tm_NFiles = of_nat (length (files_of (tr_id t) (sc_db c))), tm_Relevance = 0\<rparr>) (torrent_of (sc_db c) h)),
    c\<lparr>sc_calls := Suc (sc_calls c)\<rparr>)"
proof (cases "torrent_of (sc_db c) h")
  case None
  then show ?thesis
    by (simp add: sqlite3_GetTorrent_def bindL_def catchL_def smooth_ops(2) [OF assms(1)] deferL_def ret_def
        filter_info_hash [OF assms(2)] closed_rows)
next
  case (Some t)
  then have "0 < tr_total_size t" "tr_info_hash t = h"
    using assms(2) torrent_of_eq [OF assms(2)] by (auto simp: tables_ok_def)
  with Some show ?thesis
    by (simp add: sqlite3_GetTorrent_def bindL_def catchL_def smooth_ops(2) [OF assms(1)] deferL_def ret_def
        filter_info_hash [OF assms(2)] closed_rows liftL_def scan_uint64_def)
qed

lemma select_files_eq:
  assumes "tables_ok d"
  shows "select_files h d = (case torrent_of d h of None \<Rightarrow> [] | Some t \<Rightarrow> map stored_file (files_of (tr_id t) d))"
proof -
  have "filter (\<lambda>t. fr_torrent_id f = tr_id t \<and> tr_info_hash t = h) (sl_torrents d)
      = filter (\<lambda>t. fr_torrent_id f = tr_id t) (case torrent_of d h of None \<Rightarrow> [] | Some t \<Rightarrow> [t])" for f :: file_row
    unfolding filter_info_hash [OF assms, symmetric] by (simp add: conj_commute)
  then have "select_files h d = concat (map (\<lambda>f. case torrent_of d h of None \<Rightarrow> []
      | Some t \<Rightarrow> if fr_torrent_id f = tr_id t then [stored_file f] else []) (sl_files d))"
    by (auto simp: select_files_def stored_file_def split: option.split intro!: arg_cong [of _ _ concat])
  moreover have "concat (map (\<lambda>f. if fr_torrent_id f = i then [stored_file f] else []) fs)
      = map stored_file (filter (\<lambda>f. fr_torrent_id f = i) fs)" for i and fs :: "file_row list"
    by (induction fs) auto
  ultimately show ?thesis by (simp add: files_of_def split: option.split)
qed

lemma GetFiles_smooth:
  assumes "smooth drv (sc_calls c)" and "tables_ok (sc_db c)"
  shows "sqlite3_GetFiles drv h c = (Inr (case sqlite_contents (sc_db c) h of None \<Rightarrow> [] | Some (n, fs) \<Rightarrow> fs),
    c\<lparr>sc_calls := Suc (sc_calls c)\<rparr>)"
  by (cases "torrent_of (sc_db c) h") (simp_all add: sqlite3_GetFiles_def bindL_def catchL_def smooth_ops(2) [OF assms(1)]
      deferL_def ret_def closed_rows select_files_eq [OF assms(2)] sqlite_contents_def)

text \<open>What adding does when the driver does its part and the clock is in range.\<close>

definition clock_ok :: "sql_driver \<Rightarrow> bool" where
  "clock_ok drv \<longleftrightarrow> (\<forall>k. 0 < drv_now drv k \<and> drv_now drv k \<le> modified_on_default)"

lemma sqlite3_insert_smooth:
  assumes "smooth drv (sc_calls c)" and "clock_ok drv" and "tables_ok d" and "sc_tx c = Some d"
    and "total_size_of fs \<noteq> 0" and "uint (total_size_of fs) < 2 ^ 63" and "sqlite_contents d h = None"
  shows "\<exists>i d'. insert_torrent h n (total_size_of fs) (drv_now drv (sc_calls c)) d = Inr (i, d')
    \<and> sqlite3_insert drv h n fs c = (Inr (), c\<lparr>sc_calls := sc_calls c + length fs + 2,
        sc_db := with_files i fs d', sc_tx := None\<rparr>)"
proof -
  let ?now = "drv_now drv (sc_calls c)"
  have pos: "0 < uint (total_size_of fs)"
    using assms(5) by (simp add: uint_0_iff order_less_le)
  with assms(2,6,7) obtain i d' where i: "insert_torrent h n (total_size_of fs) ?now d = Inr (i, d')"
    by (auto simp: insert_torrent_def bind_uint64_def clock_ok_def sqlite_contents_def torrent_of_None Let_def)
  note ins = insert_torrent_ok [OF assms(3) i]
  let ?c1 = "c\<lparr>sc_calls := Suc (sc_calls c), sc_tx := Some d'\<rparr>"
  have s1: "smooth drv (sc_calls ?c1)" using assms(1) by simp
  have "tx_Exec drv (insert_torrent h n (total_size_of fs) ?now) c = (Inr i, ?c1)"
    using i assms(1,4) by (intro smooth_ops(5))
  moreover have "insert_files drv i fs ?c1
      = (Inr (), ?c1\<lparr>sc_calls := Suc (sc_calls c) + length fs, sc_tx := Some (with_files i fs d')\<rparr>)"
    using insert_files_smooth [OF s1, of d'] ins by simp
  moreover have "Commit drv (?c1\<lparr>sc_calls := Suc (sc_calls c) + length fs, sc_tx := Some (with_files i fs d')\<rparr>)
      = (Inr (), ?c1\<lparr>sc_calls := sc_calls c + length fs + 2, sc_db := with_files i fs d', sc_tx := None\<rparr>)"
    using smooth_ops(4) [of drv "?c1\<lparr>sc_calls := Suc (sc_calls c) + length fs, sc_tx := Some (with_files i fs d')\<rparr>"]
      smooth_le [OF assms(1), of "Suc (sc_calls c) + length fs"] by simp
  ultimately show ?thesis using i ins by (simp add: sqlite3_insert_def bindL_def wrapL_def)
qed

lemma AddNewTorrent_smooth:
  assumes "smooth drv (sc_calls c)" and "clock_ok drv" and "sqlite_ok c"
    and "total_size_of fs \<noteq> 0" and "uint (total_size_of fs) < 2 ^ 63" and "sqlite_contents (sc_db c) h = None"
  shows "\<exists>i d' c'. insert_torrent h n (total_size_of fs) (drv_now drv (sc_calls c + 2)) (sc_db c) = Inr (i, d')
    \<and> sqlite3_AddNewTorrent drv h n fs c = (Inr (), c') \<and> sc_db c' = with_files i fs d'
    \<and> sc_calls c' = sc_calls c + length fs + 4 \<and> sc_tx c' = None"
proof -
  let ?c1 = "c\<lparr>sc_calls := Suc (sc_calls c), sc_tx := Some (sc_db c)\<rparr>"
  let ?c2 = "c\<lparr>sc_calls := Suc (Suc (sc_calls c)), sc_tx := Some (sc_db c)\<rparr>"
  have e: "sqlite3_DoesTorrentExist drv h ?c1 = (Inr False, ?c2)"
    using DoesTorrentExist_smooth [of drv ?c1] assms(1,3,6) by (simp add: sqlite_ok_def)
  from sqlite3_insert_smooth [of drv ?c2 "sc_db c" fs h n] assms obtain i d' where
    i: "insert_torrent h n (total_size_of fs) (drv_now drv (sc_calls c + 2)) (sc_db c) = Inr (i, d')"
    "sqlite3_insert drv h n fs ?c2 = (Inr (), ?c2\<lparr>sc_calls := sc_calls c + 2 + length fs + 2,
        sc_db := with_files i fs d', sc_tx := None\<rparr>)"
    by (auto simp: sqlite_ok_def)
  have "sqlite3_AddNewTorrent drv h n fs c = (Inr (), ?c2\<lparr>sc_calls := sc_calls c + 2 + length fs + 2,
        sc_db := with_files i fs d', sc_tx := None\<rparr>)"
    using smooth_ops(1) [OF assms(1)] e i(2) assms(4)
    by (simp add: sqlite3_AddNewTorrent_def bindL_def wrapL_def deferL_def Rollback_def)
  with i(1) show ?thesis by auto
qed

subsection \<open>Properties\<close>

text \<open>C5: adding a torrent is atomic and refines the insertion into a map, whatever the driver does.  The
  constraints of the tables are kept and no transaction stays open; after an error the tables are what
  they were; after success they are what they were, or there was no torrent of that infohash and now
  there is one with exactly the given name and files, all others unchanged.  Asking whether a torrent
  exists changes nothing, and the answer yes is right.\<close>

theorem sqlite3_add_refines:
  assumes "sqlite_ok c"
  shows "(case sqlite3_AddNewTorrent drv h n fs c of (r, c') \<Rightarrow> sqlite_ok c'
     \<and> (case r of Inl e \<Rightarrow> sc_db c' = sc_db c
        | Inr _ \<Rightarrow> sc_db c' = sc_db c \<or> sqlite_contents (sc_db c) h = None
            \<and> sqlite_contents (sc_db c') = (sqlite_contents (sc_db c))(h \<mapsto> (n, fs))))
   \<and> (case sqlite3_DoesTorrentExist drv h c of (r, c') \<Rightarrow> sqlite_ok c' \<and> sc_db c' = sc_db c
     \<and> (if r = Inr True then sqlite_contents (sc_db c) h \<noteq> None else True))"
proof
  obtain r c' where a: "sqlite3_AddNewTorrent drv h n fs c = (r, c')" by fastforce
  with sqlite_add_ok [OF a assms] sqlite_add_contents [OF a assms]
  show "case sqlite3_AddNewTorrent drv h n fs c of (r, c') \<Rightarrow> sqlite_ok c'
     \<and> (case r of Inl e \<Rightarrow> sc_db c' = sc_db c
        | Inr _ \<Rightarrow> sc_db c' = sc_db c \<or> sqlite_contents (sc_db c) h = None
            \<and> sqlite_contents (sc_db c') = (sqlite_contents (sc_db c))(h \<mapsto> (n, fs)))"
    by (cases r) auto
next
  obtain q c'' where e: "sqlite3_DoesTorrentExist drv h c = (q, c'')" by fastforce
  have "sc_db c'' = sc_db c" using e DoesTorrentExist_committed [THEN keepsD] by (auto simp: committed_same_def)
  with e sqlite.exists_keeps [OF assms e] sqlite.exists_sound [OF assms]
  show "case sqlite3_DoesTorrentExist drv h c of (r, c') \<Rightarrow> sqlite_ok c' \<and> sc_db c' = sc_db c
     \<and> (if r = Inr True then sqlite_contents (sc_db c) h \<noteq> None else True)"
    by auto
qed

text \<open>A driver that serves its first three calls and fails from then on, and an empty database.\<close>

definition failing_driver :: sql_driver where
  "failing_driver = \<lparr>drv_fail = (\<lambda>k. if k < 3 then None else Some ''disk I/O error''),
     drv_break = (\<lambda>_. None), drv_now = (\<lambda>k. 1600000000)\<rparr>"

definition steady_driver :: sql_driver where
  "steady_driver = failing_driver\<lparr>drv_fail := (\<lambda>k. None)\<rparr>"

definition empty_db :: sqlite_db where
  "empty_db = \<lparr>sl_version = 3, sl_objects = [], sl_torrents_cols = [], sl_files_cols = [], sl_torrents = [],
     sl_files = []\<rparr>"

definition fresh_conn :: "sqlite_db sql_conn" where
  "fresh_conn = \<lparr>sc_db = empty_db, sc_tx = None, sc_calls = 0\<rparr>"

definition demo_files :: "File list" where
  "demo_files = [\<lparr>f_Size = 700, f_Path = ''a.iso''\<rparr>, \<lparr>f_Size = 24, f_Path = ''read.me''\<rparr>]"

lemma fresh_conn_ok: "sqlite_ok fresh_conn"
  by (simp add: sqlite_ok_def fresh_conn_def empty_db_def tables_ok_def)

theorem sqlite3_add_refines_witness:
  "sqlite_ok fresh_conn
   \<and> (case sqlite3_AddNewTorrent failing_driver [1] ''x'' demo_files fresh_conn of
        (r, c') \<Rightarrow> r = Inl (Err ''tx.Exec (INSERT INTO files): disk I/O error'') \<and> sc_db c' = empty_db)"
proof -
  have "fst (sqlite3_AddNewTorrent failing_driver [1] ''x'' demo_files fresh_conn)
      = Inl (Err ''tx.Exec (INSERT INTO files): disk I/O error'')"
    by (simp add: sqlite3_AddNewTorrent_def sqlite3_insert_def sqlite3_DoesTorrentExist_def fresh_conn_def
        demo_files_def total_size_of_def bindL_def wrapL_def deferL_def Begin_def driver_call_def failing_driver_def
        Rollback_def conn_Query_def tx_Exec_def insert_torrent_def bind_uint64_def ret_def fetch_def empty_db_def
        next_rowid_def modified_on_default_def Let_def)
  with sqlite3_add_refines [where drv = failing_driver and h = "[1]" and n = "''x''" and fs = demo_files, OF fresh_conn_ok] fresh_conn_ok
  show ?thesis by (auto simp: fresh_conn_def split: prod.splits)
qed

text \<open>C19: a torrent that is not in the database and whose total size, computed with 64-bit wrap-around, is
  neither zero nor 2^63 or more can be read back after it was added, as long as the driver does its part: it exists, has the name, size
  and number of files given, the time of the insertion, and exactly the given files in their order.\<close>

theorem sqlite3_roundtrip:
  assumes "sqlite_ok c" and "smooth drv (sc_calls c)" and "clock_ok drv"
    and "total_size_of fs \<noteq> 0" and "uint (total_size_of fs) < 2 ^ 63"
    and "sqlite_contents (sc_db c) h = None"
  shows "\<exists>c'. sqlite3_AddNewTorrent drv h n fs c = (Inr (), c')
     \<and> fst (sqlite3_DoesTorrentExist drv h c') = Inr True
     \<and> fst (sqlite3_GetTorrent drv h c') = Inr (Some \<lparr>tm_ID = 0, tm_InfoHash = h, tm_Name = n,
          tm_Size = total_size_of fs, tm_DiscoveredOn = drv_now drv (sc_calls c + 2),
          tm_NFiles = of_nat (length fs), tm_Relevance = 0\<rparr>)
     \<and> fst (sqlite3_GetFiles drv h c') = Inr fs"
proof -
  from AddNewTorrent_smooth [OF assms(2,3,1,4,5,6), of n] obtain i d' c' where
    i: "insert_torrent h n (total_size_of fs) (drv_now drv (sc_calls c + 2)) (sc_db c) = Inr (i, d')"
    and a: "sqlite3_AddNewTorrent drv h n fs c = (Inr (), c')" and db: "sc_db c' = with_files i fs d'"
    and k: "sc_calls c' = sc_calls c + length fs + 4" by blast
  have ok: "tables_ok (sc_db c')" using sqlite_add_ok [OF a assms(1)] by (simp add: sqlite_ok_def)
  have sm: "smooth drv (sc_calls c')" using assms(2) k smooth_le by simp
  have t: "tables_ok (sc_db c)" using assms(1) by (simp add: sqlite_ok_def)
  have c: "sqlite_contents (sc_db c') h = Some (n, fs)"
    using inserted_contents [OF t i] by (simp add: db)
  have "torrent_of (sc_db c') h = torrent_of d' h" by (simp add: torrent_of_def db)
  then have "torrent_of (sc_db c') h = Some \<lparr>tr_id = i, tr_info_hash = h, tr_name = n,
      tr_total_size = uint (total_size_of fs), tr_discovered_on = drv_now drv (sc_calls c + 2),
      tr_updated_on = None, tr_modified_on = Some (drv_now drv (sc_calls c + 2))\<rparr>"
    using insert_torrent_ok [OF t i] by simp
  moreover from this c have "length (files_of i (sc_db c')) = length fs"
    by (auto simp: sqlite_contents_def dest: arg_cong [of _ _ length])
  ultimately show ?thesis
    using a c DoesTorrentExist_smooth [OF sm ok] GetTorrent_smooth [OF sm ok, of h] GetFiles_smooth [OF sm ok, of h]
    by simp
qed

theorem sqlite3_roundtrip_witness:
  "\<exists>c'. sqlite3_AddNewTorrent steady_driver [1] ''x'' demo_files fresh_conn = (Inr (), c')
     \<and> fst (sqlite3_GetFiles steady_driver [1] c') = Inr demo_files"
proof -
  have "smooth steady_driver (sc_calls fresh_conn)" "clock_ok steady_driver"
    by (simp_all add: smooth_def clock_ok_def steady_driver_def failing_driver_def modified_on_default_def)
  moreover have "total_size_of demo_files \<noteq> 0" "uint (total_size_of demo_files) < 2 ^ 63"
    "sqlite_contents (sc_db fresh_conn) [1] = None"
    by (simp_all add: total_size_of_def demo_files_def sqlite_contents_def torrent_of_def fresh_conn_def empty_db_def)
  ultimately show ?thesis using sqlite3_roundtrip [OF fresh_conn_ok] by blast
qed

end
