(* ===== verification/ISO8601.thy ===== *)
theory ISO8601
  imports Prelude
begin

text \<open>
  The date parser of \<open>pkg/persistence/iso8601.go\<close>.  Its regular expressions are sequences of fixed runs
  of digits and literal characters, anchored at both ends, for which matching is deterministic; a
  match yields the runs of digits.  A \<open>time.Time\<close> in UTC is its number of seconds since 1 January
  1970, and \<open>Date\<close> is \<open>time.Date\<close> of the standard library, which accepts days, hours, minutes and
  seconds outside their usual ranges.
\<close>

subsection \<open>Regular expressions\<close>

datatype pat = Digits nat | Lit char

definition is_dig :: "char \<Rightarrow> bool" where
  "is_dig c \<longleftrightarrow> c \<in> set ''0123456789''"

fun submatches :: "pat list \<Rightarrow> string \<Rightarrow> string list option" where
  "submatches [] s = (if s = [] then Some [] else None)"
| "submatches (Digits n # ps) s =
     (if n \<le> length s \<and> list_all is_dig (take n s)
      then map_option ((#) (take n s)) (submatches ps (drop n s)) else None)"
| "submatches (Lit c # ps) s =
     (case s of [] \<Rightarrow> None | x # xs \<Rightarrow> if x = c then submatches ps xs else None)"

definition yearRE :: "pat list" where
  "yearRE = [Digits 4]"

definition monthRE :: "pat list" where
  "monthRE = [Digits 4, Lit CHR ''-'', Digits 2]"

definition weekRE :: "pat list" where
  "weekRE = [Digits 4, Lit CHR ''-'', Lit CHR ''W'', Digits 2]"

definition dayRE :: "pat list" where
  "dayRE = [Digits 4, Lit CHR ''-'', Digits 2, Lit CHR ''-'', Digits 2]"

definition hourRE :: "pat list" where
  "hourRE = [Digits 4, Lit CHR ''-'', Digits 2, Lit CHR ''-'', Digits 2, Lit CHR ''T'', Digits 2]"

subsection \<open>Numbers and ranges\<close>

text \<open>\<open>strconv.Atoi\<close> on a string without a sign; a character that is no digit is its error.\<close>

fun atoi_from :: "int \<Rightarrow> string \<Rightarrow> int option" where
  "atoi_from n [] = Some n"
| "atoi_from n (c # s) = (if is_dig c then atoi_from (10 * n + (of_char c - 48)) s else None)"

definition atoi :: "string \<Rightarrow> go_error + int" where
  "atoi s = (case (if s = [] then None else atoi_from 0 s) of
     None \<Rightarrow> Inl (Panic ''invalid syntax'') | Some i \<Rightarrow> Inr i)"

definition parse_range :: "(int \<Rightarrow> bool) \<Rightarrow> string \<Rightarrow> string \<Rightarrow> go_error + int" where
  "parse_range bad message s =
     bindE (atoi s) (\<lambda>i. if bad i then Inl (Err message) else Inr i)"

definition parseYear :: "string \<Rightarrow> go_error + int" where
  "parseYear = parse_range (\<lambda>year. year \<le> 1583) ''years before 1583 are not allowed''"

definition parseMonth :: "string \<Rightarrow> go_error + int" where
  "parseMonth = parse_range (\<lambda>month. month \<le> 0 \<or> month \<ge> 13) ''month is not in range [01, 12]''"

definition parseWeek :: "string \<Rightarrow> go_error + int" where
  "parseWeek = parse_range (\<lambda>week. week \<le> 0 \<or> week \<ge> 54) ''week is not in range [01, 53]''"

definition parseDay :: "string \<Rightarrow> int \<Rightarrow> go_error + int" where
  "parseDay s m = parse_range (\<lambda>day. day \<le> 0 \<or> day > m) ''day is not in range'' s"

definition parseHour :: "string \<Rightarrow> go_error + int" where
  "parseHour = parse_range (\<lambda>hour. hour \<le> -1 \<or> hour \<ge> 25) ''hour is not in range [00, 24]''"

definition isLeap :: "int \<Rightarrow> bool" where
  "isLeap year =
     (if year mod 4 \<noteq> 0 then False
      else if year mod 100 \<noteq> 0 then True
      else if year mod 400 \<noteq> 0 then False
      else True)"

definition daysOfMonth :: "int \<Rightarrow> int \<Rightarrow> go_error + int" where
  "daysOfMonth month year =
     (if month = 1 then Inr 31
      else if month = 2 then (if isLeap year then Inr 29 else Inr 28)
      else if month = 3 then Inr 31
      else if month = 4 then Inr 30
      else if month = 5 then Inr 31
      else if month = 6 then Inr 30
      else if month = 7 then Inr 31
      else if month = 8 then Inr 31
      else if month = 9 then Inr 30
      else if month = 10 then Inr 31
      else if month = 11 then Inr 30
      else if month = 12 then Inr 31
      else Inl (Panic ''invalid month!''))"

subsection \<open>Package time\<close>

text \<open>The table \<open>daysBefore\<close> of package time, and its own test for leap years.\<close>

definition daysBefore :: "int list" where
  "daysBefore = [0, 31, 59, 90, 120, 151, 181, 212, 243, 273, 304, 334, 365]"

definition leap :: "int \<Rightarrow> bool" where
  "leap year \<longleftrightarrow> year mod 4 = 0 \<and> (year mod 100 \<noteq> 0 \<or> year mod 400 = 0)"

text \<open>The days from 1 January of the year 1 to 1 January of the given year.\<close>

definition days_to_year :: "int \<Rightarrow> int" where
  "days_to_year year =
     (let y = year - 1 in 365 * y + y div 4 - y div 100 + y div 400)"

definition Date :: "int \<Rightarrow> int \<Rightarrow> int \<Rightarrow> int \<Rightarrow> int \<Rightarrow> int \<Rightarrow> int" where
  "Date year month day hour minute second =
     (let y = year + (month - 1) div 12; m = (month - 1) mod 12 + 1;
          d = days_to_year y - days_to_year 1970 + daysBefore ! nat (m - 1)
            + (if leap y \<and> m \<ge> 3 then 1 else 0) + day - 1
      in d * 86400 + hour * 3600 + minute * 60 + second)"

subsection \<open>The parser\<close>

datatype Granularity = Year | Month | Week | Day | Hour

definition iso_year :: "string list \<Rightarrow> go_error + int \<times> Granularity" where
  "iso_year matches =
     bindE (parseYear (matches ! 0)) (\<lambda>year.
     bindE (daysOfMonth 12 year) (\<lambda>days.
     Inr (Date year 12 days 23 59 59, Year)))"

definition iso_month :: "string list \<Rightarrow> go_error + int \<times> Granularity" where
  "iso_month matches =
     bindE (parseMonth (matches ! 1)) (\<lambda>month.
     bindE (parseYear (matches ! 0)) (\<lambda>year.
     Inr (Date year month 31 23 59 59, Month)))"

definition iso_week :: "string list \<Rightarrow> go_error + int \<times> Granularity" where
  "iso_week matches =
     bindE (parseWeek (matches ! 1)) (\<lambda>week.
     bindE (parseYear (matches ! 0)) (\<lambda>year.
     Inr (Date year 1 (week * 7) 23 59 59, Week)))"

definition iso_day :: "string list \<Rightarrow> go_error + int \<times> Granularity" where
  "iso_day matches =
     bindE (parseMonth (matches ! 1)) (\<lambda>month.
     bindE (parseYear (matches ! 0)) (\<lambda>year.
     bindE (daysOfMonth month year) (\<lambda>days.
     bindE (parseDay (matches ! 2) days) (\<lambda>day.
     Inr (Date year month day 23 59 59, Day)))))"

definition iso_hour :: "string list \<Rightarrow> go_error + int \<times> Granularity" where
  "iso_hour matches =
     bindE (parseMonth (matches ! 1)) (\<lambda>month.
     bindE (parseYear (matches ! 0)) (\<lambda>year.
     bindE (parseHour (matches ! 3)) (\<lambda>hour.
     bindE (daysOfMonth month year) (\<lambda>days.
     bindE (parseDay (matches ! 2) days) (\<lambda>day.
     Inr (Date year month day hour 59 59, Hour))))))"

definition ParseISO8601 :: "string \<Rightarrow> go_error + int \<times> Granularity" where
  "ParseISO8601 s =
     (case submatches yearRE s of Some matches \<Rightarrow> iso_year matches
      | None \<Rightarrow>
     (case submatches monthRE s of Some matches \<Rightarrow> iso_month matches
      | None \<Rightarrow>
     (case submatches weekRE s of Some matches \<Rightarrow> iso_week matches
      | None \<Rightarrow>
     (case submatches dayRE s of Some matches \<Rightarrow> iso_day matches
      | None \<Rightarrow>
     (case submatches hourRE s of Some matches \<Rightarrow> iso_hour matches
      | None \<Rightarrow> Inl (Err ''string does not match any formats''))))))"

subsection \<open>Matching\<close>

definition digits :: "nat \<Rightarrow> string \<Rightarrow> bool" where
  "digits n s \<longleftrightarrow> length s = n \<and> list_all is_dig s"

text \<open>What a pattern matches: the runs of digits that fill it, and the string they make.\<close>

fun fits :: "pat list \<Rightarrow> string list \<Rightarrow> bool" where
  "fits [] ms \<longleftrightarrow> ms = []"
| "fits (Digits n # ps) ms \<longleftrightarrow> (case ms of [] \<Rightarrow> False | m # ms \<Rightarrow> digits n m \<and> fits ps ms)"
| "fits (Lit c # ps) ms \<longleftrightarrow> fits ps ms"

fun spell :: "pat list \<Rightarrow> string list \<Rightarrow> string" where
  "spell [] ms = []"
| "spell (Digits n # ps) ms = hd ms @ spell ps (tl ms)"
| "spell (Lit c # ps) ms = c # spell ps ms"

lemma submatches_iff: "submatches ps s = Some ms \<longleftrightarrow> fits ps ms \<and> s = spell ps ms"
proof (induction ps arbitrary: s ms)
  case (Cons p ps)
  show ?case
  proof (cases p)
    case (Digits n)
    have "take n (m @ r) = m \<and> drop n (m @ r) = r" if "digits n m" for m r
      using that by (simp add: digits_def)
    moreover have "s = take n s @ drop n s" by simp
    ultimately show ?thesis
      using Cons.IH Digits
      by (cases ms) (auto simp: digits_def min_def, metis append_take_drop_id)
  next
    case (Lit c)
    with Cons.IH show ?thesis by (cases s) auto
  qed
qed auto

fun width :: "pat list \<Rightarrow> nat" where
  "width [] = 0"
| "width (Digits n # ps) = n + width ps"
| "width (Lit c # ps) = Suc (width ps)"

lemma length_spell: "fits ps ms \<Longrightarrow> length (spell ps ms) = width ps"
  by (induction ps ms rule: spell.induct) (auto simp: digits_def split: list.splits)

lemma submatches_width: "length s \<noteq> width ps \<Longrightarrow> submatches ps s = None"
  using submatches_iff length_spell by (metis not_None_eq)

lemmas pattern_defs = yearRE_def monthRE_def weekRE_def dayRE_def hourRE_def

lemma widths: "width yearRE = 4" "width monthRE = 7" "width weekRE = 8" "width dayRE = 10" "width hourRE = 13"
  by (simp_all add: pattern_defs)

definition val :: "string \<Rightarrow> int" where
  "val s = the (atoi_from 0 s)"

lemma atoi_digits:
  assumes "digits (Suc n) s"
  shows "atoi s = Inr (val s)" and "0 \<le> val s"
proof -
  have "\<exists>m \<ge> 0. atoi_from k s = Some m" if "list_all is_dig s" "0 \<le> k" for s k
    using that
  proof (induction s arbitrary: k)
    case (Cons c s)
    from Cons.prems have "(of_char c :: int) \<ge> 48" by (auto simp: is_dig_def)
    with Cons show ?case by simp
  qed simp
  from this [of s 0] assms show "atoi s = Inr (val s)" "0 \<le> val s"
    by (auto simp: atoi_def val_def digits_def)
qed

text \<open>The five forms have different lengths, so the order of the tests does not matter.\<close>

lemma ParseISO8601_forms:
  "fits yearRE ms \<Longrightarrow> ParseISO8601 (spell yearRE ms) = iso_year ms"
  "fits monthRE ms \<Longrightarrow> ParseISO8601 (spell monthRE ms) = iso_month ms"
  "fits weekRE ms \<Longrightarrow> ParseISO8601 (spell weekRE ms) = iso_week ms"
  "fits dayRE ms \<Longrightarrow> ParseISO8601 (spell dayRE ms) = iso_day ms"
  "fits hourRE ms \<Longrightarrow> ParseISO8601 (spell hourRE ms) = iso_hour ms"
proof -
  have m: "fits ps ms \<Longrightarrow> submatches ps (spell ps ms) = Some ms" for ps
    by (simp add: submatches_iff)
  have n: "fits ps ms \<Longrightarrow> width ps \<noteq> width qs \<Longrightarrow> submatches qs (spell ps ms) = None" for ps qs
    by (rule submatches_width) (simp add: length_spell)
  show "fits yearRE ms \<Longrightarrow> ParseISO8601 (spell yearRE ms) = iso_year ms"
    by (simp add: ParseISO8601_def m)
  show "fits monthRE ms \<Longrightarrow> ParseISO8601 (spell monthRE ms) = iso_month ms"
    by (simp add: ParseISO8601_def m n widths)
  show "fits weekRE ms \<Longrightarrow> ParseISO8601 (spell weekRE ms) = iso_week ms"
    by (simp add: ParseISO8601_def m n widths)
  show "fits dayRE ms \<Longrightarrow> ParseISO8601 (spell dayRE ms) = iso_day ms"
    by (simp add: ParseISO8601_def m n widths)
  show "fits hourRE ms \<Longrightarrow> ParseISO8601 (spell hourRE ms) = iso_hour ms"
    by (simp add: ParseISO8601_def m n widths)
qed

lemma ParseISO8601_cases:
  obtains (year) ms where "fits yearRE ms" "s = spell yearRE ms"
  | (month) ms where "fits monthRE ms" "s = spell monthRE ms"
  | (week) ms where "fits weekRE ms" "s = spell weekRE ms"
  | (day) ms where "fits dayRE ms" "s = spell dayRE ms"
  | (hour) ms where "fits hourRE ms" "s = spell hourRE ms"
  | (other) "ParseISO8601 s = Inl (Err ''string does not match any formats'')"
proof (cases "\<exists>ps \<in> {yearRE, monthRE, weekRE, dayRE, hourRE}. \<exists>ms. submatches ps s = Some ms")
  case True
  then show ?thesis by (auto simp: submatches_iff intro: that)
next
  case False
  then have "ParseISO8601 s = Inl (Err ''string does not match any formats'')"
    by (simp add: ParseISO8601_def)
  then show ?thesis by (rule other)
qed

lemma fits_forms:
  "fits yearRE ms \<longleftrightarrow> (\<exists>Y. ms = [Y] \<and> digits 4 Y)"
  "fits monthRE ms \<longleftrightarrow> (\<exists>Y M. ms = [Y, M] \<and> digits 4 Y \<and> digits 2 M)"
  "fits weekRE ms \<longleftrightarrow> (\<exists>Y W. ms = [Y, W] \<and> digits 4 Y \<and> digits 2 W)"
  "fits dayRE ms \<longleftrightarrow> (\<exists>Y M D. ms = [Y, M, D] \<and> digits 4 Y \<and> digits 2 M \<and> digits 2 D)"
  "fits hourRE ms \<longleftrightarrow>
     (\<exists>Y M D H. ms = [Y, M, D, H] \<and> digits 4 Y \<and> digits 2 M \<and> digits 2 D \<and> digits 2 H)"
  by (auto simp: pattern_defs split: list.splits)

lemma spell_forms:
  "spell yearRE [Y] = Y"
  "spell monthRE [Y, M] = Y @ ''-'' @ M"
  "spell weekRE [Y, M] = Y @ ''-W'' @ M"
  "spell dayRE [Y, M, D] = Y @ ''-'' @ M @ ''-'' @ D"
  "spell hourRE [Y, M, D, H] = Y @ ''-'' @ M @ ''-'' @ D @ ''T'' @ H"
  by (simp_all add: pattern_defs)

lemma parse_range_digits:
  "digits (Suc n) s \<Longrightarrow>
   parse_range bad message s = (if bad (val s) then Inl (Err message) else Inr (val s))"
  by (simp add: parse_range_def atoi_digits)

lemmas parse_defs = parseYear_def parseMonth_def parseWeek_def parseDay_def parseHour_def

lemma digits_42: "digits 4 s \<Longrightarrow> digits (Suc 3) s" "digits 2 s \<Longrightarrow> digits (Suc 1) s"
  by (simp_all add: numeral_eq_Suc)

lemma daysOfMonth_Inr: "1 \<le> month \<Longrightarrow> month \<le> 12 \<Longrightarrow> \<exists>n. daysOfMonth month year = Inr n"
  unfolding daysOfMonth_def by (smt (verit))

definition in_year :: "string \<Rightarrow> bool" where
  "in_year Y \<longleftrightarrow> digits 4 Y \<and> 1583 < val Y"

definition in_month :: "string \<Rightarrow> bool" where
  "in_month M \<longleftrightarrow> digits 2 M \<and> 1 \<le> val M \<and> val M \<le> 12"

definition in_day :: "string \<Rightarrow> string \<Rightarrow> string \<Rightarrow> bool" where
  "in_day Y M D \<longleftrightarrow> digits 2 D \<and> 1 \<le> val D \<and> (\<exists>n. daysOfMonth (val M) (val Y) = Inr n \<and> val D \<le> n)"

lemma parse_fields:
  "digits 4 Y \<Longrightarrow> parseYear Y = (if in_year Y then Inr (val Y) else Inl (Err ''years before 1583 are not allowed''))"
  "digits 2 M \<Longrightarrow> parseMonth M = (if in_month M then Inr (val M) else Inl (Err ''month is not in range [01, 12]''))"
  "digits 2 M \<Longrightarrow> parseWeek M = (if 1 \<le> val M \<and> val M \<le> 53 then Inr (val M) else Inl (Err ''week is not in range [01, 53]''))"
  "digits 2 M \<Longrightarrow> parseHour M = (if val M \<le> 24 then Inr (val M) else Inl (Err ''hour is not in range [00, 24]''))"
  "digits 2 D \<Longrightarrow> parseDay D n = (if 1 \<le> val D \<and> val D \<le> n then Inr (val D) else Inl (Err ''day is not in range''))"
  using atoi_digits(2) [OF digits_42(2), of M]
  by (auto simp: parse_defs parse_range_digits [OF digits_42(1)] parse_range_digits [OF digits_42(2)]
      in_year_def in_month_def)

subsection \<open>Accepted dates\<close>

text \<open>The result of each form, for fields that are digits.\<close>

lemma iso_results:
  "digits 4 Y \<Longrightarrow> iso_year [Y] = Inr r \<longleftrightarrow> in_year Y \<and> r = (Date (val Y) 12 31 23 59 59, Year)"
  "digits 4 Y \<Longrightarrow> digits 2 M \<Longrightarrow> iso_month [Y, M] = Inr r \<longleftrightarrow>
     in_year Y \<and> in_month M \<and> r = (Date (val Y) (val M) 31 23 59 59, Month)"
  "digits 4 Y \<Longrightarrow> digits 2 M \<Longrightarrow> iso_week [Y, M] = Inr r \<longleftrightarrow>
     in_year Y \<and> 1 \<le> val M \<and> val M \<le> 53 \<and> r = (Date (val Y) 1 (val M * 7) 23 59 59, Week)"
  "digits 4 Y \<Longrightarrow> digits 2 M \<Longrightarrow> digits 2 D \<Longrightarrow> iso_day [Y, M, D] = Inr r \<longleftrightarrow>
     in_year Y \<and> in_month M \<and> in_day Y M D \<and> r = (Date (val Y) (val M) (val D) 23 59 59, Day)"
  "digits 4 Y \<Longrightarrow> digits 2 M \<Longrightarrow> digits 2 D \<Longrightarrow> digits 2 H \<Longrightarrow> iso_hour [Y, M, D, H] = Inr r \<longleftrightarrow>
     in_year Y \<and> in_month M \<and> in_day Y M D \<and> val H \<le> 24
     \<and> r = (Date (val Y) (val M) (val D) (val H) 59 59, Hour)"
  by (auto simp: iso_year_def iso_month_def iso_week_def iso_day_def iso_hour_def parse_fields bindE_Inr_iff
      in_day_def daysOfMonth_def [of 12] split: if_splits)

text \<open>The grammar of the accepted strings, with the time each of them stands for.\<close>

inductive iso_date :: "string \<Rightarrow> int \<times> Granularity \<Rightarrow> bool" where
  year: "in_year Y \<Longrightarrow> iso_date Y (Date (val Y) 12 31 23 59 59, Year)"
| month: "in_year Y \<Longrightarrow> in_month M \<Longrightarrow>
     iso_date (Y @ ''-'' @ M) (Date (val Y) (val M) 31 23 59 59, Month)"
| week: "in_year Y \<Longrightarrow> digits 2 W \<Longrightarrow> 1 \<le> val W \<Longrightarrow> val W \<le> 53 \<Longrightarrow>
     iso_date (Y @ ''-W'' @ W) (Date (val Y) 1 (val W * 7) 23 59 59, Week)"
| day: "in_year Y \<Longrightarrow> in_month M \<Longrightarrow> in_day Y M D \<Longrightarrow>
     iso_date (Y @ ''-'' @ M @ ''-'' @ D) (Date (val Y) (val M) (val D) 23 59 59, Day)"
| hour: "in_year Y \<Longrightarrow> in_month M \<Longrightarrow> in_day Y M D \<Longrightarrow> digits 2 H \<Longrightarrow> val H \<le> 24 \<Longrightarrow>
     iso_date (Y @ ''-'' @ M @ ''-'' @ D @ ''T'' @ H) (Date (val Y) (val M) (val D) (val H) 59 59, Hour)"

lemma in_digits:
  "in_year Y \<Longrightarrow> digits 4 Y" "in_month M \<Longrightarrow> digits 2 M" "in_day Y M D \<Longrightarrow> digits 2 D"
  by (simp_all add: in_year_def in_month_def in_day_def)

lemma ParseISO8601_eq:
  "digits 4 Y \<Longrightarrow> ParseISO8601 Y = iso_year [Y]"
  "digits 4 Y \<Longrightarrow> digits 2 M \<Longrightarrow> ParseISO8601 (Y @ ''-'' @ M) = iso_month [Y, M]"
  "digits 4 Y \<Longrightarrow> digits 2 M \<Longrightarrow> ParseISO8601 (Y @ ''-W'' @ M) = iso_week [Y, M]"
  "digits 4 Y \<Longrightarrow> digits 2 M \<Longrightarrow> digits 2 D \<Longrightarrow> ParseISO8601 (Y @ ''-'' @ M @ ''-'' @ D) = iso_day [Y, M, D]"
  "digits 4 Y \<Longrightarrow> digits 2 M \<Longrightarrow> digits 2 D \<Longrightarrow> digits 2 H \<Longrightarrow>
     ParseISO8601 (Y @ ''-'' @ M @ ''-'' @ D @ ''T'' @ H) = iso_hour [Y, M, D, H]"
  using ParseISO8601_forms(1) [of "[Y]"] ParseISO8601_forms(2,3) [of "[Y, M]"]
    ParseISO8601_forms(4) [of "[Y, M, D]"] ParseISO8601_forms(5) [of "[Y, M, D, H]"]
  unfolding fits_forms spell_forms by simp_all

lemma iso_date_complete: "iso_date s r \<Longrightarrow> ParseISO8601 s = Inr r"
proof (induction rule: iso_date.induct)
  case (year Y)
  then show ?case by (simp only: ParseISO8601_eq in_digits iso_results)
next
  case (month Y M)
  then show ?case by (simp only: ParseISO8601_eq in_digits iso_results)
next
  case (week Y W)
  then show ?case by (simp only: ParseISO8601_eq in_digits iso_results)
next
  case (day Y M D)
  then show ?case by (simp only: ParseISO8601_eq in_digits iso_results)
next
  case (hour Y M D H)
  then show ?case by (simp only: ParseISO8601_eq in_digits iso_results)
qed

lemma iso_date_sound:
  assumes "ParseISO8601 s = Inr r"
  shows "iso_date s r"
proof (cases rule: ParseISO8601_cases [of s])
  case (year ms)
  then obtain Y where "digits 4 Y" "s = Y" by (auto simp: fits_forms spell_forms)
  with assms show ?thesis by (simp add: ParseISO8601_eq iso_results iso_date.year)
next
  case (month ms)
  then obtain Y M where "digits 4 Y" "digits 2 M" "s = Y @ ''-'' @ M" by (auto simp: fits_forms spell_forms)
  with assms iso_date.month [of Y M] show ?thesis by (simp only: ParseISO8601_eq iso_results)
next
  case (week ms)
  then obtain Y W where "digits 4 Y" "digits 2 W" "s = Y @ ''-W'' @ W" by (auto simp: fits_forms spell_forms)
  with assms iso_date.week [of Y W] show ?thesis by (simp only: ParseISO8601_eq iso_results)
next
  case (day ms)
  then obtain Y M D where "digits 4 Y" "digits 2 M" "digits 2 D" "s = Y @ ''-'' @ M @ ''-'' @ D"
    by (auto simp: fits_forms spell_forms)
  with assms iso_date.day [of Y M D] show ?thesis by (simp only: ParseISO8601_eq iso_results)
next
  case (hour ms)
  then obtain Y M D H where "digits 4 Y" "digits 2 M" "digits 2 D" "digits 2 H"
    "s = Y @ ''-'' @ M @ ''-'' @ D @ ''T'' @ H"
    by (auto simp: fits_forms spell_forms)
  with assms iso_date.hour [of Y M D H] show ?thesis by (simp only: ParseISO8601_eq iso_results)
qed (use assms in simp)

lemma iso_no_panic: "ParseISO8601 s \<noteq> Inl (Panic p)"
proof -
  have d: "\<not> (1 \<le> m \<and> m \<le> 12)" if "daysOfMonth m y = Inl e" for m y e
    using that daysOfMonth_Inr [of m y] by auto
  show ?thesis
    by (cases rule: ParseISO8601_cases [of s])
       (auto simp: fits_forms ParseISO8601_forms iso_year_def iso_month_def iso_week_def iso_day_def iso_hour_def
         parse_fields in_month_def bindE_Inl_iff split: if_splits dest!: d)
qed

text \<open>C21: which strings are dates.  \<open>ParseISO8601\<close> never panics, and it accepts exactly the strings of the
  grammar: YYYY, YYYY-MM, YYYY-Www, YYYY-MM-DD and YYYY-MM-DDThh in ASCII digits, with a year from 1584 on,
  a month from 01 to 12, a week from 01 to 53, a day of that month and an hour up to 24, and returns the time
  that goes with the form.\<close>

theorem iso8601_accepts:
  "(ParseISO8601 s = Inr r) = iso_date s r \<and> ParseISO8601 s \<noteq> Inl (Panic p)"
  using iso_date_sound iso_date_complete iso_no_panic by blast

subsection \<open>Ends of periods\<close>

lemma div_step:
  fixes y k :: int
  assumes "0 < k"
  shows "y div k = (y - 1) div k + (if y mod k = 0 then 1 else 0)"
proof (cases "y mod k = 0")
  case True
  then obtain q where "y = k * q" by auto
  moreover have "(k * q - 1) div k = q - 1"
    using assms by (intro int_div_pos_eq [of _ _ _ "k - 1"]) (auto simp: algebra_simps)
  ultimately show ?thesis using assms by simp
next
  case False
  have "0 \<le> y mod k" "y mod k < k" using assms by simp_all
  with False have "(y - 1) div k = y div k"
    by (intro int_div_pos_eq [of _ _ _ "y mod k - 1"]) (auto simp: minus_mod_eq_mult_div [symmetric])
  with False show ?thesis by simp
qed

lemma isLeap_leap: "isLeap y = leap y"
  by (auto simp: isLeap_def leap_def)

lemma days_to_next_year: "days_to_year (y + 1) = days_to_year y + (if leap y then 366 else 365)"
proof -
  have "100 dvd y \<Longrightarrow> 4 dvd y" "400 dvd y \<Longrightarrow> 100 dvd y"
    by (auto elim!: dvd_trans [rotated])
  then have "y mod 100 = 0 \<Longrightarrow> y mod 4 = 0" "y mod 400 = 0 \<Longrightarrow> y mod 100 = 0"
    by (simp_all add: mod_eq_0_iff_dvd)
  then have l: "(if y mod 4 = 0 then 1 else 0) - (if y mod 100 = 0 then 1 else 0) + (if y mod 400 = 0 then 1 else 0)
      = (if leap y then 1 else (0 :: int))"
    unfolding leap_def by presburger
  have "days_to_year (y + 1) - days_to_year y
      = 365 + ((y div 4 - (y - 1) div 4) - (y div 100 - (y - 1) div 100) + (y div 400 - (y - 1) div 400))"
    by (simp add: days_to_year_def Let_def)
  also have "\<dots> = 365 + (if leap y then 1 else 0)"
    unfolding div_step [of 4 y, simplified] div_step [of 100 y, simplified] div_step [of 400 y, simplified]
    using l by linarith
  finally show ?thesis by (simp split: if_splits)
qed

lemma month_cases:
  fixes m :: int
  assumes "1 \<le> m" and "m \<le> 12"
  shows "m = 1 \<or> m = 2 \<or> m = 3 \<or> m = 4 \<or> m = 5 \<or> m = 6 \<or> m = 7 \<or> m = 8 \<or> m = 9 \<or> m = 10 \<or> m = 11 \<or> m = 12"
  using assms by arith

text \<open>The number of days that the code gives a month is the one of package time.\<close>

lemma Date_next_month:
  assumes "1 \<le> m" and "m \<le> 12" and "daysOfMonth m y = Inr n"
  shows "Date y (m + 1) 1 0 0 0 = Date y m (n + 1) 0 0 0"
  using month_cases [OF assms(1,2)] assms(3)
  by (elim disjE) (auto simp: Date_def daysOfMonth_def daysBefore_def isLeap_leap days_to_next_year split: if_splits)

lemma Date_second: "Date y m d 23 59 59 + 1 = Date y m (d + 1) 0 0 0"
  by (simp add: Date_def Let_def)

lemma Date_hour_second: "Date y m d h 59 59 + 1 = Date y m d (h + 1) 0 0"
  by (simp add: Date_def Let_def)

lemma Date_days: "Date y m (d + k) 0 0 0 = Date y m d 0 0 0 + k * 86400"
  by (simp add: Date_def Let_def algebra_simps)

lemma Date_next_year: "Date (y + 1) 1 1 0 0 0 = Date y 13 1 0 0 0"
  by (simp add: Date_def Let_def)

text \<open>C35: the time returned for a year, a day or an hour is the last second of that period, in the
  calendar of package time: one second later begins the next year, the next day or the next hour.  For a
  month it is that only when the month has 31 days; for a shorter month it is later by the
  missing days.\<close>

theorem iso8601_period_ends:
  assumes "in_year Y" and "in_month M" and "in_day Y M D" and "digits 2 H" and "val H \<le> 24"
  shows "(\<exists>t. ParseISO8601 Y = Inr (t, Year) \<and> t + 1 = Date (val Y + 1) 1 1 0 0 0)
     \<and> (\<exists>t n. ParseISO8601 (Y @ ''-'' @ M) = Inr (t, Month) \<and> daysOfMonth (val M) (val Y) = Inr n
          \<and> t + 1 = Date (val Y) (val M + 1) 1 0 0 0 + (31 - n) * 86400)
     \<and> (\<exists>t. ParseISO8601 (Y @ ''-'' @ M @ ''-'' @ D) = Inr (t, Day)
          \<and> t + 1 = Date (val Y) (val M) (val D + 1) 0 0 0)
     \<and> (\<exists>t. ParseISO8601 (Y @ ''-'' @ M @ ''-'' @ D @ ''T'' @ H) = Inr (t, Hour)
          \<and> t + 1 = Date (val Y) (val M) (val D) (val H + 1) 0 0)"
proof -
  have m: "1 \<le> val M" "val M \<le> 12" using assms(2) by (simp_all add: in_month_def)
  from assms(3) obtain n where n: "daysOfMonth (val M) (val Y) = Inr n" by (auto simp: in_day_def)
  have y: "Date (val Y) 12 31 23 59 59 + 1 = Date (val Y + 1) 1 1 0 0 0"
    using Date_next_month [of 12 "val Y" 31] by (simp add: Date_second Date_next_year daysOfMonth_def)
  have "Date (val Y) (val M) 31 23 59 59 + 1 = Date (val Y) (val M + 1) 1 0 0 0 + (31 - n) * 86400"
    using Date_next_month [OF m n] Date_days [of "val Y" "val M" "n + 1" "31 - n"] by (simp add: Date_second)
  with n iso_date_complete [OF iso_date.month [OF assms(1,2)]]
  have "\<exists>t n. ParseISO8601 (Y @ ''-'' @ M) = Inr (t, Month) \<and> daysOfMonth (val M) (val Y) = Inr n
      \<and> t + 1 = Date (val Y) (val M + 1) 1 0 0 0 + (31 - n) * 86400" by blast
  with y iso_date_complete [OF iso_date.year [OF assms(1)]] iso_date_complete [OF iso_date.day [OF assms(1-3)]]
    iso_date_complete [OF iso_date.hour [OF assms(1-5)]] Date_second Date_hour_second
  show ?thesis by blast
qed

theorem iso8601_period_ends_witness:
  "\<exists>t. ParseISO8601 ''2018-02'' = Inr (t, Month) \<and> t + 1 = Date 2018 3 4 0 0 0"
proof -
  have v: "val ''2018'' = 2018" "val ''02'' = 2" "val ''20'' = 20" "val ''15'' = 15"
    by (simp_all add: val_def is_dig_def)
  have d: "daysOfMonth 2 2018 = Inr 28" by (simp add: daysOfMonth_def isLeap_def)
  have "in_year ''2018''" "in_month ''02''" "in_day ''2018'' ''02'' ''20''" "digits 2 ''15''" "val ''15'' \<le> 24"
    by (simp_all add: in_year_def in_month_def in_day_def digits_def is_dig_def v d)
  from iso8601_period_ends [OF this, unfolded v] d obtain t
    where "ParseISO8601 (''2018'' @ ''-'' @ ''02'') = Inr (t, Month)" "t + 1 = Date 2018 3 1 0 0 0 + 3 * 86400"
    by auto
  then show ?thesis using Date_days [of 2018 3 1 3] by simp
qed

end
