(* ===== verification/Sqlite3Query.thy ===== *)
theory Sqlite3Query
  imports Sqlite3 ISO8601 "HOL-Library.Product_Lexorder"
begin

text \<open>
  Searching the SQLite database: \<open>QueryTorrents\<close>, with \<open>orderOn\<close>, of \<open>pkg/persistence/sqlite3.go\<close>.  The template of the query text becomes the choice between the clauses
  it contains.  The full-text index and its rank function \<open>bm25\<close> are a parameter: \<open>rank query d\<close> gives the rank of the rows that match the query.

  Comparisons of a column with the \<open>float64\<close> of the request are comparisons of the numbers they stand for, as
  SQLite makes them.
\<close>

subsection \<open>QueryTorrents\<close>

record query_row =
  qr_torrent :: torrent_row
  qr_n_files :: int
  qr_rank :: rat

type_synonym ranking = "string \<Rightarrow> sqlite_db \<Rightarrow> int \<Rightarrow> rat option"

fun orderOn :: "OrderingCriteria \<Rightarrow> go_error + (query_row \<Rightarrow> rat)" where
  "orderOn ByRelevance = Inr qr_rank"
| "orderOn ByTotalSize = Inr (\<lambda>r. of_int (tr_total_size (qr_torrent r)))"
| "orderOn ByDiscoveredOn = Inr (\<lambda>r. of_int (tr_discovered_on (qr_torrent r)))"
| "orderOn ByNFiles = Inr (\<lambda>r. of_int (qr_n_files r))"
| "orderOn ByNSeeders = Inl (Panic ''unknown orderBy: 4'')"
| "orderOn ByNLeechers = Inl (Panic ''unknown orderBy: 5'')"
| "orderOn ByUpdatedOn = Inl (Panic ''unknown orderBy: 6'')"

text \<open>The rows of \<open>FROM torrents INNER JOIN ... WHERE modified_on <= epoch\<close>.\<close>

definition query_rows :: "ranking \<Rightarrow> string \<Rightarrow> sqlite_db \<Rightarrow> query_row list" where
  "query_rows rank query d =
     (let doJoin = query \<noteq> []; row = (\<lambda>t k. \<lparr>qr_torrent = t, qr_n_files = int (length (files_of (tr_id t) d)), qr_rank = k\<rparr>)
      in if doJoin then List.map_filter (\<lambda>t. map_option (row t) (rank query d (tr_id t))) (sl_torrents d)
         else map (\<lambda>t. row t 0) (sl_torrents d))"

definition until :: "int \<Rightarrow> query_row list \<Rightarrow> query_row list" where
  "until epoch = filter (\<lambda>r. case tr_modified_on (qr_torrent r) of None \<Rightarrow> False | Some m \<Rightarrow> m \<le> epoch)"

definition row_value :: "(query_row \<Rightarrow> rat) \<Rightarrow> query_row \<Rightarrow> rat \<times> int" where
  "row_value key r = (key r, tr_id (qr_torrent r))"

text \<open>\<open>AND (key, id) > (?, ?) ORDER BY key, id LIMIT ?\<close>, with \<open><\<close> and \<open>DESC\<close> when not ascending.\<close>

definition page_of :: "(query_row \<Rightarrow> rat) \<Rightarrow> bool \<Rightarrow> (rat \<times> int) option \<Rightarrow> nat \<Rightarrow> query_row list \<Rightarrow> query_row list" where
  "page_of key ascending after limit rows =
     (let beyond = (case after of None \<Rightarrow> rows
          | Some p \<Rightarrow> filter (\<lambda>r. if ascending then row_value key r > p else row_value key r < p) rows);
          ordered = sort_key (row_value key) beyond
      in take limit (if ascending then ordered else rev ordered))"

definition scan_row :: "query_row \<Rightarrow> go_error + TorrentMetadata" where
  "scan_row r = (let t = qr_torrent r in
     bindE (scan_uint64 (tr_id t)) (\<lambda>i.
     bindE (scan_uint64 (tr_total_size t)) (\<lambda>size.
     bindE (scan_uint64 (qr_n_files r)) (\<lambda>nFiles.
     Inr \<lparr>tm_ID = i, tm_InfoHash = tr_info_hash t, tm_Name = tr_name t, tm_Size = size,
       tm_DiscoveredOn = tr_discovered_on t, tm_NFiles = nFiles, tm_Relevance = qr_rank r\<rparr>))))"

text \<open>The arguments of the query are converted before it is run.\<close>

definition select_torrents :: "ranking \<Rightarrow> (query_row \<Rightarrow> rat) \<Rightarrow> string \<Rightarrow> int \<Rightarrow> bool \<Rightarrow> 64 word \<Rightarrow> rat option \<Rightarrow>
    64 word option \<Rightarrow> sqlite_db \<Rightarrow> string + query_row list" where
  "select_torrents rank key query epoch ascending limit lastOrderedValue lastID d =
     (let rows = until epoch (query_rows rank query d) in
      case (case lastID of None \<Rightarrow> Inr None | Some i \<Rightarrow> map_sum id Some (bind_uint64 i)) of
        Inl e \<Rightarrow> Inl e
      | Inr i \<Rightarrow> (case bind_uint64 limit of Inl e \<Rightarrow> Inl e
          | Inr n \<Rightarrow> Inr (page_of key ascending
              (case (lastOrderedValue, i) of (Some v, Some j) \<Rightarrow> Some (v, j) | _ \<Rightarrow> None) (nat n) rows)))"

definition sqlite3_QueryTorrents :: "sql_driver \<Rightarrow> ranking \<Rightarrow> string \<Rightarrow> int \<Rightarrow> OrderingCriteria \<Rightarrow> bool \<Rightarrow> 64 word \<Rightarrow>
    rat option \<Rightarrow> 64 word option \<Rightarrow> TorrentMetadata list sqlite_op" where
  "sqlite3_QueryTorrents drv rank query epoch orderBy ascending limit lastOrderedValue lastID =
     (if query = [] \<and> orderBy = ByRelevance
      then raise (Err ''torrents cannot be ordered by relevance when the query is empty'')
      else if (lastOrderedValue = None) \<noteq> (lastID = None)
      then raise (Err ''lastOrderedValue and lastID should be supplied together, if supplied'')
      else bindL (liftL (orderOn orderBy)) (\<lambda>key.
        bindL (catchL (conn_Query drv (select_torrents rank key query epoch ascending limit lastOrderedValue lastID)))
          (\<lambda>rows. deferL (closeRows rows) (case rows of
             Inl e \<Rightarrow> wrapL ''query error'' (raise (Err e))
           | Inr rs \<Rightarrow> liftL (mapE scan_row (rs_rows rs))))))"

subsection \<open>The order of the listing\<close>

text \<open>In a strictly ordered list, what lies beyond an element is what follows it.\<close>

lemma filter_beyond:
  assumes "sorted_wrt R L" and "\<And>x y. R x y \<Longrightarrow> \<not> R y x" and "k < length L"
  shows "filter (\<lambda>x. R (L ! k) x) L = drop (Suc k) L"
proof -
  have L: "L = take k L @ L ! k # drop (Suc k) L" by (rule id_take_nth_drop [OF assms(3)])
  have s: "sorted_wrt R (take k L @ L ! k # drop (Suc k) L)" using assms(1) L by simp
  have "\<not> R (L ! k) x" if "x \<in> set (take k L)" for x
    using s that assms(2) by (auto simp: sorted_wrt_append)
  moreover have "R (L ! k) x" if "x \<in> set (drop (Suc k) L)" for x
    using s that by (auto simp: sorted_wrt_append)
  moreover have "\<not> R (L ! k) (L ! k)" using assms(2) by blast
  ultimately have "filter (\<lambda>x. R (L ! k) x) (take k L @ L ! k # drop (Suc k) L) = drop (Suc k) L"
    by (simp add: filter_empty_conv filter_id_conv)
  then show ?thesis using L by simp
qed

definition listing :: "(query_row \<Rightarrow> rat) \<Rightarrow> bool \<Rightarrow> query_row list \<Rightarrow> query_row list" where
  "listing key ascending rows =
     (if ascending then sort_key (row_value key) rows else rev (sort_key (row_value key) rows))"

definition precedes :: "(query_row \<Rightarrow> rat) \<Rightarrow> bool \<Rightarrow> query_row \<Rightarrow> query_row \<Rightarrow> bool" where
  "precedes key ascending r q =
     (if ascending then row_value key r < row_value key q else row_value key q < row_value key r)"

lemma listing_set [simp]: "set (listing key asc rows) = set rows"
  by (simp add: listing_def)

lemma listing_sorted:
  assumes "distinct (map (\<lambda>r. tr_id (qr_torrent r)) rows)"
  shows "sorted_wrt (precedes key asc) (listing key asc rows)"
proof -
  let ?s = "sort_key (row_value key) rows"
  have "distinct (map snd (map (row_value key) rows))" using assms by (simp add: comp_def row_value_def)
  then have "distinct (map (row_value key) rows)" by (simp only: distinct_map)
  then have "distinct (map (row_value key) ?s)"
    by (simp add: distinct_map)
  then have "sorted_wrt (<) (map (row_value key) ?s)" by (simp add: strict_sorted_iff)
  then show ?thesis
    by (simp add: listing_def precedes_def [abs_def] sorted_wrt_map sorted_wrt_rev)
qed

lemma page_of_first: "page_of key asc None n rows = take n (listing key asc rows)"
  by (simp add: page_of_def listing_def)

lemma page_of_next:
  assumes "distinct (map (\<lambda>r. tr_id (qr_torrent r)) rows)" and "k < length rows"
  shows "page_of key asc (Some (row_value key (listing key asc rows ! k))) n rows
    = take n (drop (Suc k) (listing key asc rows))"
proof -
  have "filter (\<lambda>x. precedes key asc (listing key asc rows ! k) x) (listing key asc rows)
      = drop (Suc k) (listing key asc rows)"
    using assms by (intro filter_beyond listing_sorted) (auto simp: precedes_def listing_def split: if_splits)
  then show ?thesis
    by (simp add: page_of_def listing_def precedes_def filter_sort [symmetric] rev_filter [symmetric] split: if_splits)
qed

subsection \<open>Paging\<close>

text \<open>The metadata of a row, and the value by which a client finds the next page: the column of the
  ordering, read from the metadata.\<close>

definition row_metadata :: "query_row \<Rightarrow> TorrentMetadata" where
  "row_metadata r = (let t = qr_torrent r in \<lparr>tm_ID = of_int (tr_id t), tm_InfoHash = tr_info_hash t, tm_Name = tr_name t,
     tm_Size = of_int (tr_total_size t), tm_DiscoveredOn = tr_discovered_on t, tm_NFiles = of_int (qr_n_files r),
     tm_Relevance = qr_rank r\<rparr>)"

fun ordered_value :: "OrderingCriteria \<Rightarrow> TorrentMetadata \<Rightarrow> rat" where
  "ordered_value ByRelevance m = tm_Relevance m"
| "ordered_value ByTotalSize m = of_int (uint (tm_Size m))"
| "ordered_value ByDiscoveredOn m = of_int (tm_DiscoveredOn m)"
| "ordered_value ByNFiles m = of_int (uint (tm_NFiles m))"
| "ordered_value _ m = 0"

text \<open>The keys and counts of the tables are 63-bit numbers, as SQLite's integers are.\<close>

definition fits :: "sqlite_db \<Rightarrow> bool" where
  "fits d \<longleftrightarrow> (\<forall>t \<in> set (sl_torrents d). tr_id t < 2 ^ 63) \<and> length (sl_files d) < 2 ^ 63"

definition row_fits :: "query_row \<Rightarrow> bool" where
  "row_fits r \<longleftrightarrow> 0 < tr_id (qr_torrent r) \<and> tr_id (qr_torrent r) < 2 ^ 63 \<and> 0 < tr_total_size (qr_torrent r)
     \<and> tr_total_size (qr_torrent r) < 2 ^ 63 \<and> 0 \<le> qr_n_files r \<and> qr_n_files r < 2 ^ 63"

lemma query_row_torrents:
  "map qr_torrent (query_rows rank query d) = filter (\<lambda>t. query = [] \<or> rank query d (tr_id t) \<noteq> None) (sl_torrents d)"
proof (cases "query = []")
  case False
  have "map qr_torrent (List.map_filter (\<lambda>t. map_option (\<lambda>k. \<lparr>qr_torrent = t, qr_n_files = n t, qr_rank = k\<rparr>) (g t)) ts)
      = filter (\<lambda>t. g t \<noteq> None) ts" for g and n :: "torrent_row \<Rightarrow> int" and ts
    by (induction ts) (auto simp: List.map_filter_simps split: option.splits)
  with False show ?thesis by (simp add: query_rows_def)
qed (simp add: query_rows_def comp_def)

lemma query_row_fits:
  assumes "tables_ok d" and "fits d" and "r \<in> set (query_rows rank query d)"
  shows "row_fits r"
proof -
  have "qr_torrent r \<in> set (map qr_torrent (query_rows rank query d))" using assms(3) by simp
  then have "qr_torrent r \<in> set (sl_torrents d)" unfolding query_row_torrents by auto
  moreover from assms(3) have "\<exists>i. qr_n_files r = int (length (files_of i d))"
    by (auto simp: query_rows_def List.map_filter_def Let_def split: if_splits)
  moreover have "length (files_of i d) \<le> length (sl_files d)" for i by (simp add: files_of_def)
  ultimately show ?thesis using assms(1,2)
    unfolding row_fits_def tables_ok_def fits_def by (fastforce intro: le_less_trans)
qed

lemma query_rows_distinct:
  assumes "tables_ok d"
  shows "distinct (map (\<lambda>r. tr_id (qr_torrent r)) (until epoch (query_rows rank query d)))"
proof -
  have "map (\<lambda>r. tr_id (qr_torrent r)) (query_rows rank query d)
      = map tr_id (filter (\<lambda>t. query = [] \<or> rank query d (tr_id t) \<noteq> None) (sl_torrents d))"
    unfolding query_row_torrents [symmetric] by simp
  then have "distinct (map (\<lambda>r. tr_id (qr_torrent r)) (query_rows rank query d))"
    using assms by (simp add: tables_ok_def distinct_map_filter)
  then show ?thesis unfolding until_def by (rule distinct_map_filter)
qed

lemma scan_row_fits: "row_fits r \<Longrightarrow> scan_row r = Inr (row_metadata r)"
  by (simp add: scan_row_def row_fits_def scan_uint64_def row_metadata_def Let_def)

lemma uint_of_int: "0 \<le> v \<Longrightarrow> v < 2 ^ 63 \<Longrightarrow> uint (of_int v :: 64 word) = v"
  by (simp add: uint_word_of_int_eq take_bit_int_eq_self)

lemma row_metadata_value:
  assumes "row_fits r" and "orderOn orderBy = Inr key"
  shows "(ordered_value orderBy (row_metadata r), uint (tm_ID (row_metadata r))) = row_value key r"
  using assms by (cases orderBy) (auto simp: row_fits_def row_metadata_def row_value_def uint_of_int Let_def)

lemma QueryTorrents_smooth:
  assumes "smooth drv (sc_calls c)" and "\<not> (query = [] \<and> orderBy = ByRelevance)" and "(lov = None) = (lid = None)"
    and "orderOn orderBy = Inr key"
    and "select_torrents rank key query epoch asc limit lov lid (sc_db c) = Inr rs" and "\<forall>r \<in> set rs. row_fits r"
  shows "fst (sqlite3_QueryTorrents drv rank query epoch orderBy asc limit lov lid c) = Inr (map row_metadata rs)"
proof -
  have "mapE scan_row rs = Inr (map row_metadata rs)"
    using assms(6) by (intro mapE_Inr_all) (simp add: scan_row_fits)
  then show ?thesis using assms(2-4) smooth_ops(2) [where select = "select_torrents rank key query epoch asc limit lov lid",
        OF assms(1) assms(5)]
    by (auto simp: sqlite3_QueryTorrents_def bindL_def liftL_def catchL_def deferL_def closed_rows)
qed

text \<open>C9: the pages of a search are consecutive parts of one listing.  The torrents that match the query and
  were not modified after \<open>epoch\<close>, ordered by the criterion and then by their key, ascending or descending, form a listing without
  repetitions; the first page are its first \<open>limit\<close> entries, and the page asked for with the ordered value and
  the key of any of its entries are the \<open>limit\<close> entries that follow that one.\<close>

theorem sqlite3_pagination:
  assumes "sqlite_ok c" and "smooth drv (sc_calls c)" and "fits (sc_db c)"
    and "orderOn orderBy = Inr key" and "\<not> (query = [] \<and> orderBy = ByRelevance)" and "uint limit < 2 ^ 63"
  shows "let L = map row_metadata (listing key asc (until epoch (query_rows rank query (sc_db c))));
             place = (\<lambda>m. (ordered_value orderBy m, uint (tm_ID m)));
             page = (\<lambda>lov lid. fst (sqlite3_QueryTorrents drv rank query epoch orderBy asc limit lov lid c))
         in sorted_wrt (\<lambda>a b. if asc then place a < place b else place b < place a) L
          \<and> page None None = Inr (take (unat limit) L)
          \<and> (\<forall>k < length L. page (Some (ordered_value orderBy (L ! k))) (Some (tm_ID (L ! k)))
               = Inr (take (unat limit) (drop (Suc k) L)))"
proof -
  let ?rows = "until epoch (query_rows rank query (sc_db c))"
  let ?L = "listing key asc ?rows"
  have ok: "tables_ok (sc_db c)" using assms(1) by (simp add: sqlite_ok_def)
  note dist = query_rows_distinct [OF ok, of epoch rank query]
  have fit: "row_fits r" if "r \<in> set ?L" for r
    using that query_row_fits [OF ok assms(3), of r rank query] by (simp add: until_def)
  have n: "nat (uint limit) = unat limit" by simp
  have "sorted_wrt (\<lambda>a b. if asc then row_value key a < row_value key b else row_value key b < row_value key a) ?L"
    using listing_sorted [OF dist, of key asc] unfolding precedes_def .
  then have srt: "sorted_wrt (\<lambda>a b. if asc then (ordered_value orderBy a, uint (tm_ID a)) < (ordered_value orderBy b, uint (tm_ID b))
      else (ordered_value orderBy b, uint (tm_ID b)) < (ordered_value orderBy a, uint (tm_ID a))) (map row_metadata ?L)"
    unfolding sorted_wrt_map by (rule sorted_wrt_mono_rel [rotated]) (simp only: row_metadata_value [OF fit assms(4)])
  have first: "fst (sqlite3_QueryTorrents drv rank query epoch orderBy asc limit None None c)
      = Inr (map row_metadata (take (unat limit) ?L))"
    using assms(6) fit by (intro QueryTorrents_smooth [OF assms(2,5) _ assms(4)])
      (auto simp: select_torrents_def bind_uint64_def page_of_first n Let_def dest: in_set_takeD)
  have "fst (sqlite3_QueryTorrents drv rank query epoch orderBy asc limit
      (Some (ordered_value orderBy (row_metadata (?L ! k)))) (Some (tm_ID (row_metadata (?L ! k)))) c)
      = Inr (map row_metadata (take (unat limit) (drop (Suc k) ?L)))" if "k < length ?L" for k
  proof -
    have v: "(ordered_value orderBy (row_metadata (?L ! k)), uint (tm_ID (row_metadata (?L ! k)))) = row_value key (?L ! k)"
      using nth_mem [OF that] by (intro row_metadata_value assms(4) fit)
    then have "uint (tm_ID (row_metadata (?L ! k))) < 2 ^ 63"
      using fit [OF nth_mem [OF that]] by (simp add: row_value_def row_fits_def)
    then have "select_torrents rank key query epoch asc limit (Some (ordered_value orderBy (row_metadata (?L ! k))))
        (Some (tm_ID (row_metadata (?L ! k)))) (sc_db c) = Inr (take (unat limit) (drop (Suc k) ?L))"
      using assms(6) v page_of_next [OF dist, of k key asc "unat limit"] that
      by (simp add: select_torrents_def bind_uint64_def n Let_def listing_def split: if_splits)
    then show ?thesis
      using fit by (intro QueryTorrents_smooth [OF assms(2,5) _ assms(4)]) (auto simp del: listing_set dest: in_set_takeD in_set_dropD)
  qed
  with srt first show ?thesis by (simp add: Let_def take_map drop_map)
qed

definition demo_row :: "int \<Rightarrow> string \<Rightarrow> int \<Rightarrow> torrent_row" where
  "demo_row i n sz = \<lparr>tr_id = i, tr_info_hash = [of_int i], tr_name = n, tr_total_size = sz, tr_discovered_on = 5,
     tr_updated_on = None, tr_modified_on = Some 5\<rparr>"

definition demo_conn :: "sqlite_db sql_conn" where
  "demo_conn = fresh_conn\<lparr>sc_db := empty_db\<lparr>sl_torrents := [demo_row 1 ''a'' 30, demo_row 2 ''b'' 10]\<rparr>\<rparr>"

theorem sqlite3_pagination_witness:
  "map_sum id (map tm_Name) (fst (sqlite3_QueryTorrents steady_driver (\<lambda>_ _ _. None) [] 9 ByTotalSize True 1
      (Some 10) (Some 2) demo_conn)) = Inr [''a'']"
proof -
  have ok: "sqlite_ok demo_conn"
    by (simp add: sqlite_ok_def demo_conn_def fresh_conn_def tables_ok_def empty_db_def demo_row_def)
  have sm: "smooth steady_driver (sc_calls demo_conn)"
    by (simp add: smooth_def steady_driver_def failing_driver_def)
  have ft: "fits (sc_db demo_conn)" by (simp add: fits_def demo_conn_def empty_db_def demo_row_def)
  let ?L = "listing (\<lambda>r. of_int (tr_total_size (qr_torrent r))) True (until 9 (query_rows (\<lambda>_ _ _. None) [] (sc_db demo_conn)))"
  have L: "?L = [\<lparr>qr_torrent = demo_row 2 ''b'' 10, qr_n_files = 0, qr_rank = 0\<rparr>,
      \<lparr>qr_torrent = demo_row 1 ''a'' 30, qr_n_files = 0, qr_rank = 0\<rparr>]"
    by (simp add: listing_def until_def query_rows_def demo_conn_def empty_db_def files_of_def row_value_def)
      (simp add: demo_row_def)
  have o: "orderOn ByTotalSize = Inr (\<lambda>r. of_int (tr_total_size (qr_torrent r)))"
    "\<not> ([] = ([] :: string) \<and> ByTotalSize = ByRelevance)" "uint (1 :: 64 word) < 2 ^ 63" by simp_all
  from sqlite3_pagination [OF ok sm ft o, of True 9 "\<lambda>_ _ _. None"]
  have "fst (sqlite3_QueryTorrents steady_driver (\<lambda>_ _ _. None) [] 9 ByTotalSize True 1
      (Some (ordered_value ByTotalSize (map row_metadata ?L ! 0))) (Some (tm_ID (map row_metadata ?L ! 0))) demo_conn)
      = Inr (take 1 (drop (Suc 0) (map row_metadata ?L)))"
    unfolding Let_def by (auto simp: L)
  then show ?thesis by (simp add: L row_metadata_def demo_row_def)
qed

end
