(* ===== verification/Sqlite3Stats.thy ===== *)
theory Sqlite3Stats
  imports Sqlite3Query
begin

text \<open>
  \<open>GetStatistics\<close> of \<open>pkg/persistence/sqlite3.go\<close> and what it uses of package \<open>time\<close>: \<open>AddDate\<close> and
  \<open>Add\<close>.  SQLite's \<open>strftime\<close> is a parameter.
\<close>

subsection \<open>Package time\<close>

text \<open>Year and day of the year of a number of days since 1 January of the year 1, by cycles of 400, 100 and 4
  years, and the month and day of a day of the year: the function \<open>absDate\<close> of package time.\<close>

definition abs_year :: "int \<Rightarrow> int \<times> int" where
  "abs_year d =
     (let a = d div 146097; d = d - 146097 * a;
          b = d div 36524; b = b - b div 4; d = d - 36524 * b;
          c = d div 1461; d = d - 1461 * c;
          e = d div 365; e = e - e div 4; d = d - 365 * e
      in (400 * a + 100 * b + 4 * c + e + 1, d))"

definition abs_month :: "int \<Rightarrow> int \<Rightarrow> int \<times> int" where
  "abs_month year yday =
     (if leap year \<and> yday = 59 then (2, 29)
      else let day = (if leap year \<and> yday > 59 then yday - 1 else yday);
               m = day div 31; e = daysBefore ! nat (m + 1)
           in if day \<ge> e then (m + 2, day - e + 1) else (m + 1, day - daysBefore ! nat m + 1))"

definition AddDate :: "int \<Rightarrow> int \<Rightarrow> int \<Rightarrow> int \<Rightarrow> int" where
  "AddDate years months days t =
     (let (year, yday) = abs_year (t div 86400 + days_to_year 1970);
          (month, day) = abs_month year yday; s = t mod 86400
      in Date (year + years) (month + months) (day + days) (s div 3600) (s mod 3600 div 60) (s mod 60))"

subsection \<open>GetStatistics\<close>

text \<open>The end of the interval and the time format for a granularity; \<open>int(n)\<close> and \<open>time.Duration(n)\<close> reinterpret
  the unsigned \<open>n\<close>, and products wrap around.  A \<open>time.Duration\<close> counts nanoseconds.\<close>

fun until_time :: "Granularity \<Rightarrow> int \<Rightarrow> 64 word \<Rightarrow> int" where
  "until_time Year fromTime n = AddDate (sint n) 0 0 fromTime"
| "until_time Month fromTime n = AddDate 0 (sint n) 0 fromTime"
| "until_time Week fromTime n = AddDate 0 0 (wrap64 (sint n * 7)) fromTime"
| "until_time Day fromTime n = AddDate 0 0 (sint n) fromTime"
| "until_time Hour fromTime n = fromTime + wrap64 (sint n * 3600000000000) div 1000000000"

fun time_format :: "Granularity \<Rightarrow> string" where
  "time_format Year = ''%Y''"
| "time_format Month = ''%Y-%m''"
| "time_format Week = ''%Y-%W''"
| "time_format Day = ''%Y-%m-%d''"
| "time_format Hour = ''%Y-%m-%dT%H''"

text \<open>The join of the two tables within the interval, and the groups of the query; an overflow of \<open>sum\<close>
  breaks off the iteration and is a case of \<open>drv_break\<close>.\<close>

definition stat_pairs :: "int \<Rightarrow> int \<Rightarrow> sqlite_db \<Rightarrow> (torrent_row \<times> file_row) list" where
  "stat_pairs lo hi d = filter (\<lambda>(t, f). tr_id t = fr_torrent_id f \<and> tr_discovered_on t \<ge> lo \<and> tr_discovered_on t \<le> hi)
     (List.product (sl_torrents d) (sl_files d))"

definition stat_group :: "(torrent_row \<times> file_row) list \<Rightarrow> int \<times> int \<times> int" where
  "stat_group g = (sum_list (map (\<lambda>(t, f). fr_size f) g), int (card (set (map (\<lambda>(t, f). tr_id t) g))),
     int (card (set (map (\<lambda>(t, f). fr_id f) g))))"

definition stat_groups :: "(int \<Rightarrow> string) \<Rightarrow> (torrent_row \<times> file_row) list \<Rightarrow> (string \<times> int \<times> int \<times> int) list" where
  "stat_groups dT pairs = map (\<lambda>p. (p, stat_group (filter (\<lambda>(t, f). dT (tr_discovered_on t) = p) pairs)))
     (remdups (map (\<lambda>(t, f). dT (tr_discovered_on t)) pairs))"

definition add_stat :: "Statistics \<Rightarrow> string \<times> int \<times> int \<times> int \<Rightarrow> go_error + Statistics" where
  "add_stat stats row = (case row of (dT, tS, nD, nF) \<Rightarrow>
     bindE (scan_uint64 tS) (\<lambda>tS. bindE (scan_uint64 nD) (\<lambda>nD. bindE (scan_uint64 nF) (\<lambda>nF.
     Inr (stats\<lparr>NDiscovered := AList.update dT nD (NDiscovered stats),
       TotalSize := AList.update dT tS (TotalSize stats),
       NFiles := AList.update dT nF (NFiles stats)\<rparr>)))))"

definition sqlite3_GetStatistics :: "sql_driver \<Rightarrow> (string \<Rightarrow> int \<Rightarrow> string) \<Rightarrow> string \<Rightarrow> 64 word \<Rightarrow> Statistics sqlite_op" where
  "sqlite3_GetStatistics drv strftime since n =
     bindL (wrapL ''parsing ISO8601 error'' (liftL (ParseISO8601 since))) (\<lambda>(fromTime, gran).
     bindL (catchL (conn_Query drv (\<lambda>d. Inr (stat_groups (strftime (time_format gran))
         (stat_pairs fromTime (until_time gran fromTime n) d)))))
       (\<lambda>rows. deferL (closeRows rows) (case rows of
          Inl e \<Rightarrow> raise (Err e)
        | Inr rs \<Rightarrow> liftL (foldE add_stat NewStatistics (rs_rows rs)))))"

subsection \<open>Adding days\<close>

lemma cycle_index:
  fixes n :: int
  assumes "0 \<le> n" and "n \<le> 4"
  shows "0 \<le> n - n div 4 \<and> n - n div 4 \<le> 3 \<and> n - n div 4 \<le> n"
proof -
  from assms have "n = 0 \<or> n = 1 \<or> n = 2 \<or> n = 3 \<or> n = 4" by arith
  then show ?thesis by auto
qed

lemma days_to_cycles:
  assumes "0 \<le> b" "b \<le> 3" "0 \<le> c" "c \<le> 24" "0 \<le> e" "e \<le> 3"
  shows "days_to_year (400 * a + 100 * b + 4 * c + e + 1) = 146097 * a + 36524 * b + 1461 * c + 365 * e"
proof -
  let ?y = "400 * a + 100 * b + 4 * c + e"
  have "?y div 4 = 100 * a + 25 * b + c" using assms by (intro int_div_pos_eq [of _ _ _ e]) auto
  moreover have "?y div 100 = 4 * a + b" using assms by (intro int_div_pos_eq [of _ _ _ "4 * c + e"]) auto
  moreover have "?y div 400 = a" using assms by (intro int_div_pos_eq [of _ _ _ "100 * b + 4 * c + e"]) auto
  ultimately show ?thesis by (simp add: days_to_year_def Let_def)
qed

lemma div_bounds:
  fixes d k n :: int
  assumes "0 < k" and "0 \<le> d" and "d < k * (n + 1)"
  shows "0 \<le> d div k" and "d div k \<le> n" and "0 \<le> d - k * (d div k)" and "d - k * (d div k) < k"
proof -
  show "0 \<le> d div k" using assms by (simp add: pos_imp_zdiv_nonneg_iff)
  show r: "0 \<le> d - k * (d div k)" "d - k * (d div k) < k"
    using assms(1) by (simp_all add: minus_mult_div_eq_mod)
  show "d div k \<le> n"
  proof (rule ccontr)
    assume "\<not> d div k \<le> n"
    then have "k * (n + 1) \<le> k * (d div k)" using assms(1) by (intro mult_left_mono) auto
    with r(1) assms(3) show False by linarith
  qed
qed

lemma abs_year_days:
  assumes "abs_year d = (y, yd)"
  shows "days_to_year y + yd = d \<and> 0 \<le> yd \<and> yd \<le> 365"
proof -
  define a where "a = d div 146097"
  define d1 where "d1 = d - 146097 * a"
  define b0 where "b0 = d1 div 36524"
  define b where "b = b0 - b0 div 4"
  define d2 where "d2 = d1 - 36524 * b"
  define c where "c = d2 div 1461"
  define d3 where "d3 = d2 - 1461 * c"
  define e0 where "e0 = d3 div 365"
  define e where "e = e0 - e0 div 4"
  have y: "y = 400 * a + 100 * b + 4 * c + e + 1" "yd = d3 - 365 * e"
    using assms by (simp_all add: abs_year_def Let_def a_def d1_def b0_def b_def d2_def c_def d3_def e0_def e_def)
  have d1: "0 \<le> d1" "d1 < 146097"
    unfolding d1_def a_def by (simp_all add: minus_mult_div_eq_mod)
  have b0: "0 \<le> b0" "b0 \<le> 4" "0 \<le> d1 - 36524 * b0" "d1 - 36524 * b0 < 36524"
    using div_bounds [of 36524 d1 4] d1 by (simp_all add: b0_def)
  have b: "0 \<le> b" "b \<le> 3" "b = b0 \<or> b0 = 4 \<and> b = 3"
    using cycle_index [OF b0(1,2)] b0(1,2) by (auto simp: b_def)
  have d2: "0 \<le> d2" "d2 < 36525" using b b0 d1 by (auto simp: d2_def)
  have c: "0 \<le> c" "c \<le> 24" "0 \<le> d3" "d3 < 1461"
    using div_bounds [of 1461 d2 24] d2 by (simp_all add: c_def d3_def)
  have e0: "0 \<le> e0" "e0 \<le> 4" "0 \<le> d3 - 365 * e0" "d3 - 365 * e0 < 365"
    using div_bounds [of 365 d3 4] c by (simp_all add: e0_def)
  have e: "0 \<le> e" "e \<le> 3" "e = e0 \<or> e0 = 4 \<and> e = 3"
    using cycle_index [OF e0(1,2)] e0(1,2) by (auto simp: e_def)
  have "0 \<le> yd" "yd \<le> 365" using e e0 c unfolding y(2) by auto
  then show ?thesis
    using days_to_cycles [OF b(1,2) c(1,2) e(1,2), of a] unfolding y by (simp add: d3_def d2_def d1_def)
qed

lemma abs_month_date:
  assumes "abs_month y yd = (m, dd)" and "0 \<le> yd" and "yd \<le> 365"
  shows "Date y m (dd + k) h mi s = (days_to_year y - days_to_year 1970 + yd + k) * 86400 + h * 3600 + mi * 60 + s"
proof (cases "leap y \<and> yd = 59")
  case True
  then have "m = 2" "dd = 29" using assms(1) by (simp_all add: abs_month_def)
  with True show ?thesis by (simp add: Date_def daysBefore_def)
next
  case False
  define day where "day = (if leap y \<and> yd > 59 then yd - 1 else yd)"
  define i where "i = day div 31"
  have day: "0 \<le> day" "day \<le> 365" using assms(2,3) by (auto simp: day_def)
  have i: "0 \<le> i" "i \<le> 11" "31 * i \<le> day" "day < 31 * i + 31"
    using div_bounds [of 31 day 11] day by (simp_all add: i_def)
  have md: "m = (if day \<ge> daysBefore ! nat (i + 1) then i + 2 else i + 1)"
    "dd = (if day \<ge> daysBefore ! nat (i + 1) then day - daysBefore ! nat (i + 1) + 1 else day - daysBefore ! nat i + 1)"
    using assms(1) False by (auto simp: abs_month_def day_def i_def Let_def split: if_splits)
  have "1 \<le> i + 1" "i + 1 \<le> 12" using i by simp_all
  from month_cases [OF this] have
    "i = 0 \<or> i = 1 \<or> i = 2 \<or> i = 3 \<or> i = 4 \<or> i = 5 \<or> i = 6 \<or> i = 7 \<or> i = 8 \<or> i = 9 \<or> i = 10 \<or> i = 11"
    by auto
  moreover have "yd = day + (if leap y \<and> day \<ge> 59 then 1 else 0)"
    using False by (auto simp: day_def)
  ultimately show ?thesis
    using i day md assms(3) False days_to_next_year [of y]
    by (elim disjE) (simp_all add: Date_def Let_def daysBefore_def split: if_splits)
qed

lemma AddDate_days: "AddDate 0 0 k t = t + 86400 * k"
proof -
  obtain y yd where y: "abs_year (t div 86400 + days_to_year 1970) = (y, yd)" by fastforce
  obtain m dd where m: "abs_month y yd = (m, dd)" by fastforce
  note ad = abs_year_days [OF y]
  have c: "x div 3600 * 3600 + x mod 3600 div 60 * 60 + x mod 60 = x" for x :: int
  proof -
    have "x mod 3600 mod 60 = x mod 60" by (rule mod_mod_cancel) simp
    moreover have "x mod 3600 div 60 * 60 + x mod 3600 mod 60 = x mod 3600" by (rule div_mult_mod_eq)
    ultimately show ?thesis using div_mult_mod_eq [of x 3600] by linarith
  qed
  have "AddDate 0 0 k t = (days_to_year y - days_to_year 1970 + yd + k) * 86400 + t mod 86400"
    using abs_month_date [OF m, of k] ad c [of "t mod 86400"] by (simp add: AddDate_def y m Let_def)
  also have "days_to_year y - days_to_year 1970 + yd = t div 86400" using ad by linarith
  finally show ?thesis using div_mult_mod_eq [of t 86400] by (simp add: algebra_simps)
qed

subsection \<open>The counts\<close>

declare map_of_None_keys [simp del]

definition counts_at :: "Statistics \<Rightarrow> string \<Rightarrow> (64 word \<times> 64 word \<times> 64 word) option" where
  "counts_at s p = (case (map_of (TotalSize s) p, map_of (NDiscovered s) p, map_of (NFiles s) p) of
     (Some x, Some y, Some z) \<Rightarrow> Some (x, y, z) | _ \<Rightarrow> None)"

lemma counts_at_add:
  "0 \<le> tS \<Longrightarrow> 0 \<le> nD \<Longrightarrow> 0 \<le> nF \<Longrightarrow> \<exists>s1. add_stat s0 (q, tS, nD, nF) = Inr s1
     \<and> counts_at s1 = (counts_at s0)(q \<mapsto> (of_int tS, of_int nD, of_int nF))"
  by (auto simp: add_stat_def scan_uint64_def counts_at_def update_conv' fun_eq_iff cong: option.case_cong)

lemma foldE_add_stat:
  assumes "distinct (map fst rows)" and "list_all (\<lambda>(p, tS, nD, nF). 0 \<le> tS \<and> 0 \<le> nD \<and> 0 \<le> nF) rows"
  shows "\<exists>s. foldE add_stat s0 rows = Inr s
     \<and> counts_at s = counts_at s0 ++ map_of (map (\<lambda>(p, tS, nD, nF). (p, (of_int tS, of_int nD, of_int nF))) rows)"
  using assms
proof (induction rows arbitrary: s0)
  case (Cons row rows)
  obtain p tS nD nF where row: "row = (p, tS, nD, nF)" by (metis prod_cases4)
  from Cons.prems(2) counts_at_add [of tS nD nF s0 p] obtain s1 where a: "add_stat s0 row = Inr s1"
    and c: "counts_at s1 = (counts_at s0)(p \<mapsto> (of_int tS, of_int nD, of_int nF))"
    by (auto simp: row)
  let ?m = "map_of (map (\<lambda>(p, tS, nD, nF). (p, (of_int tS :: 64 word, of_int nD :: 64 word, of_int nF :: 64 word))) rows)"
  have "p \<notin> dom ?m" using Cons.prems(1) by (auto simp: row dom_map_of_conv_image_fst) (metis fst_conv imageI)
  then have "(counts_at s0)(p \<mapsto> (of_int tS, of_int nD, of_int nF)) ++ ?m
      = counts_at s0 ++ ?m(p \<mapsto> (of_int tS, of_int nD, of_int nF))"
    by (auto simp: map_add_def fun_eq_iff domIff split: option.splits)
  moreover from Cons.IH [of s1] Cons.prems obtain s where "foldE add_stat s1 rows = Inr s" "counts_at s = counts_at s1 ++ ?m"
    by (auto simp: row)
  ultimately have "foldE add_stat s0 (row # rows) = Inr s \<and> counts_at s = counts_at s0 ++ ?m(p \<mapsto> (of_int tS, of_int nD, of_int nF))"
    by (simp only: foldE.simps a c bindE.simps)
  then show ?case by (auto simp only: row list.map map_of.simps prod.case fst_conv snd_conv)
qed simp

lemma stat_groups_map:
  "map_of (stat_groups dT pairs) p = (let g = filter (\<lambda>(t, f). dT (tr_discovered_on t) = p) pairs in
     if g = [] then None else Some (stat_group g))"
proof -
  have "map_of (map (\<lambda>p. (p, h p)) ps) p = (if p \<in> set ps then Some (h p) else None)"
    for ps and h :: "string \<Rightarrow> int \<times> int \<times> int"
    by (induction ps) auto
  moreover have "p \<in> set (remdups (map (\<lambda>(t, f). dT (tr_discovered_on t)) pairs))
      \<longleftrightarrow> filter (\<lambda>(t, f). dT (tr_discovered_on t) = p) pairs \<noteq> []"
    by (force simp: filter_empty_conv)
  ultimately show ?thesis unfolding stat_groups_def Let_def by (simp only: if_not_P split: if_splits) simp
qed

lemma stat_groups_keys: "distinct (map fst (stat_groups dT pairs))"
  by (simp add: stat_groups_def comp_def)

text \<open>The torrents discovered in an interval and labelled with a period, and their files.\<close>

definition in_period :: "(int \<Rightarrow> string) \<Rightarrow> int \<Rightarrow> int \<Rightarrow> string \<Rightarrow> torrent_row \<Rightarrow> bool" where
  "in_period dT lo hi p t \<longleftrightarrow> lo \<le> tr_discovered_on t \<and> tr_discovered_on t \<le> hi \<and> dT (tr_discovered_on t) = p"

definition torrents_in :: "(int \<Rightarrow> string) \<Rightarrow> int \<Rightarrow> int \<Rightarrow> string \<Rightarrow> sqlite_db \<Rightarrow> torrent_row set" where
  "torrents_in dT lo hi p d = {t \<in> set (sl_torrents d). in_period dT lo hi p t \<and> files_of (tr_id t) d \<noteq> []}"

definition files_in :: "(int \<Rightarrow> string) \<Rightarrow> int \<Rightarrow> int \<Rightarrow> string \<Rightarrow> sqlite_db \<Rightarrow> file_row set" where
  "files_in dT lo hi p d = {f \<in> set (sl_files d). \<exists>t \<in> set (sl_torrents d). tr_id t = fr_torrent_id f \<and> in_period dT lo hi p t}"

lemma period_pairs:
  assumes "tables_ok d" and "g = filter (\<lambda>(t, f). dT (tr_discovered_on t) = p) (stat_pairs lo hi d)"
  shows "set (map fst g) = torrents_in dT lo hi p d" and "set (map snd g) = files_in dT lo hi p d"
    and "distinct (map snd g)"
proof -
  show "set (map fst g) = torrents_in dT lo hi p d"
    by (force simp: assms(2) stat_pairs_def torrents_in_def in_period_def files_of_def filter_empty_conv)
  show "set (map snd g) = files_in dT lo hi p d"
    by (force simp: assms(2) stat_pairs_def files_in_def in_period_def)
  have dt: "distinct (map tr_id (sl_torrents d))" "distinct (map fr_id (sl_files d))"
    using assms(1) by (simp_all add: tables_ok_def)
  then have "distinct g" by (simp add: assms(2) stat_pairs_def distinct_map distinct_product)
  moreover have "inj_on snd (set g)"
    using dt(1) by (auto simp: assms(2) stat_pairs_def inj_on_def distinct_map)
  ultimately show "distinct (map snd g)" by (simp add: distinct_map)
qed

lemma period_group:
  assumes "tables_ok d" and "g = filter (\<lambda>(t, f). dT (tr_discovered_on t) = p) (stat_pairs lo hi d)"
  shows "stat_group g = (\<Sum>f \<in> files_in dT lo hi p d. fr_size f,
    int (card (torrents_in dT lo hi p d)), int (card (files_in dT lo hi p d)))"
proof -
  note pp = period_pairs [OF assms]
  have m: "map (\<lambda>(t, f). h f) g = map h (map snd g)" "map (\<lambda>(t, f). k t) g = map k (map fst g)" for h :: "file_row \<Rightarrow> 'x" and k :: "torrent_row \<Rightarrow> 'y"
    by (simp_all add: case_prod_beta)
  have "inj_on tr_id (torrents_in dT lo hi p d)" "inj_on fr_id (files_in dT lo hi p d)"
    using assms(1) by (auto simp: tables_ok_def distinct_map torrents_in_def files_in_def intro: inj_on_subset)
  moreover have "sum_list (map fr_size (map snd g)) = (\<Sum>f \<in> files_in dT lo hi p d. fr_size f)"
    using pp(2,3) by (metis sum_list_distinct_conv_sum_set)
  ultimately show ?thesis
    unfolding stat_group_def m set_map [of tr_id] set_map [of fr_id] pp(1) pp(2) by (simp add: card_image)
qed

lemma until_time_days:
  assumes "uint n \<le> 2562047"
  shows "until_time Hour t n = t + 3600 * uint n \<and> until_time Day t n = t + 86400 * uint n
    \<and> until_time Week t n = t + 604800 * uint n"
proof -
  have "- (2 ^ 63) \<le> uint n" "uint n < 2 ^ 63" using assms by (auto intro: order_trans [of _ 0])
  then have "sint n = uint n" by (simp add: sint_uint signed_take_bit_int_eq_self)
  moreover have "wrap64 (uint n * k) = uint n * k" if "0 \<le> k" "k \<le> 3600000000000" for k
  proof (rule wrap64_id)
    have "uint n * k \<le> 2562047 * 3600000000000" using assms that by (intro mult_mono) auto
    then show "uint n * k < 2 ^ 63" by simp
    have "0 \<le> uint n * k" using that by simp
    then show "- (2 ^ 63) \<le> uint n * k" by (rule order_trans [rotated]) simp
  qed
  from this [of 7] this [of 3600000000000]
  have "wrap64 (uint n * 3600000000000) = uint n * 3600000000000" "wrap64 (uint n * 7) = uint n * 7"
    by simp_all
  moreover have "uint n * 3600000000000 div 1000000000 = 3600 * uint n" by simp
  ultimately show ?thesis by (simp add: AddDate_days)
qed

text \<open>C22: the statistics count what was discovered between the time that \<open>ParseISO8601\<close> gives for the start,
  which is the last second of that period, and \<open>n\<close> hours, days or weeks later, both included (\<open>n\<close> calendar
  months or years later likewise).  For every label that \<open>strftime\<close> gives to such a time, the three maps have
  the total size of the files, the number of torrents that have files, and the number of files; no other label occurs.\<close>

theorem sqlite3_statistics:
  assumes "sqlite_ok c" and "smooth drv (sc_calls c)" and "\<forall>f \<in> set (sl_files (sc_db c)). 0 \<le> fr_size f"
    and "ParseISO8601 since = Inr (t, gran)" and "uint n \<le> 2562047"
  shows "\<exists>s. fst (sqlite3_GetStatistics drv strftime since n c) = Inr s
     \<and> (\<forall>p. counts_at s p =
          (let dT = strftime (time_format gran); hi = until_time gran t n;
               F = files_in dT t hi p (sc_db c); T = torrents_in dT t hi p (sc_db c)
           in if F = {} then None else Some (of_int (\<Sum>f \<in> F. fr_size f), of_nat (card T), of_nat (card F))))
     \<and> until_time Hour t n = t + 3600 * uint n \<and> until_time Day t n = t + 86400 * uint n
     \<and> until_time Week t n = t + 604800 * uint n"
proof -
  let ?dT = "strftime (time_format gran)" and ?d = "sc_db c"
  let ?pairs = "stat_pairs t (until_time gran t n) ?d"
  let ?rows = "stat_groups ?dT ?pairs"
  have ok: "tables_ok ?d" using assms(1) by (simp add: sqlite_ok_def)
  have "0 \<le> fr_size f" if "(u, f) \<in> set ?pairs" for u f
    using that assms(3) by (auto simp: stat_pairs_def)
  then have "list_all (\<lambda>(p, tS, nD, nF). 0 \<le> tS \<and> 0 \<le> nD \<and> 0 \<le> nF) ?rows"
    by (auto simp: stat_groups_def stat_group_def list_all_iff intro!: sum_list_nonneg)
  from foldE_add_stat [OF stat_groups_keys this, of NewStatistics] obtain s where
    f: "foldE add_stat NewStatistics ?rows = Inr s" and
    cs: "counts_at s = counts_at NewStatistics ++ map_of (map (\<lambda>(p, tS, nD, nF). (p, (of_int tS, of_int nD, of_int nF))) ?rows)"
    by blast
  have e: "counts_at NewStatistics = Map.empty" by (simp add: counts_at_def NewStatistics_def fun_eq_iff)
  have "map_of (map (\<lambda>(p, v). (p, h v)) xs) q = map_option h (map_of xs q)"
    for h :: "int \<times> int \<times> int \<Rightarrow> 64 word \<times> 64 word \<times> 64 word" and xs and q :: string
    by (induction xs) auto
  from this [of "\<lambda>(tS, nD, nF). (of_int tS, of_int nD, of_int nF)"]
  have "counts_at s p = map_option (\<lambda>(tS, nD, nF). (of_int tS, of_int nD, of_int nF)) (map_of ?rows p)" for p
    unfolding cs e by (simp add: case_prod_unfold)
  then have "counts_at s p = (let F = files_in ?dT t (until_time gran t n) p ?d; T = torrents_in ?dT t (until_time gran t n) p ?d
      in if F = {} then None else Some (of_int (\<Sum>f \<in> F. fr_size f), of_nat (card T), of_nat (card F)))" for p
    using period_group [OF ok refl, of ?dT p t "until_time gran t n"]
      period_pairs(2) [OF ok refl, of ?dT p t "until_time gran t n", symmetric]
    by (simp add: stat_groups_map Let_def del: set_filter)
  moreover have "fst (sqlite3_GetStatistics drv strftime since n c) = Inr s"
    using f by (simp add: sqlite3_GetStatistics_def bindL_def wrapL_def liftL_def assms(4) catchL_def smooth_ops(2) [OF assms(2)]
        deferL_def closed_rows)
  ultimately show ?thesis using until_time_days [OF assms(5), of t] unfolding Let_def by blast
qed

definition stats_conn :: "sqlite_db sql_conn" where
  "stats_conn = demo_conn\<lparr>sc_db := empty_db\<lparr>
     sl_torrents := [(demo_row 1 ''a'' 724)\<lparr>tr_discovered_on := 1514900000\<rparr>],
     sl_files := [\<lparr>fr_id = 1, fr_torrent_id = 1, fr_size = 700, fr_path = ''a''\<rparr>,
       \<lparr>fr_id = 2, fr_torrent_id = 1, fr_size = 24, fr_path = ''b''\<rparr>]\<rparr>\<rparr>"

theorem sqlite3_statistics_witness:
  "\<exists>s. fst (sqlite3_GetStatistics steady_driver (\<lambda>fmt _. fmt) ''2018-01-01'' 1 stats_conn) = Inr s
     \<and> counts_at s ''%Y-%m-%d'' = Some (724, 1, 2)"
proof -
  have ok: "sqlite_ok stats_conn"
    by (simp add: sqlite_ok_def stats_conn_def demo_conn_def fresh_conn_def tables_ok_def empty_db_def demo_row_def)
  have sm: "smooth steady_driver (sc_calls stats_conn)"
    by (simp add: smooth_def steady_driver_def failing_driver_def)
  have fs: "\<forall>f \<in> set (sl_files (sc_db stats_conn)). 0 \<le> fr_size f" by (simp add: stats_conn_def)
  have ps: "ParseISO8601 ''2018-01-01'' = Inr (1514851199, Day)" by code_simp
  have n: "uint (1 :: 64 word) \<le> 2562047" by simp
  have u: "until_time Day 1514851199 1 = 1514937599" using until_time_days [OF n, of 1514851199] by simp
  have F: "files_in (\<lambda>_. ''%Y-%m-%d'') 1514851199 1514937599 ''%Y-%m-%d'' (sc_db stats_conn)
      = {\<lparr>fr_id = 1, fr_torrent_id = 1, fr_size = 700, fr_path = ''a''\<rparr>, \<lparr>fr_id = 2, fr_torrent_id = 1, fr_size = 24, fr_path = ''b''\<rparr>}"
    by (auto simp: files_in_def in_period_def stats_conn_def demo_row_def)
  have T: "torrents_in (\<lambda>_. ''%Y-%m-%d'') 1514851199 1514937599 ''%Y-%m-%d'' (sc_db stats_conn)
      = {(demo_row 1 ''a'' 724)\<lparr>tr_discovered_on := 1514900000\<rparr>}"
    by (auto simp: torrents_in_def in_period_def stats_conn_def demo_row_def files_of_def)
  from sqlite3_statistics [OF ok sm fs ps n, of "\<lambda>fmt _. fmt"] obtain s where
    "fst (sqlite3_GetStatistics steady_driver (\<lambda>fmt _. fmt) ''2018-01-01'' 1 stats_conn) = Inr s"
    and "\<forall>p. counts_at s p = (let dT = \<lambda>_. time_format Day; hi = until_time Day 1514851199 1;
               F = files_in dT 1514851199 hi p (sc_db stats_conn); T = torrents_in dT 1514851199 hi p (sc_db stats_conn)
           in if F = {} then None else Some (of_int (\<Sum>f \<in> F. fr_size f), of_nat (card T), of_nat (card F)))"
    by blast
  moreover from spec [OF this(2), of "''%Y-%m-%d''"] have "counts_at s ''%Y-%m-%d'' = Some (724, 1, 2)"
    by (simp only: u time_format.simps Let_def F T) simp
  ultimately show ?thesis by blast
qed

end
