(* ===== verification/Sqlite3Schema.thy ===== *)
theory Sqlite3Schema
  imports Sqlite3
begin

text \<open>
  Opening the SQLite database: \<open>makeSqlite3Database\<close> and \<open>setupDatabase\<close> of \<open>pkg/persistence/sqlite3.go\<close>, with the
  migrations from the schema versions 0, 1 and 2 to version 3.  The statements of the migration scripts
  are values of \<open>stmt\<close>; \<open>exec_stmt\<close> says what they do to the schema, that is to the names of tables,
  indices and triggers and to the columns of the two tables, and to the rows.
\<close>

subsection \<open>Statements\<close>

datatype stmt =
  CreateTable string "string list"
| DropIndex string
| CreateUniqueIndex string
| CreateIndex string
| CreateVirtualTable string
| CreateTrigger string
| AddTorrentsColumn string
| AddFilesColumn string
| PopulateIndex
| UpdateModifiedOn
| SetUserVersion int

definition create_object :: "string \<Rightarrow> sqlite_db \<Rightarrow> string + sqlite_db" where
  "create_object n d = (if n \<in> set (sl_objects d) then Inl (n @ '' already exists'')
     else Inr (d\<lparr>sl_objects := sl_objects d @ [n]\<rparr>))"

text \<open>A new column holds its default in every row: NULL for \<open>updated_on\<close>, a time far in the future for
  \<open>modified_on\<close>.\<close>

definition fill_column :: "string \<Rightarrow> torrent_row \<Rightarrow> torrent_row" where
  "fill_column col t = (if col = ''updated_on'' then t\<lparr>tr_updated_on := None\<rparr>
     else if col = ''modified_on'' then t\<lparr>tr_modified_on := Some modified_on_default\<rparr> else t)"

definition set_modified_on :: "torrent_row \<Rightarrow> torrent_row" where
  "set_modified_on t = t\<lparr>tr_modified_on :=
     Some (max (tr_discovered_on t) (case tr_updated_on t of None \<Rightarrow> 0 | Some u \<Rightarrow> u))\<rparr>"

fun exec_stmt :: "stmt \<Rightarrow> sqlite_db \<Rightarrow> string + sqlite_db" where
  "exec_stmt (CreateTable n cols) d =
     (if n \<in> set (sl_objects d) then Inr d
      else if n = ''torrents'' then Inr (d\<lparr>sl_objects := sl_objects d @ [n], sl_torrents_cols := cols\<rparr>)
      else Inr (d\<lparr>sl_objects := sl_objects d @ [n], sl_files_cols := cols\<rparr>))"
| "exec_stmt (DropIndex n) d = Inr (d\<lparr>sl_objects := removeAll n (sl_objects d)\<rparr>)"
| "exec_stmt (CreateUniqueIndex n) d =
     (if n = ''info_hash_index'' \<and> \<not> distinct (map tr_info_hash (sl_torrents d))
      then Inl ''UNIQUE constraint failed: torrents.info_hash'' else create_object n d)"
| "exec_stmt (CreateIndex n) d = create_object n d"
| "exec_stmt (CreateVirtualTable n) d = create_object n d"
| "exec_stmt (CreateTrigger n) d = create_object n d"
| "exec_stmt (AddTorrentsColumn col) d =
     (if col \<in> set (sl_torrents_cols d) then Inl (''duplicate column name: '' @ col)
      else Inr (d\<lparr>sl_torrents_cols := sl_torrents_cols d @ [col], sl_torrents := map (fill_column col) (sl_torrents d)\<rparr>))"
| "exec_stmt (AddFilesColumn col) d =
     (if col \<in> set (sl_files_cols d) then Inl (''duplicate column name: '' @ col)
      else Inr (d\<lparr>sl_files_cols := sl_files_cols d @ [col]\<rparr>))"
| "exec_stmt PopulateIndex d = Inr d"
| "exec_stmt UpdateModifiedOn d = Inr (d\<lparr>sl_torrents := map set_modified_on (sl_torrents d)\<rparr>)"
| "exec_stmt (SetUserVersion v) d = Inr (d\<lparr>sl_version := v\<rparr>)"

fun run_script :: "stmt list \<Rightarrow> sqlite_db \<Rightarrow> string + unit \<times> sqlite_db" where
  "run_script [] d = Inr ((), d)"
| "run_script (s # ss) d = (case exec_stmt s d of Inl e \<Rightarrow> Inl e | Inr d' \<Rightarrow> run_script ss d')"

subsection \<open>The scripts\<close>

definition script_v0 :: "stmt list" where
  "script_v0 = [CreateTable ''torrents'' [''id'', ''info_hash'', ''name'', ''total_size'', ''discovered_on''],
     CreateTable ''files'' [''id'', ''torrent_id'', ''size'', ''path'']]"

definition script_v1 :: "stmt list" where
  "script_v1 = [DropIndex ''info_hash_index'', CreateUniqueIndex ''info_hash_index'', SetUserVersion 1]"

definition script_v2 :: "stmt list" where
  "script_v2 = [AddTorrentsColumn ''updated_on'', AddTorrentsColumn ''n_seeders'', AddTorrentsColumn ''n_leechers'',
     AddFilesColumn ''is_readme'', AddFilesColumn ''content'', CreateUniqueIndex ''readme_index'', SetUserVersion 2]"

definition script_v3 :: "stmt list" where
  "script_v3 = [CreateVirtualTable ''torrents_idx'', PopulateIndex, CreateTrigger ''torrents_idx_ai_t'',
     CreateTrigger ''torrents_idx_ad_t'', CreateTrigger ''torrents_idx_au_t'', AddTorrentsColumn ''modified_on'',
     CreateTrigger ''torrents_modified_on_default_t'', UpdateModifiedOn, CreateIndex ''modified_on_index'',
     SetUserVersion 3]"

subsection \<open>setupDatabase\<close>

text \<open>The cases of the switch fall through to the next.\<close>

definition upgrade_2 :: "sql_driver \<Rightarrow> unit sqlite_op" where
  "upgrade_2 drv = wrapL ''sql.Tx.Exec (v2 -> v3)'' (tx_Exec drv (run_script script_v3))"

definition upgrade_1 :: "sql_driver \<Rightarrow> unit sqlite_op" where
  "upgrade_1 drv = bindL (wrapL ''sql.Tx.Exec (v1 -> v2)'' (tx_Exec drv (run_script script_v2))) (\<lambda>_. upgrade_2 drv)"

definition upgrade_0 :: "sql_driver \<Rightarrow> unit sqlite_op" where
  "upgrade_0 drv = bindL (wrapL ''sql.Tx.Exec (v0 -> v1)'' (tx_Exec drv (run_script script_v1))) (\<lambda>_. upgrade_1 drv)"

definition upgrade :: "sql_driver \<Rightarrow> int \<Rightarrow> unit sqlite_op" where
  "upgrade drv userVersion = (if userVersion = 0 then upgrade_0 drv else if userVersion = 1 then upgrade_1 drv
     else if userVersion = 2 then upgrade_2 drv else ret ())"

definition setupDatabase :: "sql_driver \<Rightarrow> unit sqlite_op" where
  "setupDatabase drv =
     bindL (wrapL ''sql.DB.Exec (PRAGMAs)'' (conn_Exec drv)) (\<lambda>_.
     bindL (wrapL ''sql.DB.Begin'' (Begin drv)) (\<lambda>_. deferL Rollback (
     bindL (wrapL ''sql.Tx.Exec (v0)'' (tx_Exec drv (run_script script_v0))) (\<lambda>_.
     bindL (wrapL ''sql.Tx.Query (user_version)'' (tx_Query drv (\<lambda>d. Inr [sl_version d]))) (\<lambda>rows.
     case rs_rows rows of
       [] \<Rightarrow> raise (Err ''sql.Rows.Next (user_version): PRAGMA user_version did not return any rows'')
     | userVersion # _ \<Rightarrow> bindL (upgrade drv userVersion) (\<lambda>_. wrapL ''sql.Tx.Commit'' (Commit drv)))))))"

text \<open>\<open>dir, _ := path.Split(p)\<close>: up to and including the last slash.\<close>

definition path_dir :: "string \<Rightarrow> string" where
  "path_dir p = take (length p - length (takeWhile (\<lambda>c. c \<noteq> CHR ''/'') (rev p))) p"

text \<open>\<open>mkdir\<close> and \<open>opens\<close> are the errors of \<open>os.MkdirAll\<close> and \<open>sql.Open\<close>; \<open>d\<close> are the contents of the file.\<close>

definition makeSqlite3Database :: "(string \<Rightarrow> string option) \<Rightarrow> (url \<Rightarrow> string option) \<Rightarrow> sql_driver \<Rightarrow> url \<Rightarrow>
    sqlite_db \<Rightarrow> (go_error + unit) \<times> sqlite_db sql_conn" where
  "makeSqlite3Database mkdir opens drv u d =
     (let dbDir = path_dir (url_Path u); c = \<lparr>sc_db = d, sc_tx = None, sc_calls = 0\<rparr> in
      case mkdir dbDir of Some e \<Rightarrow> wrapL (''mkdirAll error for `'' @ dbDir @ ''`'') (raise (Err e)) c
      | None \<Rightarrow>
      (case opens (u\<lparr>url_Scheme := ''file''\<rparr>) of Some e \<Rightarrow> wrapL ''sql.Open'' (raise (Err e)) c
      | None \<Rightarrow>
        bindL (wrapL ''sql.DB.Ping'' (driver_call drv)) (\<lambda>_. wrapL ''setupDatabase'' (setupDatabase drv)) c))"

subsection \<open>What the scripts do\<close>

text \<open>A database of version \<open>v\<close>: what the scripts of later versions create is not there yet, and infohashes are
  unique, as they are declared from version 0 on.\<close>

definition at_version :: "int \<Rightarrow> sqlite_db \<Rightarrow> bool" where
  "at_version v d \<longleftrightarrow> sl_version d = v \<and> 0 \<le> v \<and> distinct (map tr_info_hash (sl_torrents d))
     \<and> (if v < 2 then set (sl_torrents_cols d) \<inter> {''updated_on'', ''n_seeders'', ''n_leechers''} = {}
          \<and> set (sl_files_cols d) \<inter> {''is_readme'', ''content''} = {} \<and> ''readme_index'' \<notin> set (sl_objects d) else True)
     \<and> (if v < 3 then ''modified_on'' \<notin> set (sl_torrents_cols d) \<and> set (sl_objects d) \<inter> {''torrents_idx'', ''torrents_idx_ai_t'',
          ''torrents_idx_ad_t'', ''torrents_idx_au_t'', ''torrents_modified_on_default_t'', ''modified_on_index''} = {} else True)"

definition same_rows :: "sqlite_db \<Rightarrow> sqlite_db \<Rightarrow> bool" where
  "same_rows d d' \<longleftrightarrow> sl_files d' = sl_files d
     \<and> map (\<lambda>t. t\<lparr>tr_updated_on := None, tr_modified_on := None\<rparr>) (sl_torrents d')
       = map (\<lambda>t. t\<lparr>tr_updated_on := None, tr_modified_on := None\<rparr>) (sl_torrents d)"

definition has_tables :: "sqlite_db \<Rightarrow> bool" where
  "has_tables d \<longleftrightarrow> {''torrents'', ''files''} \<subseteq> set (sl_objects d)"

lemma same_rows_refl [simp]: "same_rows d d"
  by (simp add: same_rows_def)

lemma same_rows_trans: "same_rows d d' \<Longrightarrow> same_rows d' d'' \<Longrightarrow> same_rows d d''"
  by (simp add: same_rows_def)

lemma contents_rows:
  "sqlite_contents d h = map_option (\<lambda>(n, i). (n, map stored_file (files_of i d)))
     (map_of (map (\<lambda>t. (tr_info_hash t, (tr_name t, tr_id t))) (sl_torrents d)) h)"
proof -
  have "map_of (map (\<lambda>t. (tr_info_hash t, (tr_name t, tr_id t))) ts) h
      = map_option (\<lambda>t. (tr_name t, tr_id t)) (map_of (map (\<lambda>t. (tr_info_hash t, t)) ts) h)" for ts :: "torrent_row list"
    by (induction ts) auto
  then show ?thesis by (simp add: sqlite_contents_def torrent_of_def option.map_comp comp_def)
qed

lemma same_rows_contents:
  assumes "same_rows d d'"
  shows "sqlite_contents d' = sqlite_contents d"
proof
  fix h
  let ?g = "\<lambda>t. (tr_info_hash t, (tr_name t, tr_id t))"
  have "map ?g (map (\<lambda>t. t\<lparr>tr_updated_on := None, tr_modified_on := None\<rparr>) (sl_torrents d'))
      = map ?g (map (\<lambda>t. t\<lparr>tr_updated_on := None, tr_modified_on := None\<rparr>) (sl_torrents d))"
    using assms unfolding same_rows_def by (metis (no_types))
  then have "map ?g (sl_torrents d') = map ?g (sl_torrents d)" by (simp add: comp_def)
  then show "sqlite_contents d' h = sqlite_contents d h"
    using assms by (simp only: contents_rows) (simp add: files_of_def same_rows_def)
qed

lemma run_v0:
  "\<exists>d'. run_script script_v0 d = Inr ((), d') \<and> same_rows d d' \<and> has_tables d' \<and> sl_version d' = sl_version d
     \<and> (at_version v d \<longrightarrow> at_version v d') \<and> (has_tables d \<longrightarrow> d' = d)"
  by (auto simp: script_v0_def same_rows_def at_version_def has_tables_def split: if_splits)

lemma run_v1:
  "at_version 0 d \<Longrightarrow> has_tables d \<Longrightarrow>
     \<exists>d'. run_script script_v1 d = Inr ((), d') \<and> same_rows d d' \<and> at_version 1 d' \<and> has_tables d'"
  by (auto simp: script_v1_def same_rows_def at_version_def has_tables_def create_object_def)

lemma run_v2:
  "at_version 1 d \<Longrightarrow> has_tables d \<Longrightarrow>
     \<exists>d'. run_script script_v2 d = Inr ((), d') \<and> same_rows d d' \<and> at_version 2 d' \<and> has_tables d'"
  by (auto simp: script_v2_def same_rows_def at_version_def has_tables_def create_object_def fill_column_def comp_def)

lemma run_v3:
  "at_version 2 d \<Longrightarrow> has_tables d \<Longrightarrow>
     \<exists>d'. run_script script_v3 d = Inr ((), d') \<and> same_rows d d' \<and> at_version 3 d' \<and> has_tables d'
     \<and> list_all (\<lambda>t. set_modified_on t = t) (sl_torrents d')"
  by (auto simp: script_v3_def same_rows_def at_version_def has_tables_def create_object_def fill_column_def
      set_modified_on_def comp_def list_all_iff)

subsection \<open>Migration\<close>

text \<open>A step of a transaction that goes on from \<open>c\<close> to \<open>c'\<close> and takes its view from \<open>d\<close> to \<open>d'\<close>.\<close>

definition advances :: "sql_driver \<Rightarrow> sqlite_db sql_conn \<Rightarrow> sqlite_db sql_conn \<Rightarrow> sqlite_db \<Rightarrow> sqlite_db \<Rightarrow> bool" where
  "advances drv c c' d d' \<longleftrightarrow> sc_tx c' = Some d' \<and> sc_db c' = sc_db c \<and> smooth drv (sc_calls c') \<and> same_rows d d'"

lemma advances_trans: "advances drv c c' d d' \<Longrightarrow> advances drv c' c'' d' d'' \<Longrightarrow> advances drv c c'' d d''"
  using same_rows_trans by (auto simp: advances_def)

lemma script_advances:
  assumes "smooth drv (sc_calls c)" and "sc_tx c = Some d" and "run_script ss d = Inr ((), d')" and "same_rows d d'"
  shows "\<exists>c'. wrapL msg (tx_Exec drv (run_script ss)) c = (Inr (), c') \<and> advances drv c c' d d'"
  using assms smooth_ops(5) [OF assms(1,2), of "run_script ss"] by (simp add: advances_def wrapL_def)

lemma upgrade_2_advances:
  assumes "smooth drv (sc_calls c)" and "sc_tx c = Some d" and "at_version 2 d" and "has_tables d"
  shows "\<exists>c' d'. upgrade_2 drv c = (Inr (), c') \<and> advances drv c c' d d' \<and> at_version 3 d' \<and> has_tables d'
    \<and> list_all (\<lambda>t. set_modified_on t = t) (sl_torrents d')"
  using run_v3 [OF assms(3,4)] script_advances [OF assms(1,2)] unfolding upgrade_2_def by blast

lemma upgrade_1_advances:
  assumes "smooth drv (sc_calls c)" and "sc_tx c = Some d" and "at_version 1 d" and "has_tables d"
  shows "\<exists>c' d'. upgrade_1 drv c = (Inr (), c') \<and> advances drv c c' d d' \<and> at_version 3 d' \<and> has_tables d'
    \<and> list_all (\<lambda>t. set_modified_on t = t) (sl_torrents d')"
proof -
  from run_v2 [OF assms(3,4)] obtain d1 where r: "run_script script_v2 d = Inr ((), d1)" "same_rows d d1"
    "at_version 2 d1" "has_tables d1" by blast
  from script_advances [OF assms(1,2) r(1,2)] obtain c1 where
    c1: "wrapL ''sql.Tx.Exec (v1 -> v2)'' (tx_Exec drv (run_script script_v2)) c = (Inr (), c1)" "advances drv c c1 d d1"
    by blast
  then have "smooth drv (sc_calls c1)" "sc_tx c1 = Some d1" by (simp_all add: advances_def)
  from upgrade_2_advances [OF this r(3,4)] obtain c2 d2 where "upgrade_2 drv c1 = (Inr (), c2)" "advances drv c1 c2 d1 d2"
    "at_version 3 d2" "has_tables d2" "list_all (\<lambda>t. set_modified_on t = t) (sl_torrents d2)" by blast
  moreover from this c1 have "upgrade_1 drv c = (Inr (), c2)" by (simp add: upgrade_1_def bindL_def wrapL_def)
  ultimately show ?thesis using advances_trans [OF c1(2)] by blast
qed

lemma upgrade_0_advances:
  assumes "smooth drv (sc_calls c)" and "sc_tx c = Some d" and "at_version 0 d" and "has_tables d"
  shows "\<exists>c' d'. upgrade_0 drv c = (Inr (), c') \<and> advances drv c c' d d' \<and> at_version 3 d' \<and> has_tables d'
    \<and> list_all (\<lambda>t. set_modified_on t = t) (sl_torrents d')"
proof -
  from run_v1 [OF assms(3,4)] obtain d1 where r: "run_script script_v1 d = Inr ((), d1)" "same_rows d d1"
    "at_version 1 d1" "has_tables d1" by blast
  from script_advances [OF assms(1,2) r(1,2)] obtain c1 where
    c1: "wrapL ''sql.Tx.Exec (v0 -> v1)'' (tx_Exec drv (run_script script_v1)) c = (Inr (), c1)" "advances drv c c1 d d1"
    by blast
  then have "smooth drv (sc_calls c1)" "sc_tx c1 = Some d1" by (simp_all add: advances_def)
  from upgrade_1_advances [OF this r(3,4)] obtain c2 d2 where "upgrade_1 drv c1 = (Inr (), c2)" "advances drv c1 c2 d1 d2"
    "at_version 3 d2" "has_tables d2" "list_all (\<lambda>t. set_modified_on t = t) (sl_torrents d2)" by blast
  moreover from this c1 have "upgrade_0 drv c = (Inr (), c2)" by (simp add: upgrade_0_def bindL_def wrapL_def)
  ultimately show ?thesis using advances_trans [OF c1(2)] by blast
qed

lemma upgrade_advances:
  assumes "smooth drv (sc_calls c)" and "sc_tx c = Some d" and "at_version v d" and "has_tables d" and "v \<le> 3"
  shows "\<exists>c' d'. upgrade drv v c = (Inr (), c') \<and> advances drv c c' d d' \<and> at_version 3 d' \<and> has_tables d'
    \<and> (if v < 3 then list_all (\<lambda>t. set_modified_on t = t) (sl_torrents d') else d' = d)"
proof -
  from assms(3,5) have "v = 0 \<or> v = 1 \<or> v = 2 \<or> v = 3" by (auto simp: at_version_def)
  then show ?thesis
    using assms upgrade_0_advances [OF assms(1,2)] upgrade_1_advances [OF assms(1,2)] upgrade_2_advances [OF assms(1,2)]
    by (elim disjE) (auto simp: upgrade_def ret_def advances_def)
qed

lemma upgrade_committed: "keeps committed_same (upgrade drv v)"
  unfolding upgrade_def upgrade_0_def upgrade_1_def upgrade_2_def by (intro keeps_committed)

lemma setupDatabase_atomic: "atomic (setupDatabase drv)"
proof -
  have "atomic (case rs of [] \<Rightarrow> raise e | v # _ \<Rightarrow> bindL (upgrade drv v) (\<lambda>_. wrapL msg (Commit drv)))" for rs e msg
    using upgrade_committed [of drv] by (cases rs) (auto intro: atomic_bindL atomic_wrapL atomic_Commit atomic_keeps committed.keeps_basic)
  then show ?thesis
    unfolding setupDatabase_def by (intro atomic_bindL atomic_Rollback keeps_committed)
qed

lemma setupDatabase_smooth:
  assumes "smooth drv (sc_calls c)" and "sc_tx c = None" and "at_version v (sc_db c)" and "v \<le> 3"
  shows "\<exists>c'. setupDatabase drv c = (Inr (), c') \<and> sc_tx c' = None \<and> smooth drv (sc_calls c')
    \<and> at_version 3 (sc_db c') \<and> has_tables (sc_db c') \<and> same_rows (sc_db c) (sc_db c')
    \<and> (if v < 3 then list_all (\<lambda>t. set_modified_on t = t) (sl_torrents (sc_db c')) else True)
    \<and> (if v = 3 \<and> has_tables (sc_db c) then sc_db c' = sc_db c else True)"
proof -
  let ?c1 = "c\<lparr>sc_calls := Suc (sc_calls c)\<rparr>"
  let ?c2 = "c\<lparr>sc_calls := Suc (Suc (sc_calls c)), sc_tx := Some (sc_db c)\<rparr>"
  from run_v0 [of "sc_db c" v] assms(3) obtain d1 where r: "run_script script_v0 (sc_db c) = Inr ((), d1)"
    "same_rows (sc_db c) d1" "has_tables d1" "sl_version d1 = v" "at_version v d1" "has_tables (sc_db c) \<longrightarrow> d1 = sc_db c"
    by (auto simp: at_version_def)
  have b: "conn_Exec drv c = (Inr (), ?c1)" "Begin drv ?c1 = (Inr (), ?c2)"
    using smooth_call [OF assms(1)] smooth_ops(1) [of drv ?c1] assms(1) by (simp_all add: conn_Exec_def)
  from script_advances [of drv ?c2, OF _ _ r(1,2)] assms(1) obtain c3 where
    c3: "tx_Exec drv (run_script script_v0) ?c2 = (Inr (), c3)" "advances drv ?c2 c3 (sc_db c) d1" by auto
  then have s3: "smooth drv (sc_calls c3)" "sc_tx c3 = Some d1" by (simp_all add: advances_def)
  let ?c4 = "c3\<lparr>sc_calls := Suc (sc_calls c3)\<rparr>"
  have q: "tx_Query drv (\<lambda>d. Inr [sl_version d]) c3 = (Inr \<lparr>rs_rows = [v], rs_Err = False\<rparr>, ?c4)"
    using smooth_ops(3) [OF s3, of "\<lambda>d. Inr [sl_version d]"] r(4) by simp
  have s4: "smooth drv (sc_calls ?c4)" "sc_tx ?c4 = Some d1" using s3 by simp_all
  from upgrade_advances [OF s4 r(5,3) assms(4)] obtain c5 d5 where u: "upgrade drv v ?c4 = (Inr (), c5)"
    "advances drv ?c4 c5 d1 d5" "at_version 3 d5" "has_tables d5"
    "if v < 3 then list_all (\<lambda>t. set_modified_on t = t) (sl_torrents d5) else d5 = d1" by blast
  then have s5: "smooth drv (sc_calls c5)" "sc_tx c5 = Some d5" "same_rows d1 d5" by (simp_all add: advances_def)
  have "setupDatabase drv c = (Inr (), c5\<lparr>sc_calls := Suc (sc_calls c5), sc_db := d5, sc_tx := None\<rparr>)"
    using smooth_ops(4) [OF s5(1,2)]
    by (simp add: setupDatabase_def bindL_def wrapL_def deferL_def Rollback_def b c3(1) q u(1))
  with u(3-5) s5(1,3) r(2,6) show ?thesis using same_rows_trans by (auto split: if_splits)
qed



end
