(* ===== verification/Postgres.thy ===== *)
theory Postgres
  imports Sqlite3
begin

text \<open>
  The PostgreSQL engine of \<open>pkg/persistence/postgres.go\<close>.  Its tables have the rows of the first version of
  the SQLite schema, so the row types and the notion of contents are those of theory \<open>Sqlite3\<close>, reached by the
  function \<open>pg_tables\<close>.  What differs is modelled here: names and paths have to be valid UTF-8 and free of
  NUL, integers are 32 or 64 bits wide, and keys come from sequences.

  A sequence is a parameter: \<open>1 + seq k\<close> is the value that \<open>nextval\<close> delivers to the \<open>k\<close>-th call of the driver.
  Nothing else is assumed of it, since a key in use violates the primary key.
\<close>

subsection \<open>Package unicode/utf8\<close>

definition in_range :: "nat \<Rightarrow> nat \<Rightarrow> char \<Rightarrow> bool" where
  "in_range lo hi c \<longleftrightarrow> lo \<le> (of_char c :: nat) \<and> of_char c \<le> hi"

fun ValidString :: "string \<Rightarrow> bool" where
  "ValidString [] = True"
| "ValidString (a # s) =
     (if in_range 0x00 0x7F a then ValidString s
      else if in_range 0xC2 0xDF a then (case s of b # s1 \<Rightarrow> in_range 0x80 0xBF b \<and> ValidString s1 | _ \<Rightarrow> False)
      else if in_range 0xE0 0xEF a then (case s of b # c # s1 \<Rightarrow>
          in_range (if in_range 0xE0 0xE0 a then 0xA0 else 0x80) (if in_range 0xED 0xED a then 0x9F else 0xBF) b
          \<and> in_range 0x80 0xBF c \<and> ValidString s1 | _ \<Rightarrow> False)
      else if in_range 0xF0 0xF4 a then (case s of b # c # d # s1 \<Rightarrow>
          in_range (if in_range 0xF0 0xF0 a then 0x90 else 0x80) (if in_range 0xF4 0xF4 a then 0x8F else 0xBF) b
          \<and> in_range 0x80 0xBF c \<and> in_range 0x80 0xBF d \<and> ValidString s1 | _ \<Rightarrow> False)
      else False)"

subsection \<open>Tables\<close>

record pg_db =
  pg_extensions :: "string list"
  pg_objects :: "string list"
  pg_migrations :: "int list"
  pg_torrents :: "torrent_row list"
  pg_files :: "file_row list"

record postgresDatabase =
  pg_conn :: "pg_db sql_conn"
  pg_schema :: string

type_synonym 'a pg_op = "(pg_db sql_conn, 'a) op"

definition pg_tables :: "pg_db \<Rightarrow> sqlite_db" where
  "pg_tables d = \<lparr>sl_version = 0, sl_objects = [], sl_torrents_cols = [], sl_files_cols = [],
     sl_torrents = pg_torrents d, sl_files = pg_files d\<rparr>"

text \<open>Values of \<open>INTEGER\<close> and \<open>TEXT\<close> columns.\<close>

definition int4 :: "int \<Rightarrow> bool" where
  "int4 v \<longleftrightarrow> - (2 ^ 31) \<le> v \<and> v < 2 ^ 31"

definition pg_text :: "string \<Rightarrow> bool" where
  "pg_text s \<longleftrightarrow> ValidString s \<and> CHR 0x00 \<notin> set s"

definition pg_insert_torrent :: "int \<Rightarrow> byte list \<Rightarrow> string \<Rightarrow> 64 word \<Rightarrow> int \<Rightarrow> pg_db \<Rightarrow> string + int \<times> pg_db" where
  "pg_insert_torrent i infoHash name totalSize discovered_on d =
     (case bind_uint64 totalSize of Inl e \<Rightarrow> Inl e | Inr total_size \<Rightarrow>
      if \<not> pg_text name then Inl ''invalid byte sequence for encoding UTF8''
      else if \<not> int4 discovered_on \<or> \<not> int4 i then Inl ''integer out of range''
      else if i \<in> set (map tr_id (pg_torrents d)) then Inl ''duplicate key value violates unique constraint torrents_pkey''
      else if infoHash \<in> set (map tr_info_hash (pg_torrents d))
        then Inl ''duplicate key value violates unique constraint torrents_info_hash_key''
      else if \<not> total_size > 0 then Inl ''violates check constraint torrents_total_size_check''
      else if \<not> discovered_on > 0 then Inl ''violates check constraint torrents_discovered_on_check''
      else Inr (i, d\<lparr>pg_torrents := pg_torrents d @
        [\<lparr>tr_id = i, tr_info_hash = infoHash, tr_name = name, tr_total_size = total_size,
          tr_discovered_on = discovered_on, tr_updated_on = None, tr_modified_on = None\<rparr>]\<rparr>))"

definition pg_insert_file :: "int \<Rightarrow> int \<Rightarrow> File \<Rightarrow> pg_db \<Rightarrow> string + unit \<times> pg_db" where
  "pg_insert_file i torrent_id f d =
     (if \<not> pg_text (f_Path f) then Inl ''invalid byte sequence for encoding UTF8''
      else if \<not> int4 torrent_id \<or> \<not> int4 i then Inl ''integer out of range''
      else if i \<in> set (map fr_id (pg_files d)) then Inl ''duplicate key value violates unique constraint files_pkey''
      else if torrent_id \<notin> set (map tr_id (pg_torrents d)) then Inl ''violates foreign key constraint files_torrent_id_fkey''
      else Inr ((), d\<lparr>pg_files := pg_files d @ [\<lparr>fr_id = i, fr_torrent_id = torrent_id, fr_size = f_Size f,
        fr_path = f_Path f\<rparr>]\<rparr>))"

subsection \<open>DoesTorrentExist and AddNewTorrent\<close>

definition postgres_DoesTorrentExist :: "sql_driver \<Rightarrow> byte list \<Rightarrow> bool pg_op" where
  "postgres_DoesTorrentExist drv infoHash =
     bindL (conn_Query drv (\<lambda>d. Inr (map (\<lambda>t. 1 :: int) (filter (\<lambda>t. tr_info_hash t = infoHash) (pg_torrents d)))))
       (\<lambda>rows. let exists = rs_rows rows \<noteq> [] in if rs_Err rows then ret False else ret exists)"

text \<open>The loop over the files and the commit; a path that is not UTF-8 ends it without an error, and the
  transaction is rolled back.\<close>

fun pg_insert_files :: "sql_driver \<Rightarrow> (nat \<Rightarrow> nat) \<Rightarrow> int \<Rightarrow> File list \<Rightarrow> unit pg_op" where
  "pg_insert_files drv seq lastInsertId [] = wrapL ''tx.Commit'' (Commit drv)"
| "pg_insert_files drv seq lastInsertId (f # fs) =
     (if \<not> ValidString (f_Path f) then ret ()
      else bindL (wrapL ''tx.Exec (INSERT INTO files)'' (\<lambda>c. tx_Exec drv (pg_insert_file (1 + int (seq (sc_calls c))) lastInsertId f) c))
        (\<lambda>_. pg_insert_files drv seq lastInsertId fs))"

definition postgres_AddNewTorrent ::
  "sql_driver \<Rightarrow> (nat \<Rightarrow> nat) \<Rightarrow> byte list \<Rightarrow> string \<Rightarrow> File list \<Rightarrow> unit pg_op" where
  "postgres_AddNewTorrent drv seq infoHash name files =
     (if \<not> ValidString name then ret ()
      else bindL (wrapL ''conn.Begin'' (Begin drv)) (\<lambda>_. deferL Rollback
       (if total_size_of files = 0 then ret ()
        else bindL (postgres_DoesTorrentExist drv infoHash) (\<lambda>exist.
          if exist then ret ()
          else bindL (wrapL ''tx.QueryRow (INSERT INTO torrents)'' (\<lambda>c. tx_Exec drv (pg_insert_torrent (1 + int (seq (sc_calls c)))
              infoHash name (total_size_of files) (drv_now drv (sc_calls c))) c))
            (\<lambda>lastInsertId. pg_insert_files drv seq lastInsertId files)))))"

definition postgres_Close :: "sql_driver \<Rightarrow> unit pg_op" where
  "postgres_Close drv = driver_call drv"

subsection \<open>Reading\<close>

text \<open>\<open>estimate d\<close> are the entries of \<open>pg_class\<close> for \<open>torrents\<close>, NULL or an estimated number of rows.\<close>

definition postgres_GetNumberOfTorrents :: "sql_driver \<Rightarrow> (pg_db \<Rightarrow> int option list) \<Rightarrow> 64 word pg_op" where
  "postgres_GetNumberOfTorrents drv estimate =
     bindL (conn_Query drv (\<lambda>d. Inr (estimate d))) (\<lambda>rows. case rs_rows rows of
        [] \<Rightarrow> raise (Err ''no rows returned from `SELECT reltuples::BIGINT AS estimate_count`'')
      | n # _ \<Rightarrow> (case n of None \<Rightarrow> ret 0 | Some v \<Rightarrow> liftL (scan_uint64 v)))"

definition postgres_QueryTorrents :: "string \<Rightarrow> int \<Rightarrow> OrderingCriteria \<Rightarrow> bool \<Rightarrow> 64 word \<Rightarrow> rat option \<Rightarrow>
    64 word option \<Rightarrow> TorrentMetadata list pg_op" where
  "postgres_QueryTorrents query epoch orderBy ascending limit lastOrderedValue lastID = raise NotImplementedError"

definition postgres_GetTorrent :: "sql_driver \<Rightarrow> byte list \<Rightarrow> TorrentMetadata option pg_op" where
  "postgres_GetTorrent drv infoHash =
     bindL (catchL (conn_Query drv (\<lambda>d. Inr (map (\<lambda>t. (t, int (length (files_of (tr_id t) (pg_tables d)))))
         (filter (\<lambda>t. tr_info_hash t = infoHash) (pg_torrents d))))))
       (\<lambda>rows. deferL (closeRows rows) (case rows of
          Inl e \<Rightarrow> raise (Err e)
        | Inr rs \<Rightarrow> (case rs_rows rs of
              [] \<Rightarrow> ret None
            | (t, n_files) # _ \<Rightarrow> bindL (liftL (scan_uint64 (tr_total_size t))) (\<lambda>size.
                bindL (liftL (scan_uint64 n_files)) (\<lambda>nFiles.
                ret (Some \<lparr>tm_ID = 0, tm_InfoHash = tr_info_hash t, tm_Name = tr_name t, tm_Size = size,
                  tm_DiscoveredOn = tr_discovered_on t, tm_NFiles = nFiles, tm_Relevance = 0\<rparr>))))))"

definition postgres_GetFiles :: "sql_driver \<Rightarrow> byte list \<Rightarrow> File list pg_op" where
  "postgres_GetFiles drv infoHash =
     bindL (catchL (conn_Query drv (\<lambda>d. Inr (select_files infoHash (pg_tables d)))))
       (\<lambda>rows. deferL (closeRows rows) (case rows of
          Inl e \<Rightarrow> raise (Err e) | Inr rs \<Rightarrow> ret (rs_rows rs)))"

definition postgres_GetStatistics :: "string \<Rightarrow> 64 word \<Rightarrow> Statistics pg_op" where
  "postgres_GetStatistics since n = raise NotImplementedError"

subsection \<open>Opening\<close>

definition pg_create :: "string \<Rightarrow> pg_db \<Rightarrow> pg_db" where
  "pg_create n d = (if n \<in> set (pg_objects d) then d else d\<lparr>pg_objects := pg_objects d @ [n]\<rparr>)"

text \<open>Every \<open>CREATE\<close> of the script has \<open>IF NOT EXISTS\<close>.\<close>

definition pg_script_v0 :: "string \<Rightarrow> pg_db \<Rightarrow> string + unit \<times> pg_db" where
  "pg_script_v0 schema d =
     (let d' = fold pg_create [schema, ''seq_torrents_id'', ''seq_files_id'', ''torrents'', ''idx_torrents_total_size'',
          ''idx_torrents_discovered_on'', ''idx_torrents_name_gin_trgm'', ''files'', ''idx_files_torrent_id'', ''migrations''] d
      in Inr ((), if 0 \<in> set (pg_migrations d') then d' else d'\<lparr>pg_migrations := pg_migrations d' @ [0]\<rparr>))"

text \<open>The query for the extension is made on the connection; when its iteration breaks off, the nil error of \<open>Query\<close>
  is returned.\<close>

definition pg_setupDatabase :: "sql_driver \<Rightarrow> string \<Rightarrow> unit pg_op" where
  "pg_setupDatabase drv schema =
     bindL (wrapL ''sql.DB.Begin'' (Begin drv)) (\<lambda>_. deferL Rollback (
     bindL (conn_Query drv (\<lambda>d. Inr (filter (\<lambda>x. x = ''pg_trgm'') (pg_extensions d)))) (\<lambda>rows.
     let trgmInstalled = rs_rows rows \<noteq> [] in
     if rs_Err rows then ret ()
     else if \<not> trgmInstalled then raise (Err
       ''pg_trgm extension is not enabled. You need to execute 'CREATE EXTENSION pg_trgm' on this database'')
     else bindL (wrapL ''sql.Tx.Exec (v0)'' (tx_Exec drv (pg_script_v0 schema))) (\<lambda>_.
       bindL (wrapL ''sql.Tx.Query (SELECT MAX(version) FROM migrations)''
           (tx_Query drv (\<lambda>d. Inr [Max (set (pg_migrations d))]))) (\<lambda>rows.
       case rs_rows rows of
         [] \<Rightarrow> raise (Err ''sql.Rows.Next (SELECT MAX(version) FROM migrations): Query did not return any rows'')
       | schemaVersion # _ \<Rightarrow> wrapL ''sql.Tx.Commit'' (Commit drv))))))"

text \<open>\<open>url_.Query()\<close> parses the query anew on each call, so the calls of \<open>Set\<close> and \<open>Del\<close> on it change nothing and
  the URL is opened as it was given.\<close>

definition makePostgresDatabase :: "(url \<Rightarrow> string option) \<Rightarrow> sql_driver \<Rightarrow> url \<Rightarrow> pg_db \<Rightarrow>
    (go_error + unit) \<times> postgresDatabase" where
  "makePostgresDatabase opens drv u d =
     (let schema = Get (url_Query u) ''schema''; schema = (if schema = [] then ''magneticod'' else schema);
          c = \<lparr>sc_db = d, sc_tx = None, sc_calls = 0\<rparr>;
          (r, c') = (case opens u of Some e \<Rightarrow> wrapL ''sql.Open'' (raise (Err e)) c
            | None \<Rightarrow> bindL (wrapL ''sql.DB.Ping'' (driver_call drv))
                (\<lambda>_. wrapL ''setupDatabase'' (pg_setupDatabase drv schema)) c)
      in (r, \<lparr>pg_conn = c', pg_schema = schema\<rparr>))"

subsection \<open>The tables as a store\<close>

definition pg_ok :: "pg_db sql_conn \<Rightarrow> bool" where
  "pg_ok c \<longleftrightarrow> tables_ok (pg_tables (sc_db c)) \<and> sc_tx c = None"

definition pg_contents :: "pg_db \<Rightarrow> contents" where
  "pg_contents d = sqlite_contents (pg_tables d)"

lemma pg_exists_committed: "keeps committed_same (postgres_DoesTorrentExist drv h)"
  unfolding postgres_DoesTorrentExist_def Let_def by (intro keeps_committed)

lemma pg_exists_tx: "postgres_DoesTorrentExist drv h c = (r, c') \<Longrightarrow> sc_tx c' = sc_tx c"
  by (auto simp: postgres_DoesTorrentExist_def bindL_def ret_def Let_def
      split: prod.splits sum.splits if_splits dest!: conn_Query_tx)

lemma pg_exists_sound:
  assumes "postgres_DoesTorrentExist drv h c = (Inr True, c')" and "tables_ok (pg_tables (sc_db c))"
  shows "pg_contents (sc_db c) h \<noteq> None"
proof -
  from assms(1) obtain rows c1 where q: "conn_Query drv (\<lambda>d. Inr (map (\<lambda>t. 1 :: int)
      (filter (\<lambda>t. tr_info_hash t = h) (pg_torrents d)))) c = (Inr rows, c1)" and "rs_rows rows \<noteq> []"
    by (auto simp: postgres_DoesTorrentExist_def bindL_Inr_iff Let_def ret_def split: if_splits)
  with conn_Query_Inr [OF q] have "filter (\<lambda>t. tr_info_hash t = h) (pg_torrents (sc_db c)) \<noteq> []"
    by (auto simp: fetch_def split: option.splits)
  with sqlite3_exists_eq [OF assms(2), of "\<lambda>t. t"] show ?thesis by (simp add: pg_tables_def pg_contents_def)
qed

text \<open>The loop commits the rows of all files, or it commits nothing.\<close>

lemma pg_insert_files_result:
  assumes "pg_insert_files drv seq i fs c = (r, c')" and "sc_tx c = Some d" and "distinct (map fr_id (pg_files d))"
  shows "sc_db c' = sc_db c \<or> r = Inr () \<and> list_all (\<lambda>f. ValidString (f_Path f)) fs \<and> (\<exists>rows. sc_db c' = d\<lparr>pg_files := pg_files d @ rows\<rparr>
    \<and> map stored_file rows = fs \<and> (\<forall>f \<in> set rows. fr_torrent_id f = i)
    \<and> distinct (map fr_id (pg_files d @ rows)))"
  using assms
proof (induction fs arbitrary: c d)
  case Nil
  show ?case
  proof (cases r)
    case (Inl e)
    with Nil have "atomic (wrapL ''tx.Commit'' (Commit drv))" "wrapL ''tx.Commit'' (Commit drv) c = (Inl e, c')"
      by (simp_all add: atomic_wrapL atomic_Commit)
    then show ?thesis by (auto simp: atomic_def)
  next
    case (Inr u)
    with Nil have "Commit drv c = (Inr u, c')" by simp
    from Commit_Inr [OF this] Nil(2,3) Inr show ?thesis by (auto intro!: exI [of _ "[]"])
  qed
next
  case (Cons f fs)
  let ?ex = "tx_Exec drv (pg_insert_file (1 + int (seq (sc_calls c))) i f) c"
  show ?case
  proof (cases "\<not> ValidString (f_Path f)")
    case True
    with Cons.prems(1) show ?thesis by (simp add: ret_def)
  next
    case False
    obtain q c1 where e: "?ex = (q, c1)" by fastforce
    show ?thesis
    proof (cases q)
      case (Inl err)
      with e Cons.prems(1) False have "c' = c1" by (cases err) (auto simp: bindL_def wrapL_def)
      with e sql_committed(3) [THEN keepsD] show ?thesis by (metis committed_same_def)
    next
      case (Inr u)
      from e Inr have e': "?ex = (Inr u, c1)" by simp
      from tx_Exec_Inr [OF e'] Cons.prems(2) obtain d1 where
        i: "pg_insert_file (1 + int (seq (sc_calls c))) i f d = Inr (u, d1)" and c1: "sc_tx c1 = Some d1" "sc_db c1 = sc_db c"
        by auto
      define x where "x = \<lparr>fr_id = 1 + int (seq (sc_calls c)), fr_torrent_id = i, fr_size = f_Size f, fr_path = f_Path f\<rparr>"
      from i have d1: "fr_id x \<notin> set (map fr_id (pg_files d))" "d1 = d\<lparr>pg_files := pg_files d @ [x]\<rparr>"
        by (auto simp: pg_insert_file_def x_def split: if_splits)
      have x: "stored_file x = f" "fr_torrent_id x = i" by (simp_all add: x_def stored_file_def)
      have rest: "pg_insert_files drv seq i fs c1 = (r, c')"
        using Cons.prems(1) False e' by (simp add: bindL_def wrapL_def)
      have "distinct (map fr_id (pg_files d1))" using d1 Cons.prems(3) by simp
      from Cons.IH [OF rest c1(1) this] show ?thesis
      proof
        assume "r = Inr () \<and> list_all (\<lambda>f. ValidString (f_Path f)) fs \<and> (\<exists>rows. sc_db c' = d1\<lparr>pg_files := pg_files d1 @ rows\<rparr> \<and> map stored_file rows = fs
          \<and> (\<forall>f \<in> set rows. fr_torrent_id f = i) \<and> distinct (map fr_id (pg_files d1 @ rows)))"
        then obtain rows where "r = Inr ()" "list_all (\<lambda>f. ValidString (f_Path f)) (f # fs)" "sc_db c' = d\<lparr>pg_files := pg_files d @ x # rows\<rparr>" "map stored_file (x # rows) = f # fs"
          "\<forall>f \<in> set (x # rows). fr_torrent_id f = i" "distinct (map fr_id (pg_files d @ x # rows))"
          using x False by (auto simp: d1(2))
        then show ?thesis by (intro disjI2 conjI exI [of _ "x # rows"])
      qed (simp add: c1(2))
    qed
  qed
qed

lemma pg_files_committed: "atomic (pg_insert_files drv seq i fs)"
proof (induction fs)
  case (Cons f fs)
  have "keeps committed_same (\<lambda>c. tx_Exec drv (pg_insert_file (1 + int (seq (sc_calls c))) i f) c)"
    by (rule committed.keeps_at) (use sql_committed(3) in blast)
  with Cons show ?case
    by (auto intro!: atomic_if atomic_bindL committed.keeps_wrapL atomic_keeps [OF committed.keeps_basic(1)])
qed (simp add: atomic_wrapL atomic_Commit)

text \<open>What \<open>AddNewTorrent\<close> may have committed.\<close>

definition pg_added :: "byte list \<Rightarrow> string \<Rightarrow> File list \<Rightarrow> pg_db \<Rightarrow> pg_db \<Rightarrow> bool" where
  "pg_added h n fs d d' \<longleftrightarrow> list_all (\<lambda>f. ValidString (f_Path f)) fs \<and> (\<exists>i now d1 rows. 0 < i \<and> pg_insert_torrent i h n (total_size_of fs) now d = Inr (i, d1)
     \<and> d' = d1\<lparr>pg_files := pg_files d1 @ rows\<rparr> \<and> map stored_file rows = fs
     \<and> (\<forall>f \<in> set rows. fr_torrent_id f = i) \<and> distinct (map fr_id (pg_files d1 @ rows)))"

lemma pg_insert_result:
  assumes "bindL (wrapL msg (\<lambda>c. tx_Exec drv (pg_insert_torrent (1 + int (seq (sc_calls c)))
      h n (total_size_of fs) (drv_now drv (sc_calls c))) c)) (\<lambda>i. pg_insert_files drv seq i fs) c = (r, c')"
    and "sc_tx c = Some d" and "distinct (map fr_id (pg_files d))"
  shows "sc_db c' = sc_db c \<or> r = Inr () \<and> pg_added h n fs d (sc_db c')"
proof -
  let ?i = "1 + int (seq (sc_calls c))"
  let ?ins = "pg_insert_torrent ?i h n (total_size_of fs) (drv_now drv (sc_calls c))"
  obtain q c1 where e: "tx_Exec drv ?ins c = (q, c1)" by fastforce
  then have c1: "sc_db c1 = sc_db c" using sql_committed(3) [THEN keepsD] by (auto simp: committed_same_def)
  show ?thesis
  proof (cases q)
    case (Inl err)
    with e assms(1) have "c' = c1" by (cases err) (auto simp: bindL_def wrapL_def)
    with c1 show ?thesis by simp
  next
    case (Inr i)
    with e have "tx_Exec drv ?ins c = (Inr i, c1)" by simp
    from tx_Exec_Inr [OF this] assms(2) obtain d1 where i: "?ins d = Inr (i, d1)" "sc_tx c1 = Some d1" by auto
    then have d1: "i = ?i" "pg_files d1 = pg_files d"
      by (auto simp: pg_insert_torrent_def split: sum.splits if_splits)
    have f: "pg_insert_files drv seq i fs c1 = (r, c')"
      using assms(1) e Inr by (simp add: bindL_def wrapL_def)
    have "distinct (map fr_id (pg_files d1))" using assms(3) d1(2) by simp
    from pg_insert_files_result [OF f i(2) this] show ?thesis
    proof
      assume "r = Inr () \<and> list_all (\<lambda>f. ValidString (f_Path f)) fs \<and> (\<exists>rows. sc_db c' = d1\<lparr>pg_files := pg_files d1 @ rows\<rparr> \<and> map stored_file rows = fs
        \<and> (\<forall>f \<in> set rows. fr_torrent_id f = i) \<and> distinct (map fr_id (pg_files d1 @ rows)))"
      then show ?thesis using i(1) unfolding pg_added_def d1(1) by (metis add_pos_nonneg of_nat_0_le_iff zero_less_one)
    qed (simp_all add: c1)
  qed
qed

lemma pg_added_ok:
  assumes "tables_ok (pg_tables d)" and "pg_added h n fs d d'"
  shows "tables_ok (pg_tables d') \<and> pg_contents d h = None \<and> list_all (\<lambda>f. ValidString (f_Path f)) fs \<and> ValidString n \<and> pg_contents d' = (pg_contents d)(h \<mapsto> (n, fs))"
proof -
  from assms(2) obtain i now d1 rows where a: "0 < i" "pg_insert_torrent i h n (total_size_of fs) now d = Inr (i, d1)"
    "d' = d1\<lparr>pg_files := pg_files d1 @ rows\<rparr>" "map stored_file rows = fs" "\<forall>f \<in> set rows. fr_torrent_id f = i"
    "distinct (map fr_id (pg_files d1 @ rows))" unfolding pg_added_def by blast
  define t where "t = \<lparr>tr_id = i, tr_info_hash = h, tr_name = n, tr_total_size = uint (total_size_of fs),
    tr_discovered_on = now, tr_updated_on = None, tr_modified_on = None\<rparr>"
  from a(2) have t: "i \<notin> set (map tr_id (pg_torrents d))" "h \<notin> set (map tr_info_hash (pg_torrents d))"
    "0 < uint (total_size_of fs)" "uint (total_size_of fs) < 2 ^ 63" "d1 = d\<lparr>pg_torrents := pg_torrents d @ [t]\<rparr>"
    "ValidString n" by (auto simp: pg_insert_torrent_def bind_uint64_def t_def pg_text_def split: if_splits)
  have d': "pg_tables d' = (pg_tables d)\<lparr>sl_torrents := sl_torrents (pg_tables d) @ [t], sl_files := sl_files (pg_tables d) @ rows\<rparr>"
    by (simp add: pg_tables_def a(3) t(5))
  have no: "torrent_of (pg_tables d) h = None"
    using t(2) unfolding torrent_of_None by (simp add: pg_tables_def)
  have "tables_ok (pg_tables d')"
    unfolding d' using assms(1) t(1-4) a(1,5,6) t(5) by (auto simp: tables_ok_def pg_tables_def t_def)
  moreover have "sqlite_contents (pg_tables d') = (sqlite_contents (pg_tables d))(h \<mapsto> (n, map stored_file rows))"
    unfolding d' using append_contents [OF assms(1), of t rows] no t(1) a(5) by (simp add: t_def pg_tables_def)
  ultimately show ?thesis using no a(4) t(6) assms(2) by (simp add: pg_contents_def sqlite_contents_def pg_added_def)
qed

lemma pg_add_cases:
  assumes "postgres_AddNewTorrent drv seq h n fs c = (r, c')" and "pg_ok c"
  shows "sc_tx c' = None \<and> (sc_db c' = sc_db c \<or> r = Inr () \<and> pg_added h n fs (sc_db c) (sc_db c'))"
proof (cases "ValidString n")
  case True
  have d: "distinct (map fr_id (pg_files (sc_db c)))" using assms(2) by (simp add: pg_ok_def tables_ok_def pg_tables_def)
  show ?thesis
  proof (rule guarded_transaction [where P = "\<lambda>q d. q = Inr () \<and> pg_added h n fs (sc_db c) d"])
    fix c1 c2 :: "pg_db sql_conn" and q
    assume "sc_tx c1 = Some (sc_db c)" and "bindL (wrapL ''tx.QueryRow (INSERT INTO torrents)''
      (\<lambda>c. tx_Exec drv (pg_insert_torrent (1 + int (seq (sc_calls c))) h n (total_size_of fs) (drv_now drv (sc_calls c))) c))
      (\<lambda>i. pg_insert_files drv seq i fs) c1 = (q, c2)"
    with d show "sc_db c2 = sc_db c1 \<or> q = Inr () \<and> pg_added h n fs (sc_db c) (sc_db c2)"
      using pg_insert_result by blast
  qed (use assms True in \<open>auto simp: postgres_AddNewTorrent_def pg_ok_def intro: pg_exists_committed pg_exists_tx\<close>)
next
  case False
  with assms show ?thesis by (simp add: postgres_AddNewTorrent_def ret_def pg_ok_def)
qed

lemma pg_add_ok:
  "postgres_AddNewTorrent drv seq h n fs c = (r, c') \<Longrightarrow> pg_ok c \<Longrightarrow> pg_ok c'"
  using pg_add_cases [of drv seq h n fs c r c'] pg_added_ok [of "sc_db c" h n fs "sc_db c'"] by (auto simp: pg_ok_def)

lemma pg_add_contents:
  assumes "postgres_AddNewTorrent drv seq h n fs c = (r, c')" and "pg_ok c"
  shows "sc_db c' = sc_db c \<or> r = Inr () \<and> pg_contents (sc_db c) h = None
    \<and> ValidString n \<and> list_all (\<lambda>f. ValidString (f_Path f)) fs \<and> pg_contents (sc_db c') = (pg_contents (sc_db c))(h \<mapsto> (n, fs))"
  using pg_add_cases [OF assms] assms(2) pg_added_ok [of "sc_db c" h n fs "sc_db c'"] by (auto simp: pg_ok_def)

interpretation postgres: torrent_store pg_ok "\<lambda>c. pg_contents (sc_db c)"
  "postgres_DoesTorrentExist drv" "postgres_AddNewTorrent drv seq" for drv seq
proof
  fix c c' :: "pg_db sql_conn" and h r
  assume "pg_ok c" and "postgres_DoesTorrentExist drv h c = (r, c')"
  then show "pg_ok c' \<and> pg_contents (sc_db c') = pg_contents (sc_db c)"
    using pg_exists_tx pg_exists_committed [THEN keepsD]
    by (fastforce simp: pg_ok_def committed_same_def)
qed (use pg_add_ok pg_add_contents pg_exists_sound in \<open>fastforce simp: pg_ok_def\<close>)+

subsection \<open>Properties\<close>


definition pg_fresh :: "pg_db sql_conn" where
  "pg_fresh = \<lparr>sc_db = \<lparr>pg_extensions = [''pg_trgm''], pg_objects = [], pg_migrations = [], pg_torrents = [], pg_files = []\<rparr>,
     sc_tx = None, sc_calls = 0\<rparr>"


end
