(* ===== verification/Database.thy ===== *)
theory Database
  imports Sqlite3Stats Sqlite3Schema Postgres
begin

text \<open>
  The interface \<open>Database\<close> of \<open>pkg/persistence/interface.go\<close>: a value of the interface is one of the four
  engines, and a call of a method is a call of the engine's method.  What the engines need from
  outside is collected in a record \<open>host\<close>.
\<close>

subsection \<open>The engines\<close>

record host =
  h_parse :: "string \<Rightarrow> string + url"
  h_mkdir :: "string \<Rightarrow> string option"
  h_open :: "url \<Rightarrow> string option"
  h_driver :: sql_driver
  h_rank :: ranking
  h_strftime :: "string \<Rightarrow> int \<Rightarrow> string"
  h_sequence :: "nat \<Rightarrow> nat"
  h_estimate :: "pg_db \<Rightarrow> int option list"
  h_write :: "nat \<Rightarrow> string option"
  h_sync :: "string option"
  h_beanstalk :: beanstalk_server
  h_sqlite_file :: sqlite_db
  h_pg_data :: pg_db

datatype database =
  SqliteDB "sqlite_db sql_conn"
| PostgresDB postgresDatabase
| StdoutDB stdout
| BeanstalkDB beanstalkd

definition on_sqlite :: "'a sqlite_op \<Rightarrow> sqlite_db sql_conn \<Rightarrow> (go_error + 'a) \<times> database" where
  "on_sqlite m c = map_prod id SqliteDB (m c)"

definition on_postgres :: "'a pg_op \<Rightarrow> postgresDatabase \<Rightarrow> (go_error + 'a) \<times> database" where
  "on_postgres m p = map_prod id (\<lambda>c. PostgresDB (p\<lparr>pg_conn := c\<rparr>)) (m (pg_conn p))"

definition on_stdout :: "(stdout, 'a) op \<Rightarrow> stdout \<Rightarrow> (go_error + 'a) \<times> database" where
  "on_stdout m s = map_prod id StdoutDB (m s)"

definition on_beanstalk :: "(beanstalkd, 'a) op \<Rightarrow> beanstalkd \<Rightarrow> (go_error + 'a) \<times> database" where
  "on_beanstalk m s = map_prod id BeanstalkDB (m s)"

lemmas on_engine_defs = on_sqlite_def on_postgres_def on_stdout_def on_beanstalk_def

text \<open>A method of the interface, given the methods of the four engines.\<close>

definition dispatch :: "'a sqlite_op \<Rightarrow> 'a pg_op \<Rightarrow> (stdout, 'a) op \<Rightarrow> (beanstalkd, 'a) op \<Rightarrow> (database, 'a) op" where
  "dispatch ms mp mo mb db = (case db of
       SqliteDB c \<Rightarrow> on_sqlite ms c
     | PostgresDB p \<Rightarrow> on_postgres mp p
     | StdoutDB s \<Rightarrow> on_stdout mo s
     | BeanstalkDB b \<Rightarrow> on_beanstalk mb b)"

subsection \<open>The methods\<close>

fun Engine :: "database \<Rightarrow> databaseEngine" where
  "Engine (SqliteDB c) = Sqlite3"
| "Engine (PostgresDB p) = Postgres"
| "Engine (StdoutDB s) = Stdout"
| "Engine (BeanstalkDB b) = Beanstalkd"

definition DoesTorrentExist :: "host \<Rightarrow> byte list \<Rightarrow> (database, bool) op" where
  "DoesTorrentExist H infoHash = dispatch (sqlite3_DoesTorrentExist (h_driver H) infoHash)
     (postgres_DoesTorrentExist (h_driver H) infoHash) (stdout_DoesTorrentExist infoHash) (beanstalkd_DoesTorrentExist infoHash)"

definition AddNewTorrent :: "host \<Rightarrow> byte list \<Rightarrow> string \<Rightarrow> File list \<Rightarrow> (database, unit) op" where
  "AddNewTorrent H infoHash name files = dispatch (sqlite3_AddNewTorrent (h_driver H) infoHash name files)
     (postgres_AddNewTorrent (h_driver H) (h_sequence H) infoHash name files)
     (stdout_AddNewTorrent (h_write H) infoHash name files) (beanstalkd_AddNewTorrent (h_beanstalk H) infoHash name files)"

definition Database_Close :: "host \<Rightarrow> (database, unit) op" where
  "Database_Close H = dispatch (sqlite3_Close (h_driver H)) (postgres_Close (h_driver H))
     (stdout_Close (h_sync H)) beanstalkd_Close"

definition GetNumberOfTorrents :: "host \<Rightarrow> (database, 64 word) op" where
  "GetNumberOfTorrents H = dispatch (sqlite3_GetNumberOfTorrents (h_driver H))
     (postgres_GetNumberOfTorrents (h_driver H) (h_estimate H)) stdout_GetNumberOfTorrents beanstalkd_GetNumberOfTorrents"

definition QueryTorrents :: "host \<Rightarrow> string \<Rightarrow> int \<Rightarrow> OrderingCriteria \<Rightarrow> bool \<Rightarrow> 64 word \<Rightarrow> rat option \<Rightarrow>
    64 word option \<Rightarrow> (database, TorrentMetadata list) op" where
  "QueryTorrents H query epoch orderBy ascending limit lastOrderedValue lastID =
     dispatch (sqlite3_QueryTorrents (h_driver H) (h_rank H) query epoch orderBy ascending limit lastOrderedValue lastID)
       (postgres_QueryTorrents query epoch orderBy ascending limit lastOrderedValue lastID)
       (stdout_QueryTorrents query epoch orderBy ascending limit lastOrderedValue lastID)
       (beanstalkd_QueryTorrents query epoch orderBy ascending limit lastOrderedValue lastID)"

definition GetTorrent :: "host \<Rightarrow> byte list \<Rightarrow> (database, TorrentMetadata option) op" where
  "GetTorrent H infoHash = dispatch (sqlite3_GetTorrent (h_driver H) infoHash) (postgres_GetTorrent (h_driver H) infoHash)
     (stdout_GetTorrent infoHash) (beanstalkd_GetTorrent infoHash)"

definition GetFiles :: "host \<Rightarrow> byte list \<Rightarrow> (database, File list) op" where
  "GetFiles H infoHash = dispatch (sqlite3_GetFiles (h_driver H) infoHash) (postgres_GetFiles (h_driver H) infoHash)
     (stdout_GetFiles infoHash) (beanstalkd_GetFiles infoHash)"

definition GetStatistics :: "host \<Rightarrow> string \<Rightarrow> 64 word \<Rightarrow> (database, Statistics) op" where
  "GetStatistics H since n = dispatch (sqlite3_GetStatistics (h_driver H) (h_strftime H) since n)
     (postgres_GetStatistics since n) (stdout_GetStatistics since n) (beanstalkd_GetStatistics since n)"

text \<open>The four constructors; the SQL engines open what is stored on the host.\<close>

definition MakeDatabase :: "host \<Rightarrow> string \<Rightarrow> go_error + database" where
  "MakeDatabase H rawURL =
     (case h_parse H rawURL of
        Inl e \<Rightarrow> wrapE ''url.Parse'' (Inl (Err e))
      | Inr u \<Rightarrow>
         (if url_Scheme u = ''sqlite3'' then
            (case makeSqlite3Database (h_mkdir H) (h_open H) (h_driver H) u (h_sqlite_file H) of
               (r, c) \<Rightarrow> bindE r (\<lambda>_. Inr (SqliteDB c)))
          else if url_Scheme u = ''postgres'' then
            (case makePostgresDatabase (h_open H) (h_driver H) u (h_pg_data H) of
               (r, p) \<Rightarrow> bindE r (\<lambda>_. Inr (PostgresDB p)))
          else if url_Scheme u = ''stdout'' then bindE makeStdoutDatabase (\<lambda>s. Inr (StdoutDB s))
          else if url_Scheme u = ''beanstalk'' \<or> url_Scheme u = ''beanstalkd'' then
            bindE (makeBeanstalkDatabase (h_beanstalk H) u) (\<lambda>b. Inr (BeanstalkDB b))
          else if url_Scheme u = ''mysql'' then Inl (Err ''mysql is not yet supported'')
          else Inl (Err (''unknown URI scheme: `'' @ url_Scheme u @ ''`''))))"

subsection \<open>Every engine is a store\<close>

text \<open>The engines stdout and beanstalkd pass torrents on and keep nothing.\<close>

fun database_contents :: "database \<Rightarrow> contents" where
  "database_contents (SqliteDB c) = sqlite_contents (sc_db c)"
| "database_contents (PostgresDB p) = pg_contents (sc_db (pg_conn p))"
| "database_contents _ = (\<lambda>h. None)"

fun database_ok :: "database \<Rightarrow> bool" where
  "database_ok (SqliteDB c) = sqlite_ok c"
| "database_ok (PostgresDB p) = pg_ok (pg_conn p)"
| "database_ok _ = True"

lemma dispatch_result:
  assumes "dispatch ms mp mo mb db = (r, db')"
  obtains (sqlite) c c' where "db = SqliteDB c" "db' = SqliteDB c'" "ms c = (r, c')"
  | (postgres) p c' where "db = PostgresDB p" "db' = PostgresDB (p\<lparr>pg_conn := c'\<rparr>)" "mp (pg_conn p) = (r, c')"
  | (stdout) s s' where "db = StdoutDB s" "db' = StdoutDB s'" "mo s = (r, s')"
  | (beanstalk) b b' where "db = BeanstalkDB b" "db' = BeanstalkDB b'" "mb b = (r, b')"
  using assms by (cases db) (auto simp: dispatch_def on_engine_defs map_prod_def split: prod.splits)

interpretation store: torrent_store database_ok database_contents "DoesTorrentExist H" "AddNewTorrent H" for H
proof
  fix db db' :: database and h r
  assume ok: "database_ok db" and e: "DoesTorrentExist H h db = (r, db')"
  from e [unfolded DoesTorrentExist_def] show "database_ok db' \<and> database_contents db' = database_contents db"
    by (cases rule: dispatch_result) (use ok sqlite.exists_keeps postgres.exists_keeps in auto)
next
  fix db db' :: database and h
  assume ok: "database_ok db" and e: "DoesTorrentExist H h db = (Inr True, db')"
  from e [unfolded DoesTorrentExist_def] show "database_contents db h \<noteq> None"
    by (cases rule: dispatch_result) (use ok sqlite.exists_sound postgres.exists_sound in
      \<open>auto simp: stdout_DoesTorrentExist_def beanstalkd_DoesTorrentExist_def ret_def\<close>)
next
  fix db db' :: database and h n fs r
  assume ok: "database_ok db" and e: "AddNewTorrent H h n fs db = (r, db')"
  from e [unfolded AddNewTorrent_def] show "database_ok db'"
    by (cases rule: dispatch_result) (use ok sqlite.add_ok postgres.add_ok in auto)
  from e [unfolded AddNewTorrent_def] show "database_contents db' = database_contents db
      \<or> r = Inr () \<and> database_contents db h = None \<and> database_contents db' = (database_contents db)(h \<mapsto> (n, fs))"
    by (cases rule: dispatch_result) (use ok sqlite.add_contents postgres.add_contents in auto)
qed

end
