(* ===== verification/Leech.thy ===== *)
theory Leech
  imports Sha1 Persistence
begin

text \<open>
  The metadata leech of \<open>cmd/magneticod/bittorrent/metadata/leech.go\<close>, which asks one peer for the info
  dictionary of one infohash (BEP 3, 9 and 10).

  A TCP connection is what a leech can observe of it: the bytes it can still read before its deadline,
  the error that a read meets after them, the number of bytes it can still write and the error after
  those, and the bytes it has written.  Every operation returns a result and the leech, so that the
  state after an error is known.  The bencode and metainfo packages of anacrolix/torrent, the dialler,
  the socket options and the clock are the fields of a \<open>leech_env\<close>.  The callbacks made are collected
  in \<open>l_events\<close>, and \<open>l_closes\<close> counts the successful calls of \<open>conn.Close\<close>.
\<close>

subsection \<open>Data\<close>

record root_dict =
  rd_UTMetadata :: int
  rd_MetadataSize :: int

record ext_dict =
  ed_MsgType :: int
  ed_Piece :: int

record file_info =
  fi_Length :: int
  fi_Path :: "string list"

record info =
  i_Name :: string
  i_Length :: int
  i_PieceLength :: int
  i_Pieces :: "byte list"
  i_Files :: "file_info list"

record metadata =
  md_InfoHash :: "byte list"
  md_Name :: string
  md_TotalSize :: "64 word"
  md_DiscoveredOn :: int
  md_Files :: "File list"

record conn =
  c_in :: "byte list"
  c_end :: string
  c_room :: nat
  c_werr :: string
  c_out :: "byte list"

datatype leech_event = OnSuccess metadata | OnError "byte list" string

record leech =
  l_infoHash :: "byte list"
  l_peerAddr :: tcp_addr
  l_conn :: "conn option"
  l_clientID :: "byte list"
  l_ut_metadata :: byte
  l_metadataReceived :: nat
  l_metadataSize :: nat
  l_metadata :: "byte list"
  l_connClosed :: bool
  l_closes :: nat
  l_events :: "leech_event list"

record leech_env =
  env_dial :: "tcp_addr \<Rightarrow> string + conn"
  env_SetLinger :: "string option"
  env_SetNoDelay :: "string option"
  env_SetDeadline :: "string option"
  env_Close :: "string option"
  env_root :: "byte list \<Rightarrow> string + root_dict"
  env_decode :: "byte list \<Rightarrow> string + ext_dict \<times> byte list"
  env_marshal :: "ext_dict \<Rightarrow> string + byte list"
  env_info :: "byte list \<Rightarrow> string + info"
  env_TotalLength :: "info \<Rightarrow> int"
  env_NumPieces :: "info \<Rightarrow> int"
  env_DisplayPath :: "file_info \<Rightarrow> info \<Rightarrow> string"
  env_now :: int

definition MAX_METADATA_SIZE :: nat where
  "MAX_METADATA_SIZE = 10 * 1024 * 1024"

definition NewLeech :: "byte list \<Rightarrow> tcp_addr \<Rightarrow> byte list \<Rightarrow> leech" where
  "NewLeech infoHash peerAddr clientID = \<lparr>l_infoHash = infoHash, l_peerAddr = peerAddr, l_conn = None,
     l_clientID = go_copy (replicate 20 0) clientID, l_ut_metadata = 0, l_metadataReceived = 0,
     l_metadataSize = 0, l_metadata = [], l_connClosed = False, l_closes = 0, l_events = []\<rparr>"

type_synonym 'a leech_op = "(leech, 'a) op"

subsection \<open>Reading and writing\<close>

text \<open>\<open>conn.Write\<close> writes all of its argument or fails; a nil connection is an invalid argument.\<close>

definition conn_Write :: "byte list \<Rightarrow> nat leech_op" where
  "conn_Write b l =
     (case l_conn l of
        None \<Rightarrow> (Inl (Err ''invalid argument''), l)
      | Some c \<Rightarrow>
          if length b \<le> c_room c
          then (Inr (length b), l\<lparr>l_conn := Some (c\<lparr>c_out := c_out c @ b, c_room := c_room c - length b\<rparr>)\<rparr>)
          else (Inl (Err (c_werr c)), l\<lparr>l_conn := Some (c\<lparr>c_out := c_out c @ take (c_room c) b, c_room := 0\<rparr>)\<rparr>))"

function writeAll :: "byte list \<Rightarrow> unit leech_op" where
  "writeAll b l =
     (if length b \<noteq> 0
      then bindL (conn_Write b) (\<lambda>n. writeAll (drop n b)) l
      else (Inr (), l))"
  by auto
termination
  by (relation "measure (\<lambda>(b, l). length b)")
     (auto simp: conn_Write_def split: option.splits if_splits)

declare writeAll.simps [simp del]

text \<open>\<open>io.ReadFull\<close>: an end of file after some bytes is unexpected.\<close>

definition read_error :: "conn \<Rightarrow> string" where
  "read_error c = (if c_end c = ''EOF'' \<and> c_in c \<noteq> [] then ''unexpected EOF'' else c_end c)"

definition readExactly :: "nat \<Rightarrow> byte list leech_op" where
  "readExactly n l =
     (if n = 0 then (Inr [], l)
      else case l_conn l of
        None \<Rightarrow> (Inl (Err ''invalid argument''), l)
      | Some c \<Rightarrow>
          if n \<le> length (c_in c)
          then (Inr (take n (c_in c)), l\<lparr>l_conn := Some (c\<lparr>c_in := drop n (c_in c)\<rparr>)\<rparr>)
          else (Inl (Err (read_error c)), l\<lparr>l_conn := Some (c\<lparr>c_in := []\<rparr>)\<rparr>))"

definition toBigEndian :: "64 word \<Rightarrow> nat \<Rightarrow> go_error + byte list" where
  "toBigEndian i n =
     (if n = 1 then Inr [ucast i]
      else if n = 2 then Inr (uint16_bytes (ucast i))
      else if n = 4 then Inr (uint32_bytes (ucast i))
      else Inl (Panic ''n must be 1, 2, or 4!''))"

definition readMessage :: "byte list leech_op" where
  "readMessage =
     bindL (wrapL ''readExactly rLengthB'' (readExactly 4)) (\<lambda>rLengthB.
     bindL (liftL (bytes_uint32 rLengthB)) (\<lambda>v.
       let rLength = unat v
       in if rLength > MAX_METADATA_SIZE
          then raise (Err ''message is longer than max allowed metadata size'')
          else wrapL ''readExactly rMessage'' (readExactly rLength)))"

text \<open>The number of bytes a leech can still read, which every message makes smaller.\<close>

definition unread :: "leech \<Rightarrow> nat" where
  "unread l = (case l_conn l of None \<Rightarrow> 0 | Some c \<Rightarrow> length (c_in c))"

lemma readExactly_unread:
  "readExactly n l = (Inr b, l') \<Longrightarrow> length b = n \<and> unread l = n + unread l'"
  by (auto simp: readExactly_def unread_def split: if_splits option.splits)

lemma readMessage_unread: "readMessage l = (Inr m, l') \<Longrightarrow> unread l' < unread l"
  by (auto simp: readMessage_def bindL_Inr_iff liftL_def raise_def Let_def split: if_splits
      dest!: readExactly_unread)

function readExMessage :: "byte list leech_op" where
  "readExMessage l =
     bindL (wrapL ''readMessage'' readMessage) (\<lambda>rMessage l.
       if length rMessage < 2 then readExMessage l
       else if rMessage ! 0 = 20 then ret rMessage l
       else readExMessage l) l"
  by auto
termination
  by (relation "measure unread") (auto dest: readMessage_unread)

declare readExMessage.simps [simp del]

lemma readExMessage_Inr:
  "readExMessage l = (Inr m, l') \<Longrightarrow> 2 \<le> length m \<and> m ! 0 = 20 \<and> unread l' < unread l"
proof (induction l rule: readExMessage.induct)
  case (1 l)
  from 1(3) obtain x l1 where x: "readMessage l = (Inr x, l1)"
    and c: "(if length x < 2 then readExMessage l1 else if x ! 0 = 20 then ret x l1
       else readExMessage l1) = (Inr m, l')"
    by (subst (asm) readExMessage.simps) (auto simp: bindL_Inr_iff)
  with 1(1,2) [of x l1] readMessage_unread [OF x] show ?case
    by (auto simp: ret_def split: if_splits)
qed

function readUmMessage :: "byte list leech_op" where
  "readUmMessage l =
     bindL (wrapL ''readExMessage'' readExMessage) (\<lambda>rExMessage l.
       if rExMessage ! 1 = 1 then ret rExMessage l else readUmMessage l) l"
  by auto
termination
  by (relation "measure unread") (auto dest: readExMessage_Inr)

declare readUmMessage.simps [simp del]

lemma readUmMessage_Inr:
  "readUmMessage l = (Inr m, l') \<Longrightarrow> 2 \<le> length m \<and> unread l' < unread l"
proof (induction l rule: readUmMessage.induct)
  case (1 l)
  from 1(2) obtain x l1 where x: "readExMessage l = (Inr x, l1)"
    and c: "(if x ! 1 = 1 then ret x l1 else readUmMessage l1) = (Inr m, l')"
    by (subst (asm) readUmMessage.simps) (auto simp: bindL_Inr_iff)
  with 1(1) [of x l1] readExMessage_Inr [OF x] show ?case
    by (auto simp: ret_def split: if_splits)
qed

subsection \<open>Handshakes and requests\<close>

definition bt_prefix :: "byte list" where
  "bt_prefix = 0x13 # bytes_of ''BitTorrent protocol''"

definition doBtHandshake :: "unit leech_op" where
  "doBtHandshake l =
     (let lHandshake = bt_prefix @ [0, 0, 0, 0, 0, 0x10, 0, 1] @ l_infoHash l @ l_clientID l
      in if length lHandshake \<noteq> 68 then (Inl (Panic ''len(lHandshake)''), l)
         else bindL (wrapL ''writeAll lHandshake'' (writeAll lHandshake)) (\<lambda>_.
              bindL (wrapL ''readExactly rHandshake'' (readExactly 68)) (\<lambda>rHandshake.
                if take (length bt_prefix) rHandshake \<noteq> bt_prefix
                then raise (Err ''corrupt BitTorrent handshake received'')
                else if rHandshake ! 25 AND 0x10 = 0
                then raise (Err ''peer does not support the extension protocol'')
                else ret ())) l)"

text \<open>\<open>doExHandshake\<close> wraps a nil error when the first extension message is not a handshake, so it returns
  no error then.\<close>

definition ex_handshake :: "byte list" where
  "ex_handshake = [0, 0, 0, 0x1a, 0x14, 0] @ bytes_of ''d1:md11:ut_metadatai1eee''"

definition doExHandshake :: "leech_env \<Rightarrow> unit leech_op" where
  "doExHandshake env =
     bindL (wrapL ''writeAll lHandshake'' (writeAll ex_handshake)) (\<lambda>_.
     bindL (wrapL ''readExMessage'' readExMessage) (\<lambda>rExMessage.
       if rExMessage ! 1 \<noteq> 0 then ret ()
       else bindL (wrapL ''unmarshal rExMessage'' (liftL (lib (env_root env (drop 2 rExMessage))))) (\<lambda>rRootDict l.
         if \<not> (0 < rd_MetadataSize rRootDict \<and> rd_MetadataSize rRootDict < int MAX_METADATA_SIZE)
         then (Inl (Err ''metadata too big or its size is less than or equal zero''), l)
         else if \<not> (0 < rd_UTMetadata rRootDict \<and> rd_UTMetadata rRootDict < 255)
         then (Inl (Err ''ut_metadata is not an uint8''), l)
         else (Inr (), l\<lparr>l_ut_metadata := of_int (rd_UTMetadata rRootDict),
                 l_metadataSize := nat (rd_MetadataSize rRootDict),
                 l_metadata := replicate (nat (rd_MetadataSize rRootDict)) 0\<rparr>))))"

text \<open>\<open>math.Ceil(float64(n) / math.Pow(2, 14))\<close>, which is exact for the sizes below 2\<open>^\<close>53 it is given.\<close>

definition nPieces :: "nat \<Rightarrow> nat" where
  "nPieces n = (n + (2 ^ 14 - 1)) div 2 ^ 14"

definition request_piece :: "leech_env \<Rightarrow> nat \<Rightarrow> unit leech_op" where
  "request_piece env piece l =
     (case env_marshal env \<lparr>ed_MsgType = 0, ed_Piece = int piece\<rparr> of
        Inl e \<Rightarrow> (Inl (Panic (''marshal extDict: '' @ e)), l)
      | Inr extDictDump \<Rightarrow>
          bindL (liftL (toBigEndian (of_nat (2 + length extDictDump)) 4)) (\<lambda>len.
          bindL (liftL (toBigEndian (ucast (l_ut_metadata l)) 1)) (\<lambda>code.
            wrapL ''writeAll piece request'' (writeAll (len @ [0x14] @ code @ extDictDump)))) l)"

fun request_pieces :: "leech_env \<Rightarrow> nat list \<Rightarrow> unit leech_op" where
  "request_pieces env [] l = (Inr (), l)"
| "request_pieces env (piece # ps) l = bindL (request_piece env piece) (\<lambda>_. request_pieces env ps) l"

definition requestAllPieces :: "leech_env \<Rightarrow> unit leech_op" where
  "requestAllPieces env l = request_pieces env [0..<nPieces (l_metadataSize l)] l"

subsection \<open>Connection\<close>

text \<open>Closing a connection whose options could not be set, and reporting that.\<close>

definition abandon :: "leech_env \<Rightarrow> string \<Rightarrow> string \<Rightarrow> unit leech_op" where
  "abandon env what e l =
     (case env_Close env of
        Some _ \<Rightarrow> (Inl (Panic ''couldn't close leech connection!''), l)
      | None \<Rightarrow> (Inl (Err (what @ '': '' @ e)), l\<lparr>l_closes := Suc (l_closes l)\<rparr>))"

definition connect :: "leech_env \<Rightarrow> unit leech_op" where
  "connect env l =
     (case env_dial env (l_peerAddr l) of
        Inl e \<Rightarrow> (Inl (Err (''dial: '' @ e)), l)
      | Inr c \<Rightarrow>
          let l = l\<lparr>l_conn := Some c\<rparr>
          in case env_SetLinger env of Some e \<Rightarrow> abandon env ''SetLinger'' e l
           | None \<Rightarrow>
             (case env_SetNoDelay env of Some e \<Rightarrow> abandon env ''NODELAY'' e l
              | None \<Rightarrow>
                (case env_SetDeadline env of Some e \<Rightarrow> abandon env ''SetDeadline'' e l
                 | None \<Rightarrow> (Inr (), l))))"

definition closeConn :: "leech_env \<Rightarrow> unit leech_op" where
  "closeConn env l =
     (if l_connClosed l then (Inr (), l)
      else case env_Close env of
        Some _ \<Rightarrow> (Inl (Panic ''couldn't close leech connection!''), l)
      | None \<Rightarrow> (Inr (), l\<lparr>l_closes := Suc (l_closes l), l_connClosed := True\<rparr>))"

definition Leech_OnError :: "string \<Rightarrow> leech \<Rightarrow> leech" where
  "Leech_OnError e l = l\<lparr>l_events := l_events l @ [OnError (l_infoHash l) e]\<rparr>"

text \<open>\<open>l.OnError(...); return\<close>: the callback is made and what follows is skipped.\<close>

definition give_up :: "string \<Rightarrow> bool leech_op" where
  "give_up e l = (Inr False, Leech_OnError e l)"

subsection \<open>The transfer\<close>

text \<open>\<open>copy(l.metadata[piece * 2^14 : piece * 2^14 + len(p)], p)\<close> with 64-bit offsets.\<close>

definition store_piece :: "byte list \<Rightarrow> int \<Rightarrow> byte list \<Rightarrow> go_error + byte list" where
  "store_piece metadata piece p =
     (let lo = wrap64 (piece * 2 ^ 14); hi = wrap64 (lo + int (length p))
      in bindE (slice metadata lo hi) (\<lambda>dst.
         Inr (take (nat lo) metadata @ go_copy dst p @ drop (nat hi) metadata)))"

text \<open>A data message; the result tells whether the loop goes on.\<close>

definition on_data :: "ext_dict \<Rightarrow> byte list \<Rightarrow> bool leech_op" where
  "on_data rExtDict metadataPiece l =
     (if length metadataPiece > 16 * 1024 then give_up ''metadataPiece > 16kiB'' l
      else bindL (liftL (store_piece (l_metadata l) (ed_Piece rExtDict) metadataPiece)) (\<lambda>metadata l.
        let l = l\<lparr>l_metadata := metadata,
                  l_metadataReceived := l_metadataReceived l + length metadataPiece\<rparr>
        in if length metadataPiece < 16 * 1024 \<and> l_metadataReceived l \<noteq> l_metadataSize l
           then give_up ''metadataPiece < 16 kiB but incomplete'' l
           else if l_metadataReceived l > l_metadataSize l
           then give_up ''metadataReceived > metadataSize'' l
           else ret True l) l)"

definition on_um_message :: "leech_env \<Rightarrow> byte list \<Rightarrow> bool leech_op" where
  "on_um_message env rUmMessage l =
     (case env_decode env (drop 2 rUmMessage) of
        Inl e \<Rightarrow> give_up (''could not decode ext msg in the loop: '' @ e) l
      | Inr (rExtDict, unreadBytes) \<Rightarrow>
          if ed_MsgType rExtDict = 2 then give_up ''remote peer rejected sending metadata'' l
          else if ed_MsgType rExtDict = 1 then on_data rExtDict unreadBytes l
          else ret True l)"

definition next_um_message :: "leech_env \<Rightarrow> bool leech_op" where
  "next_um_message env l =
     (case readUmMessage l of
        (Inl (Err e), l) \<Rightarrow> give_up (''readUmMessage: '' @ e) l
      | (Inl (Panic p), l) \<Rightarrow> (Inl (Panic p), l)
      | (Inr rUmMessage, l) \<Rightarrow> on_um_message env rUmMessage l)"

lemma on_data_unread: "on_data d p l = (Inr g, l') \<Longrightarrow> unread l' = unread l"
  by (auto simp: on_data_def bindL_Inr_iff liftL_def give_up_def ret_def Leech_OnError_def Let_def
      unread_def split: if_splits)

lemma on_um_message_unread: "on_um_message env m l = (Inr g, l') \<Longrightarrow> unread l' = unread l"
  by (auto simp: on_um_message_def give_up_def ret_def Leech_OnError_def split: sum.splits if_splits
      prod.splits dest: on_data_unread) (auto simp: unread_def)

lemma next_um_message_unread:
  "next_um_message env l = (Inr True, l') \<Longrightarrow> unread l' < unread l"
  by (auto simp: next_um_message_def give_up_def split: prod.splits sum.splits go_error.splits
      dest!: on_um_message_unread readUmMessage_Inr)

function receive_pieces :: "leech_env \<Rightarrow> bool leech_op" where
  "receive_pieces env l =
     (if l_metadataReceived l < l_metadataSize l
      then bindL (next_um_message env) (\<lambda>continue l.
             if continue then receive_pieces env l else (Inr False, l)) l
      else (Inr True, l))"
  by auto
termination
  by (relation "measure (\<lambda>(env, l). unread l)") (auto dest: next_um_message_unread)

declare receive_pieces.simps [simp del]

subsection \<open>Verification\<close>

definition validateInfo :: "leech_env \<Rightarrow> info \<Rightarrow> go_error + unit" where
  "validateInfo env info =
     (if length (i_Pieces info) mod 20 \<noteq> 0 then Inl (Err ''pieces has invalid length'')
      else if i_PieceLength info = 0 then
        (if env_TotalLength env info \<noteq> 0 then Inl (Err ''zero piece length'') else Inr ())
      else if go_div (wrap64 (env_TotalLength env info + i_PieceLength info - 1)) (i_PieceLength info)
             \<noteq> env_NumPieces env info
        then Inl (Err ''piece count and file lengths are at odds'')
      else Inr ())"

definition info_files :: "leech_env \<Rightarrow> info \<Rightarrow> File list" where
  "info_files env info =
     (if length (i_Files info) = 0 then [\<lparr>f_Size = i_Length info, f_Path = i_Name info\<rparr>]
      else map (\<lambda>f. \<lparr>f_Size = fi_Length f, f_Path = env_DisplayPath env f info\<rparr>) (i_Files info))"

fun sum_sizes :: "File list \<Rightarrow> 64 word \<Rightarrow> go_error + 64 word" where
  "sum_sizes [] totalSize = Inr totalSize"
| "sum_sizes (f # fs) totalSize =
     (if f_Size f < 0 then Inl (Err ''file size less than zero'')
      else sum_sizes fs (totalSize + of_int (f_Size f)))"

definition verify :: "leech_env \<Rightarrow> byte list \<Rightarrow> byte list \<Rightarrow> go_error + metadata" where
  "verify env infoHash md =
     (if sha1 md \<noteq> infoHash then Inl (Err ''infohash mismatch'')
      else bindE (wrapE ''unmarshal info'' (lib (env_info env md))) (\<lambda>info.
           bindE (wrapE ''validateInfo'' (validateInfo env info)) (\<lambda>_.
           let files = info_files env info
           in bindE (sum_sizes files 0) (\<lambda>totalSize.
              Inr \<lparr>md_InfoHash = infoHash, md_Name = i_Name info, md_TotalSize = totalSize,
                    md_DiscoveredOn = env_now env, md_Files = files\<rparr>))))"

text \<open>\<open>if err != nil { l.OnError(...); return }\<close>\<close>

definition attempt :: "string \<Rightarrow> 'a leech_op \<Rightarrow> ('a \<Rightarrow> unit leech_op) \<Rightarrow> unit leech_op" where
  "attempt what m k l =
     (case wrapL what m l of
        (Inl (Err e), l) \<Rightarrow> (Inr (), Leech_OnError e l)
      | (Inl (Panic p), l) \<Rightarrow> (Inl (Panic p), l)
      | (Inr x, l) \<Rightarrow> k x l)"

definition report :: "leech_env \<Rightarrow> unit leech_op" where
  "report env l =
     (case verify env (l_infoHash l) (l_metadata l) of
        Inl (Err e) \<Rightarrow> (Inr (), Leech_OnError e l)
      | Inl (Panic p) \<Rightarrow> (Inl (Panic p), l)
      | Inr md \<Rightarrow> (Inr (), l\<lparr>l_events := l_events l @ [OnSuccess md]\<rparr>))"

text \<open>\<open>Do\<close> after \<open>connect\<close>, without its deferred call.\<close>

definition Do_body :: "leech_env \<Rightarrow> unit leech_op" where
  "Do_body env =
     attempt ''doBtHandshake'' doBtHandshake (\<lambda>_.
     attempt ''doExHandshake'' (doExHandshake env) (\<lambda>_.
     attempt ''requestAllPieces'' (requestAllPieces env) (\<lambda>_.
     bindL (receive_pieces env) (\<lambda>complete.
       if complete then bindL (closeConn env) (\<lambda>_. report env) else ret ()))))"

text \<open>\<open>defer l.closeConn()\<close> runs on a return and on a panic.\<close>

definition Do :: "leech_env \<Rightarrow> unit leech_op" where
  "Do env =
     attempt ''connect'' (connect env) (\<lambda>_ l.
       case Do_body env l of (r, l) \<Rightarrow>
         (case closeConn env l of (Inl e, l) \<Rightarrow> (Inl e, l) | (Inr _, l) \<Rightarrow> (r, l)))"

subsection \<open>What the operations leave alone\<close>

text \<open>Neither the reads and writes nor the handshakes make a callback, close the connection or change
  what the leech was built with; and none of them, but for the assertions of the code, panics.\<close>

definition same :: "leech \<Rightarrow> leech \<Rightarrow> bool" where
  "same l l' \<longleftrightarrow> l_infoHash l' = l_infoHash l \<and> l_clientID l' = l_clientID l
     \<and> l_connClosed l' = l_connClosed l \<and> l_closes l' = l_closes l \<and> l_events l' = l_events l
     \<and> (length (l_metadata l) = l_metadataSize l \<longrightarrow> length (l_metadata l') = l_metadataSize l')
     \<and> (l_metadataSize l < MAX_METADATA_SIZE \<longrightarrow> l_metadataSize l' < MAX_METADATA_SIZE)"

abbreviation quiet :: "'a leech_op \<Rightarrow> bool" where
  "quiet \<equiv> keeps same"

lemma same_refl [simp]: "same l l"
  by (simp add: same_def)

lemma same_trans: "same l l' \<Longrightarrow> same l' l'' \<Longrightarrow> same l l''"
  by (simp add: same_def)

interpretation same: frame_order same
  by unfold_locales (simp, rule same_trans)

lemmas quiet_def = keeps_def [of same]
lemmas quietD = keepsD [of same]
lemmas quiet_basic [simp] = same.keeps_basic
lemmas quiet_wrapL [simp] = same.keeps_wrapL
lemmas quiet_bindL = same.keeps_bindL
lemmas quiet_if = same.keeps_if
lemmas quiet_at = same.keeps_at

lemma same_conn [simp]: "same l (l\<lparr>l_conn := c\<rparr>)"
  by (simp add: same_def)

lemma writeAll_quiet: "quiet (writeAll b)" and writeAll_calm: "calm (writeAll b)"
proof -
  have "same l l' \<and> r \<noteq> Inl (Panic p)" if "writeAll b l = (r, l')" for b l r l' p
    using that
  proof (induction b l arbitrary: r rule: writeAll.induct)
    case (1 b l)
    have "same l l1 \<and> x \<noteq> Inl (Panic p)" if "conn_Write b l = (x, l1)" for x l1
      using that by (auto simp: conn_Write_def split: option.splits if_splits)
    with 1(2) 1(1) show ?case
      by (subst (asm) writeAll.simps)
         (fastforce simp: bindL_def split: if_splits prod.splits sum.splits intro: same_trans)
  qed
  then show "quiet (writeAll b)" "calm (writeAll b)"
    unfolding quiet_def panics_def by blast+
qed

lemma readExactly_quiet: "quiet (readExactly n)" and readExactly_calm: "calm (readExactly n)"
  by (auto simp: quiet_def panics_def readExactly_def split: if_splits option.splits)

lemma readMessage_quiet: "quiet readMessage"
  unfolding readMessage_def Let_def by (intro quiet_bindL quiet_wrapL quiet_if readExactly_quiet) simp_all

lemma readMessage_calm: "calm readMessage"
proof -
  have "bytes_uint32 b \<noteq> Inl (Panic p)" if "length b = 4" for b p
    using that by (auto simp: length_Suc_conv numeral_eq_Suc)
  then show ?thesis
    using readExactly_calm
    by (auto simp: panics_def readMessage_def bindL_Inl_iff liftL_def raise_def Let_def
        split: if_splits dest: readExactly_unread)
qed

lemma readExMessage_quiet: "quiet readExMessage" and readExMessage_calm: "calm readExMessage"
proof -
  have "same l l' \<and> r \<noteq> Inl (Panic p)" if "readExMessage l = (r, l')" for l r l' p
    using that
  proof (induction l arbitrary: r rule: readExMessage.induct)
    case (1 l)
    have step: "same l l1 \<and> x \<noteq> Inl (Panic p)" if "wrapL ''readMessage'' readMessage l = (x, l1)" for x l1
      using that readMessage_quiet readMessage_calm unfolding quiet_def panics_def
      by (metis wrapL_Panic_iff quietD quiet_wrapL readMessage_quiet)
    from 1(3) step 1(1,2) show ?case
      by (subst (asm) readExMessage.simps)
         (fastforce simp: bindL_def ret_def split: if_splits prod.splits sum.splits intro: same_trans)
  qed
  then show "quiet readExMessage" "calm readExMessage"
    unfolding quiet_def panics_def by blast+
qed

lemma readUmMessage_quiet: "quiet readUmMessage" and readUmMessage_calm: "calm readUmMessage"
proof -
  have "same l l' \<and> r \<noteq> Inl (Panic p)" if "readUmMessage l = (r, l')" for l r l' p
    using that
  proof (induction l arbitrary: r rule: readUmMessage.induct)
    case (1 l)
    have step: "same l l1 \<and> x \<noteq> Inl (Panic p)" if "wrapL ''readExMessage'' readExMessage l = (x, l1)" for x l1
      using that readExMessage_quiet readExMessage_calm unfolding quiet_def panics_def
      by (metis wrapL_Panic_iff quietD quiet_wrapL readExMessage_quiet)
    from 1(2) step 1(1) show ?case
      by (subst (asm) readUmMessage.simps)
         (fastforce simp: bindL_def ret_def split: if_splits prod.splits sum.splits intro: same_trans)
  qed
  then show "quiet readUmMessage" "calm readUmMessage"
    unfolding quiet_def panics_def by blast+
qed

lemmas quiet_ops = writeAll_quiet readExactly_quiet readMessage_quiet readExMessage_quiet readUmMessage_quiet
lemmas calm_ops = writeAll_calm readExactly_calm readMessage_calm readExMessage_calm readUmMessage_calm

lemma length_bt_prefix [simp]: "length bt_prefix = 20"
  by (simp add: bt_prefix_def)

lemma doBtHandshake_quiet: "quiet doBtHandshake"
proof (rule quiet_at)
  fix l
  have "quiet (bindL (wrapL a (writeAll b)) (\<lambda>_.
      bindL (wrapL c (readExactly 68)) (\<lambda>rHandshake.
        if P rHandshake then raise (Err d) else if Q rHandshake then raise (Err e) else ret ())))" for a b c d e P Q
    by (intro quiet_bindL quiet_wrapL quiet_if quiet_ops quiet_basic)
  then show "\<exists>m. quiet m \<and> doBtHandshake l = m l"
    unfolding doBtHandshake_def Let_def by (metis quiet_basic(2) raise_def)
qed

lemma doBtHandshake_panics:
  assumes "length (l_infoHash l) = 20" and "length (l_clientID l) = 20"
  shows "doBtHandshake l \<noteq> (Inl (Panic p), l')"
proof -
  have "calm (bindL (wrapL a (writeAll b)) (\<lambda>_.
      bindL (wrapL c (readExactly 68)) (\<lambda>rHandshake.
        if P rHandshake then raise (Err d) else if Q rHandshake then raise (Err e) else ret ())))" for a b c d e P Q
    by (intro panics_bindL panics_wrapL panics_if calm_ops calm_basic)
  then show ?thesis
    using assms by (simp add: doBtHandshake_def Let_def panics_def)
qed

lemma same_sizes:
  "0 < n \<Longrightarrow> n < int MAX_METADATA_SIZE \<Longrightarrow>
   same l (l\<lparr>l_ut_metadata := u, l_metadataSize := nat n, l_metadata := replicate (nat n) 0\<rparr>)"
  by (simp add: same_def) linarith

lemma doExHandshake_quiet: "quiet (doExHandshake env)"
  unfolding doExHandshake_def
  by (intro quiet_bindL quiet_wrapL quiet_if quiet_ops quiet_basic)
     (simp add: quiet_def same_sizes split: if_split)

lemma lib_not_Panic [simp]: "lib r \<noteq> Inl (Panic p)"
  by (simp add: lib_def split: sum.split)

lemma doExHandshake_calm: "calm (doExHandshake env)"
  unfolding doExHandshake_def
  by (intro panics_bindL panics_wrapL panics_if calm_ops calm_basic panics_liftL lib_not_Panic)
     (simp add: panics_def)

lemma request_piece_quiet: "quiet (request_piece env piece)"
proof (rule quiet_at)
  fix l
  have q: "quiet (bindL (liftL a) (\<lambda>len. bindL (liftL b) (\<lambda>code. wrapL c (writeAll (f len code)))))" for a b c f
    by (intro quiet_bindL quiet_wrapL quiet_basic quiet_ops)
  show "\<exists>m. quiet m \<and> request_piece env piece l = m l"
  proof (cases "env_marshal env \<lparr>ed_MsgType = 0, ed_Piece = int piece\<rparr>")
    case (Inl e)
    then show ?thesis
      by (intro exI [of _ "raise (Panic (''marshal extDict: '' @ e))"]) (simp add: request_piece_def raise_def)
  next
    case (Inr b)
    show ?thesis
      unfolding request_piece_def Inr sum.case by (intro exI conjI, rule q, rule refl)
  qed
qed

lemma request_piece_calm:
  assumes "\<And>d. \<exists>b. env_marshal env d = Inr b"
  shows "calm (request_piece env piece)"
proof -
  obtain b where "env_marshal env \<lparr>ed_MsgType = 0, ed_Piece = int piece\<rparr> = Inr b"
    using assms by blast
  then show ?thesis
    using writeAll_calm
    by (auto simp: panics_def request_piece_def bindL_Inl_iff liftL_def toBigEndian_def)
qed

lemma request_pieces_quiet: "quiet (request_pieces env ps)"
proof (induction ps)
  case (Cons p ps)
  from quiet_bindL [OF request_piece_quiet this, of env p] show ?case
    by (simp add: quiet_def)
qed (simp add: quiet_def)

lemma request_pieces_calm:
  "(\<And>d. \<exists>b. env_marshal env d = Inr b) \<Longrightarrow> calm (request_pieces env ps)"
proof (induction ps)
  case (Cons p ps)
  from panics_bindL [OF request_piece_calm [OF Cons.prems] Cons.IH [OF Cons.prems], of p] show ?case
    by (simp add: panics_def)
qed (simp add: panics_def)

lemma requestAllPieces_quiet: "quiet (requestAllPieces env)"
  using request_pieces_quiet by (simp add: quiet_def requestAllPieces_def)

lemma requestAllPieces_calm:
  "(\<And>d. \<exists>b. env_marshal env d = Inr b) \<Longrightarrow> calm (requestAllPieces env)"
  using request_pieces_calm by (simp add: panics_def requestAllPieces_def)

subsection \<open>The transfer loop\<close>

definition piece_in_range :: "nat \<Rightarrow> int \<Rightarrow> nat \<Rightarrow> bool" where
  "piece_in_range len piece n \<longleftrightarrow>
     (let lo = wrap64 (piece * 2 ^ 14); hi = wrap64 (lo + int n) in 0 \<le> lo \<and> lo \<le> hi \<and> hi \<le> int len)"

lemma store_piece_cases:
  "store_piece md piece p =
     (if piece_in_range (length md) piece (length p)
      then Inr (let lo = nat (wrap64 (piece * 2 ^ 14)); hi = nat (wrap64 (int lo + int (length p)))
                in take lo md @ go_copy (take (hi - lo) (drop lo md)) p @ drop hi md)
      else Inl (Panic ''slice bounds out of range''))"
  by (auto simp: store_piece_def piece_in_range_def slice_def Let_def nat_diff_distrib)

lemma length_store_piece: "store_piece md piece p = Inr md' \<Longrightarrow> length md' = length md"
  by (auto simp: store_piece_def slice_def Let_def bindE_Inr_iff split: if_splits)

lemma give_up_outcome [simp]: "give_up e l = (Inr False, Leech_OnError e l)"
  by (simp add: give_up_def)

lemma same_data:
  "length md = length (l_metadata l) \<Longrightarrow> same l (l\<lparr>l_metadata := md, l_metadataReceived := n\<rparr>)"
  by (simp add: same_def)

definition bad_piece :: "leech_env \<Rightarrow> string \<Rightarrow> leech \<Rightarrow> bool" where
  "bad_piece env p l \<longleftrightarrow> p = ''slice bounds out of range'' \<and>
     (\<exists>b d piece. env_decode env b = Inr (d, piece) \<and> ed_MsgType d = 1 \<and> length piece \<le> 16 * 1024
        \<and> \<not> piece_in_range (length (l_metadata l)) (ed_Piece d) (length piece))"

text \<open>How the loop can end: it ran to its end and made no callback, it gave up with one error callback,
  or it was stopped by the panic of an out-of-range piece.\<close>

inductive loop_outcome :: "leech_env \<Rightarrow> leech \<Rightarrow> (go_error + bool) \<times> leech \<Rightarrow> bool" for env l where
  complete: "same l l1 \<Longrightarrow> loop_outcome env l (Inr True, l1)"
| gave_up: "same l l1 \<Longrightarrow> loop_outcome env l (Inr False, Leech_OnError e l1)"
| crashed: "same l l1 \<Longrightarrow> bad_piece env p l1 \<Longrightarrow> loop_outcome env l (Inl (Panic p), l1)"

inductive_cases loop_outcome_True: "loop_outcome env l (Inr True, l')"

lemma on_data_outcome:
  assumes "env_decode env b = Inr (d, p)" and "ed_MsgType d = 1"
  shows "loop_outcome env l (on_data d p l)"
proof (cases "length p > 16 * 1024")
  case True
  then show ?thesis by (simp add: on_data_def loop_outcome.gave_up)
next
  case False
  show ?thesis
  proof (cases "store_piece (l_metadata l) (ed_Piece d) p")
    case (Inl e)
    then have "e = Panic ''slice bounds out of range'' \<and> bad_piece env ''slice bounds out of range'' l"
      using False assms by (force simp: bad_piece_def store_piece_cases split: if_splits)
    with False Inl show ?thesis
      by (simp add: on_data_def bindL_def liftL_def loop_outcome.crashed)
  next
    case (Inr md)
    with False same_data [OF length_store_piece [OF Inr]] show ?thesis
      by (simp add: on_data_def bindL_def liftL_def ret_def Let_def loop_outcome.intros)
  qed
qed

lemma on_um_message_outcome: "loop_outcome env l (on_um_message env m l)"
proof (cases "env_decode env (drop 2 m)")
  case (Inr r)
  then obtain d p where "env_decode env (drop 2 m) = Inr (d, p)" by (cases r) auto
  with on_data_outcome [OF this] show ?thesis
    by (simp add: on_um_message_def ret_def loop_outcome.intros)
qed (simp add: on_um_message_def loop_outcome.gave_up)

lemma loop_outcome_trans: "same l l1 \<Longrightarrow> loop_outcome env l1 x \<Longrightarrow> loop_outcome env l x"
  by (auto elim!: loop_outcome.cases intro: loop_outcome.intros same_trans)

lemma next_um_message_outcome: "loop_outcome env l (next_um_message env l)"
proof (cases "readUmMessage l")
  case (Pair r l1)
  then have "same l l1" by (rule quietD [OF readUmMessage_quiet])
  moreover have "r \<noteq> Inl (Panic p)" for p
    using Pair readUmMessage_calm unfolding panics_def by metis
  ultimately show ?thesis
    using Pair on_um_message_outcome [of env l1] loop_outcome_trans [of l l1 env]
    by (auto simp: next_um_message_def split: sum.split go_error.split intro: loop_outcome.gave_up)
qed

lemma receive_pieces_outcome: "loop_outcome env l (receive_pieces env l)"
proof (induction env l rule: receive_pieces.induct)
  case (1 env l)
  show ?case
  proof (cases "l_metadataReceived l < l_metadataSize l")
    case True
    obtain r l1 where n: "next_um_message env l = (r, l1)" by (cases "next_um_message env l")
    with next_um_message_outcome [of env l] have o': "loop_outcome env l (r, l1)" by simp
    show ?thesis
    proof (cases "r = Inr True")
      case c: True
      with 1(1) [OF True, of True l1] n have "loop_outcome env l1 (receive_pieces env l1)" by simp
      moreover have "same l l1" using o' c by (auto elim: loop_outcome_True)
      ultimately have "loop_outcome env l (receive_pieces env l1)" by (rule loop_outcome_trans [rotated])
      then show ?thesis
        using True n c by (subst receive_pieces.simps) (simp add: bindL_def)
    next
      case False
      with o' n True show ?thesis
        by (subst receive_pieces.simps) (auto simp: bindL_def split: sum.split)
    qed
  next
    case False
    then show ?thesis by (subst receive_pieces.simps) (simp add: loop_outcome.complete)
  qed
qed

subsection \<open>Outcomes of a leech\<close>

text \<open>How the body of \<open>Do\<close> ends: with one error callback, with the verdict on the metadata received
  after the connection was closed, or with a panic before any callback.\<close>

definition verdict :: "leech_env \<Rightarrow> leech \<Rightarrow> leech_event" where
  "verdict env l =
     (case verify env (l_infoHash l) (l_metadata l) of
        Inr md \<Rightarrow> OnSuccess md
      | Inl (Err e) \<Rightarrow> OnError (l_infoHash l) e
      | Inl (Panic p) \<Rightarrow> OnError (l_infoHash l) p)"

lemma verify_not_Panic: "verify env h md \<noteq> Inl (Panic p)"
proof -
  have "sum_sizes fs t \<noteq> Inl (Panic p)" for fs t
    by (induction fs arbitrary: t) auto
  then show ?thesis
    by (auto simp: verify_def bindE_Inl_iff validateInfo_def Let_def split: if_splits)
qed

lemma report_eq: "report env l = (Inr (), l\<lparr>l_events := l_events l @ [verdict env l]\<rparr>)"
  using verify_not_Panic [of env "l_infoHash l" "l_metadata l"]
  by (auto simp: report_def verdict_def Leech_OnError_def split: sum.split go_error.split)

inductive body_outcome :: "leech_env \<Rightarrow> leech \<Rightarrow> (go_error + unit) \<times> leech \<Rightarrow> bool" for env l where
  failed: "same l l1 \<Longrightarrow> body_outcome env l (Inr (), Leech_OnError e l1)"
| judged: "same l l1 \<Longrightarrow> closeConn env l1 = (Inr (), l2) \<Longrightarrow>
     body_outcome env l (Inr (), l2\<lparr>l_events := l_events l2 @ [verdict env l2]\<rparr>)"
| stuck: "same l l1 \<Longrightarrow> closeConn env l1 = (Inl e, l2) \<Longrightarrow> body_outcome env l (Inl e, l2)"
| panicked: "same l l1 \<Longrightarrow>
     length (l_infoHash l) = 20 \<and> length (l_clientID l) = 20 \<and> (\<forall>d. \<exists>b. env_marshal env d = Inr b) \<longrightarrow>
       bad_piece env p l1 \<Longrightarrow>
     body_outcome env l (Inl (Panic p), l1)"

lemma body_outcome_trans: "same l l1 \<Longrightarrow> body_outcome env l1 x \<Longrightarrow> body_outcome env l x"
proof (erule body_outcome.cases)
  fix p l2
  assume "same l l1" and "x = (Inl (Panic p), l2)" and "same l1 l2"
    and "length (l_infoHash l1) = 20 \<and> length (l_clientID l1) = 20 \<and> (\<forall>d. \<exists>b. env_marshal env d = Inr b) \<longrightarrow>
       bad_piece env p l2"
  then show ?thesis
    by (auto intro!: body_outcome.panicked intro: same_trans simp: same_def)
qed (auto intro: body_outcome.intros same_trans)

lemma attempt_outcome:
  assumes "quiet m" and "\<And>p l'. m l = (Inl (Panic p), l') \<Longrightarrow>
       \<not> (length (l_infoHash l) = 20 \<and> length (l_clientID l) = 20 \<and> (\<forall>d. \<exists>b. env_marshal env d = Inr b))"
    and "\<And>x l1. m l = (Inr x, l1) \<Longrightarrow> body_outcome env l1 (k x l1)"
  shows "body_outcome env l (attempt what m k l)"
proof -
  obtain r l1 where m: "m l = (r, l1)" by (cases "m l")
  then have s: "same l l1" by (rule quietD [OF assms(1)])
  show ?thesis
  proof (cases r)
    case (Inr x)
    with m assms(3) have "body_outcome env l1 (k x l1)" by simp
    with body_outcome_trans [OF s this] m Inr show ?thesis
      by (simp add: attempt_def wrapL_def)
  next
    case (Inl e)
    with m s assms(2) show ?thesis
      by (cases e) (auto simp: attempt_def wrapL_def intro: body_outcome.failed body_outcome.panicked)
  qed
qed

lemma transfer_outcome:
  "body_outcome env l (bindL (receive_pieces env) (\<lambda>complete.
     if complete then bindL (closeConn env) (\<lambda>_. report env) else ret ()) l)"
  using receive_pieces_outcome [of env l]
proof (cases rule: loop_outcome.cases)
  case (complete l1)
  obtain r l2 where c: "closeConn env l1 = (r, l2)" by (cases "closeConn env l1")
  with complete show ?thesis
    by (cases r) (auto simp: bindL_def report_eq intro: body_outcome.judged body_outcome.stuck)
qed (auto simp: bindL_def ret_def intro: body_outcome.failed body_outcome.panicked)

lemma Do_body_outcome: "body_outcome env l (Do_body env l)"
  unfolding Do_body_def
proof (rule attempt_outcome [OF doBtHandshake_quiet])
  show "\<not> (length (l_infoHash l) = 20 \<and> length (l_clientID l) = 20 \<and> (\<forall>d. \<exists>b. env_marshal env d = Inr b))"
    if "doBtHandshake l = (Inl (Panic p), l')" for p l'
    using that doBtHandshake_panics by blast
next
  fix x l1
  show "body_outcome env l1 (attempt ''doExHandshake'' (doExHandshake env) (\<lambda>_.
     attempt ''requestAllPieces'' (requestAllPieces env) (\<lambda>_.
     bindL (receive_pieces env) (\<lambda>complete.
       if complete then bindL (closeConn env) (\<lambda>_. report env) else ret ()))) l1)"
  proof (intro attempt_outcome doExHandshake_quiet requestAllPieces_quiet transfer_outcome)
    show "\<not> (length (l_infoHash l1) = 20 \<and> length (l_clientID l1) = 20 \<and> (\<forall>d. \<exists>b. env_marshal env d = Inr b))"
      if "doExHandshake env l1 = (Inl (Panic p), l')" for p l'
      using that doExHandshake_calm unfolding panics_def by blast
    show "\<not> (length (l_infoHash l2) = 20 \<and> length (l_clientID l2) = 20 \<and> (\<forall>d. \<exists>b. env_marshal env d = Inr b))"
      if "requestAllPieces env l2 = (Inl (Panic p), l')" for p l' l2
      using that requestAllPieces_calm unfolding panics_def by blast
  qed
qed

lemma closeConn_Inr:
  "closeConn env l = (Inr (), l') \<longleftrightarrow>
     l' = (if l_connClosed l then l else l\<lparr>l_closes := Suc (l_closes l), l_connClosed := True\<rparr>)
     \<and> (l_connClosed l \<or> env_Close env = None)"
  by (auto simp: closeConn_def split: option.splits)

lemma closeConn_Inl:
  "closeConn env l = (Inl e, l') \<longleftrightarrow>
     e = Panic ''couldn't close leech connection!'' \<and> l' = l \<and> \<not> l_connClosed l \<and> env_Close env \<noteq> None"
  by (auto simp: closeConn_def split: option.splits)

lemma closeConn_fields:
  "closeConn env l = (r, l') \<Longrightarrow> l_infoHash l' = l_infoHash l \<and> l_metadata l' = l_metadata l
     \<and> l_metadataSize l' = l_metadataSize l \<and> l_events l' = l_events l"
  by (auto simp: closeConn_def split: if_splits option.splits)

text \<open>A leech that has just connected.\<close>

definition fresh :: "leech \<Rightarrow> bool" where
  "fresh l \<longleftrightarrow> l_events l = [] \<and> l_closes l = 0 \<and> \<not> l_connClosed l
     \<and> length (l_metadata l) = l_metadataSize l \<and> l_metadataSize l < MAX_METADATA_SIZE"

lemma fresh_NewLeech [simp]: "fresh (NewLeech h a c)" "fresh l \<Longrightarrow> fresh (l\<lparr>l_conn := x\<rparr>)"
  by (simp_all add: fresh_def NewLeech_def MAX_METADATA_SIZE_def)

lemma fresh_same: "fresh l \<Longrightarrow> same l l' \<Longrightarrow> fresh l' \<and> l_infoHash l' = l_infoHash l"
  by (simp add: fresh_def same_def)

lemma connect_dialled:
  assumes "env_dial env (l_peerAddr l) = Inr c"
  shows "(\<exists>what e. connect env l = abandon env what e (l\<lparr>l_conn := Some c\<rparr>))
     \<or> connect env l = (Inr (), l\<lparr>l_conn := Some c\<rparr>)"
  by (simp add: connect_def assms Let_def split: option.split) blast

lemma connect_cases:
  obtains (dial) e where "env_dial env (l_peerAddr l) = Inl e" "connect env l = (Inl (Err (''dial: '' @ e)), l)"
  | (option) c e where "env_dial env (l_peerAddr l) = Inr c" "env_Close env = None"
      "connect env l = (Inl (Err e), l\<lparr>l_conn := Some c, l_closes := Suc (l_closes l)\<rparr>)"
  | (panic) c where "env_dial env (l_peerAddr l) = Inr c" "env_Close env \<noteq> None"
      "connect env l = (Inl (Panic ''couldn't close leech connection!''), l\<lparr>l_conn := Some c\<rparr>)"
  | (ok) c where "env_dial env (l_peerAddr l) = Inr c" "connect env l = (Inr (), l\<lparr>l_conn := Some c\<rparr>)"
proof (cases "env_dial env (l_peerAddr l)")
  case (Inl e)
  then have "connect env l = (Inl (Err (''dial: '' @ e)), l)" by (simp add: connect_def)
  with Inl show ?thesis by (rule dial)
next
  case (Inr c)
  from connect_dialled [OF this] show ?thesis
  proof (elim disjE exE)
    fix what e
    assume e: "connect env l = abandon env what e (l\<lparr>l_conn := Some c\<rparr>)"
    show ?thesis
    proof (cases "env_Close env")
      case None
      show ?thesis by (rule option [OF Inr None]) (simp add: e abandon_def None)
    next
      case (Some x)
      show ?thesis by (rule panic [OF Inr]) (simp_all add: e abandon_def Some)
    qed
  qed (rule ok [OF Inr])
qed

text \<open>The deferred \<open>closeConn\<close> after each way the body can end.\<close>

lemma Do_connected:
  assumes "env_dial env (l_peerAddr l) = Inr c" and "connect env l = (Inr (), l\<lparr>l_conn := Some c\<rparr>)"
  shows "Do env l = (case Do_body env (l\<lparr>l_conn := Some c\<rparr>) of (r, l1) \<Rightarrow>
     (case closeConn env l1 of (Inl e, l2) \<Rightarrow> (Inl e, l2) | (Inr _, l2) \<Rightarrow> (r, l2)))"
  using assms(2) by (simp add: Do_def attempt_def wrapL_def)

text \<open>C18: a leech reports once.  Whatever the peer sends, \<open>Do\<close> terminates; when it returns it has made
  exactly one of the two callbacks and closed the connection it dialled exactly once; otherwise it
  ended in a panic, with no callback made or because the connection could not be closed.\<close>

theorem leech_one_callback:
  "case Do env (NewLeech h a c) of
     (Inr _, l') \<Rightarrow> length (l_events l') = 1
       \<and> l_closes l' = (case env_dial env a of Inl _ \<Rightarrow> 0 | Inr _ \<Rightarrow> 1)
   | (Inl e, l') \<Rightarrow> (\<exists>p. e = Panic p) \<and> (case env_Close env of None \<Rightarrow> l_events l' = [] | Some _ \<Rightarrow> True)"
proof -
  let ?l = "NewLeech h a c"
  have ev: "l_events ?l = []" "l_closes ?l = 0" "l_peerAddr ?l = a"
    by (simp_all add: NewLeech_def)
  show ?thesis
  proof (cases rule: connect_cases [of env ?l])
    case (ok x)
    let ?l1 = "?l\<lparr>l_conn := Some x\<rparr>"
    have fr: "fresh ?l1" by simp
    from Do_body_outcome [of env ?l1] show ?thesis
    proof (cases rule: body_outcome.cases)
      case (failed l1 e)
      with fresh_same [OF fr] ok ev show ?thesis
        by (auto simp: Do_connected [OF ok] closeConn_def Leech_OnError_def fresh_def split: option.split)
    next
      case (judged l1 l2)
      with fresh_same [OF fr] ok ev show ?thesis
        by (auto simp: Do_connected [OF ok] closeConn_def fresh_def split: option.splits)
    next
      case (stuck l1 e l2)
      with fresh_same [OF fr] ok ev show ?thesis
        by (auto simp: Do_connected [OF ok] closeConn_Inl fresh_def closeConn_def split: option.splits)
    next
      case (panicked l1 p)
      with fresh_same [OF fr] ok ev show ?thesis
        by (auto simp: Do_connected [OF ok] closeConn_def fresh_def split: option.split)
    qed
  qed (simp_all add: Do_def attempt_def wrapL_def Leech_OnError_def ev split: option.split)
qed

text \<open>A success callback comes from the verdict on the received metadata.\<close>

lemma Do_success_verified:
  assumes "Do env (NewLeech h a c) = (r, l')" and "OnSuccess md \<in> set (l_events l')"
  shows "\<exists>m. verify env h m = Inr md \<and> length m < MAX_METADATA_SIZE"
proof -
  let ?l = "NewLeech h a c"
  have ev: "l_events ?l = []" "l_infoHash ?l = h" by (simp_all add: NewLeech_def)
  show ?thesis
  proof (cases rule: connect_cases [of env ?l])
    case (ok x)
    let ?l1 = "?l\<lparr>l_conn := Some x\<rparr>"
    have fr: "fresh ?l1" by simp
    obtain r' l1 where b: "Do_body env ?l1 = (r', l1)" by (cases "Do_body env ?l1")
    have "l_events l' = l_events l1"
      using assms(1) by (auto simp: Do_connected [OF ok] b closeConn_def split: if_splits option.splits)
    with assms(2) have su: "OnSuccess md \<in> set (l_events l1)" by simp
    from Do_body_outcome [of env ?l1] show ?thesis
    proof (cases rule: body_outcome.cases)
      case (failed l2 e)
      with fresh_same [OF fr failed(2)] b su show ?thesis by (auto simp: fresh_def Leech_OnError_def)
    next
      case (judged l2 l3)
      with closeConn_fields [OF judged(3)] fresh_same [OF fr judged(2)] b su
      have v: "verdict env l3 = OnSuccess md" and h: "l_infoHash l3 = h"
        and m: "length (l_metadata l3) < MAX_METADATA_SIZE"
        using ev by (auto simp: fresh_def)
      show ?thesis
        using v h m by (intro exI [of _ "l_metadata l3"]) (simp add: verdict_def split: sum.splits go_error.splits)
    next
      case (stuck l2 e l3)
      with fresh_same [OF fr stuck(2)] closeConn_fields [OF stuck(3)] b su show ?thesis
        by (simp add: fresh_def)
    next
      case (panicked l2 p)
      with fresh_same [OF fr panicked(2)] b su show ?thesis by (simp add: fresh_def)
    qed
  next
    case (dial e)
    with assms ev show ?thesis by (simp add: Do_def attempt_def wrapL_def Leech_OnError_def) auto
  next
    case (option x e)
    with assms ev show ?thesis by (simp add: Do_def attempt_def wrapL_def Leech_OnError_def) auto
  next
    case (panic x)
    with assms ev show ?thesis by (simp add: Do_def attempt_def wrapL_def) auto
  qed
qed

lemma sum_sizes_Inr:
  "sum_sizes fs t = Inr u \<longleftrightarrow> list_all (\<lambda>f. 0 \<le> f_Size f) fs \<and> u = t + of_int (sum_list (map f_Size fs))"
  by (induction fs arbitrary: t) (auto simp: algebra_simps)

end
