(* ===== verification/Sink.thy ===== *)
theory Sink
  imports Manager Leech "HOL-Library.Multiset"
begin

text \<open>
  The metadata sink of \<open>cmd/magneticod/bittorrent/metadata/sink.go\<close>, which runs one leech at a time
  for each infohash and puts the metadata they bring on the drain channel.

  The goroutines started by the sink are the multiset \<open>ms_tasks\<close>: a leech that is trying a peer, or the
  callback \<open>flush\<close> of a leech that succeeded, before and after its send on the drain.  The fields
  \<open>ms_accepted\<close> and \<open>ms_delivered\<close> record the infohashes for which a first leech was started and the
  metadata sent on the drain.
\<close>

subsection \<open>State\<close>

datatype task = Leeching "byte list" tcp_addr | Flushing metadata | Flushed metadata

record sink =
  ms_PeerID :: "byte list"
  ms_maxNLeeches :: int
  ms_drain :: "metadata chan"
  incomingInfoHashes :: "(byte list \<times> tcp_addr list) list"
  ms_terminated :: bool
  ms_termination :: "unit chan"
  ms_deleted :: int
  ms_tasks :: "task multiset"
  ms_accepted :: "byte list list"
  ms_delivered :: "metadata list"

text \<open>\<open>rand.Intn(n)\<close> delivers a number below \<open>n\<close>; \<open>draw\<close> is its sequence of results.\<close>

definition randomDigit :: "nat \<Rightarrow> byte" where
  "randomDigit d = of_nat (d + 48)"

fun random_digits :: "(nat \<Rightarrow> nat) \<Rightarrow> nat \<Rightarrow> byte list" where
  "random_digits draw 0 = [randomDigit (draw 0)]"
| "random_digits draw (Suc i) = randomDigit (draw (Suc i)) # random_digits draw i"

definition randomID :: "(nat \<Rightarrow> nat) \<Rightarrow> byte list" where
  "randomID draw =
     (let prefix = bytes_of ''-MC0008-'' in prefix @ random_digits draw (20 - length prefix))"

definition NewSink :: "(nat \<Rightarrow> nat) \<Rightarrow> int \<Rightarrow> sink" where
  "NewSink draw maxNLeeches = \<lparr>ms_PeerID = randomID draw, ms_maxNLeeches = maxNLeeches,
     ms_drain = make_chan 10, incomingInfoHashes = [], ms_terminated = False,
     ms_termination = make_chan 0, ms_deleted = 0, ms_tasks = {#}, ms_accepted = [], ms_delivered = []\<rparr>"

subsection \<open>Operations\<close>

text \<open>\<open>go NewLeech(infoHash, &peer, ms.PeerID, ...).Do(...)\<close>\<close>

definition spawn :: "byte list \<Rightarrow> tcp_addr \<Rightarrow> sink \<Rightarrow> sink" where
  "spawn infoHash peer s = s\<lparr>ms_tasks := add_mset (Leeching infoHash peer) (ms_tasks s)\<rparr>"

definition Sink_Sink :: "indexing_result \<Rightarrow> sink \<Rightarrow> go_error + sink" where
  "Sink_Sink res s =
     (if ms_terminated s then Inl (Panic ''Trying to Sink() an already closed Sink!'')
      else if int (length (incomingInfoHashes s)) \<ge> ms_maxNLeeches s then Inr s
      else if ir_infoHash res \<in> set (keys (incomingInfoHashes s)) then Inr s
      else case ir_peerAddrs res of
        [] \<Rightarrow> Inr s
      | peer # rest \<Rightarrow>
          Inr (spawn (ir_infoHash res) peer
            (s\<lparr>incomingInfoHashes := AList.update (ir_infoHash res) rest (incomingInfoHashes s),
               ms_accepted := ms_accepted s @ [ir_infoHash res]\<rparr>)))"

text \<open>A receive from the channel that \<open>Drain()\<close> returns; the panic of \<open>Drain\<close> itself.\<close>

definition Drain :: "sink \<Rightarrow> go_error + (metadata \<times> sink) option" where
  "Drain s = (if ms_terminated s then Inl (Panic ''Trying to Drain() an already closed Sink!'')
     else Inr (map_option (\<lambda>(md, c). (md, s\<lparr>ms_drain := c\<rparr>)) (chan_recv (ms_drain s))))"

definition Sink_Terminate :: "sink \<Rightarrow> go_error + sink" where
  "Sink_Terminate s =
     bindE (chan_close (ms_termination s)) (\<lambda>t.
     bindE (chan_close (ms_drain s)) (\<lambda>d.
     Inr (s\<lparr>ms_terminated := True, ms_termination := t, ms_drain := d\<rparr>)))"

text \<open>\<open>flush\<close> as the three parts between which other goroutines can run: the test of \<open>terminated\<close>, the
  send on the drain, which may have to wait (\<open>None\<close>), and the deletion under the lock.\<close>

definition flush_enter :: "metadata \<Rightarrow> sink \<Rightarrow> sink" where
  "flush_enter result s =
     (if ms_terminated s then s else s\<lparr>ms_tasks := add_mset (Flushing result) (ms_tasks s)\<rparr>)"

definition flush_send :: "metadata \<Rightarrow> sink \<Rightarrow> go_error + sink option" where
  "flush_send result s =
     bindE (chan_send result (ms_drain s)) (\<lambda>r. case r of None \<Rightarrow> Inr None
       | Some c \<Rightarrow> Inr (Some (s\<lparr>ms_drain := c,
           ms_tasks := add_mset (Flushed result) (ms_tasks s - {#Flushing result#}),
           ms_delivered := ms_delivered s @ [result]\<rparr>)))"

definition flush_delete :: "metadata \<Rightarrow> sink \<Rightarrow> sink" where
  "flush_delete result s =
     (let infoHash = go_copy (replicate 20 0) (md_InfoHash result)
      in s\<lparr>incomingInfoHashes := AList.delete infoHash (incomingInfoHashes s),
           ms_tasks := ms_tasks s - {#Flushed result#}\<rparr>)"

definition onLeechError :: "byte list \<Rightarrow> sink \<Rightarrow> sink" where
  "onLeechError infoHash s =
     (case map_get (incomingInfoHashes s) infoHash [] of
        peer # rest \<Rightarrow>
          spawn infoHash peer (s\<lparr>incomingInfoHashes := AList.update infoHash rest (incomingInfoHashes s)\<rparr>)
      | [] \<Rightarrow> s\<lparr>ms_deleted := ms_deleted s + 1,
               incomingInfoHashes := AList.delete infoHash (incomingInfoHashes s)\<rparr>)"

text \<open>A tick of the status goroutine of \<open>NewSink\<close>.\<close>

definition status_tick :: "sink \<Rightarrow> sink" where
  "status_tick s = s\<lparr>ms_deleted := 0\<rparr>"

subsection \<open>Steps\<close>

definition leech_ends :: "byte list \<Rightarrow> tcp_addr \<Rightarrow> sink \<Rightarrow> sink" where
  "leech_ends h peer s = s\<lparr>ms_tasks := ms_tasks s - {#Leeching h peer#}\<rparr>"

text \<open>A leech makes one callback and reports metadata of its own infohash.  The callbacks and the calls
  of the main loop interleave freely.\<close>

inductive sink_step :: "sink \<Rightarrow> sink \<Rightarrow> bool" where
  sunk: "length (ir_infoHash res) = 20 \<Longrightarrow> Sink_Sink res s = Inr t \<Longrightarrow> sink_step s t"
| failed: "Leeching h peer \<in># ms_tasks s \<Longrightarrow> sink_step s (onLeechError h (leech_ends h peer s))"
| succeeded: "Leeching h peer \<in># ms_tasks s \<Longrightarrow> md_InfoHash md = h \<Longrightarrow>
     sink_step s (flush_enter md (leech_ends h peer s))"
| sent: "Flushing md \<in># ms_tasks s \<Longrightarrow> flush_send md s = Inr (Some t) \<Longrightarrow> sink_step s t"
| flushed: "Flushed md \<in># ms_tasks s \<Longrightarrow> sink_step s (flush_delete md s)"
| drained: "Drain s = Inr (Some (md, t)) \<Longrightarrow> sink_step s t"
| ticked: "sink_step s (status_tick s)"
| terminated: "Sink_Terminate s = Inr t \<Longrightarrow> sink_step s t"

inductive sink_reachable :: "(nat \<Rightarrow> nat) \<Rightarrow> int \<Rightarrow> sink \<Rightarrow> bool" for draw maxN where
  init: "sink_reachable draw maxN (NewSink draw maxN)"
| step: "sink_reachable draw maxN s \<Longrightarrow> sink_step s t \<Longrightarrow> sink_reachable draw maxN t"

subsection \<open>The invariant\<close>

fun task_key :: "task \<Rightarrow> byte list" where
  "task_key (Leeching h peer) = h"
| "task_key (Flushing md) = md_InfoHash md"
| "task_key (Flushed md) = md_InfoHash md"

fun undelivered :: "task \<Rightarrow> bool" where
  "undelivered (Flushed md) = False"
| "undelivered _ = True"

text \<open>One goroutine per infohash of the map; a terminated sink keeps the infohashes of leeches that
  succeed later.\<close>

definition tasks_inv :: "sink \<Rightarrow> bool" where
  "tasks_inv s \<longleftrightarrow> image_mset task_key (ms_tasks s) \<subseteq># mset (keys (incomingInfoHashes s))
     \<and> (\<not> ms_terminated s \<longrightarrow> image_mset task_key (ms_tasks s) = mset (keys (incomingInfoHashes s)))"

definition map_inv :: "int \<Rightarrow> sink \<Rightarrow> bool" where
  "map_inv maxN s \<longleftrightarrow> ms_maxNLeeches s = maxN \<and> distinct (keys (incomingInfoHashes s))
     \<and> (\<forall>h \<in> set (keys (incomingInfoHashes s)). length h = 20)
     \<and> int (length (incomingInfoHashes s)) \<le> max 0 maxN"

text \<open>Each metadata on the drain and each goroutine that may still put one there goes back to an
  acceptance of its own.\<close>

definition delivery_inv :: "sink \<Rightarrow> bool" where
  "delivery_inv s \<longleftrightarrow> mset (map md_InfoHash (ms_delivered s))
     + image_mset task_key (filter_mset undelivered (ms_tasks s)) \<subseteq># mset (ms_accepted s)"

definition drain_inv :: "sink \<Rightarrow> bool" where
  "drain_inv s \<longleftrightarrow> chan_ok 10 (ms_drain s) \<and> ch_closed (ms_drain s) = ms_terminated s
     \<and> ch_closed (ms_termination s) = ms_terminated s"

definition sink_inv :: "int \<Rightarrow> sink \<Rightarrow> bool" where
  "sink_inv maxN s \<longleftrightarrow> map_inv maxN s \<and> tasks_inv s \<and> delivery_inv s \<and> drain_inv s"

lemmas sink_inv_defs = sink_inv_def map_inv_def tasks_inv_def delivery_inv_def drain_inv_def

lemma mset_removeAll_distinct: "distinct xs \<Longrightarrow> mset (removeAll x xs) = mset xs - {#x#}"
  by (metis distinct_remove1_removeAll mset_remove1)

lemma task_in_map: "tasks_inv s \<Longrightarrow> t \<in># ms_tasks s \<Longrightarrow> task_key t \<in> set (keys (incomingInfoHashes s))"
  unfolding tasks_inv_def by (metis image_eqI in_image_mset mset_subset_eqD set_mset_mset)

lemma mset_keys_delete:
  "distinct (keys m) \<Longrightarrow> mset (keys (AList.delete k m)) = mset (keys m) - {#k#}"
  by (simp add: keys_delete mset_removeAll_distinct)

lemma subset_minus_key: "add_mset h A \<subseteq># B \<Longrightarrow> A \<subseteq># B - {#h#}"
  by (simp add: insert_subset_eq_iff)

lemma init_inv: "sink_inv maxN (NewSink draw maxN)"
  by (simp add: sink_inv_defs NewSink_def) (simp add: make_chan_def)

lemma Sink_Sink_inv:
  assumes "sink_inv maxN s" and "length (ir_infoHash res) = 20" and "Sink_Sink res s = Inr t"
  shows "sink_inv maxN t"
proof -
  have "sink_inv maxN (spawn (ir_infoHash res) peer
      (s\<lparr>incomingInfoHashes := AList.update (ir_infoHash res) rest (incomingInfoHashes s),
         ms_accepted := ms_accepted s @ [ir_infoHash res]\<rparr>))"
    if "\<not> ms_terminated s" "int (length (incomingInfoHashes s)) < ms_maxNLeeches s"
      "ir_infoHash res \<notin> set (keys (incomingInfoHashes s))" for peer rest
    using assms(1,2) that
    by (auto simp: sink_inv_defs spawn_def keys_update length_map_update)
  with assms show ?thesis
    by (auto simp: Sink_Sink_def split: if_splits list.splits)
qed

text \<open>A goroutine ends and its infohash leaves the map, or it ends and leaves the map as it is.\<close>

lemma inv_delete:
  assumes "sink_inv maxN s" and "ms_tasks s = add_mset t T" and "task_key t = h"
  shows "sink_inv maxN (s\<lparr>incomingInfoHashes := AList.delete h (incomingInfoHashes s), ms_tasks := T\<rparr>)"
proof -
  let ?m = "incomingInfoHashes s"
  have "distinct (keys ?m)" using assms(1) by (simp add: sink_inv_defs)
  then have k: "mset (keys (AList.delete h ?m)) = mset (keys ?m) - {#h#}" by (rule mset_keys_delete)
  have "map_inv maxN (s\<lparr>incomingInfoHashes := AList.delete h ?m, ms_tasks := T\<rparr>)"
    using assms(1) length_map_delete_le [of h ?m] by (auto simp: sink_inv_defs keys_delete distinct_removeAll)
  moreover have "tasks_inv (s\<lparr>incomingInfoHashes := AList.delete h ?m, ms_tasks := T\<rparr>)"
    using assms unfolding sink_inv_def tasks_inv_def
    by (simp add: k subset_minus_key) (metis add_mset_remove_trivial)
  moreover have "delivery_inv (s\<lparr>incomingInfoHashes := AList.delete h ?m, ms_tasks := T\<rparr>)"
    using assms(1,2) by (auto simp: sink_inv_def delivery_inv_def split: if_splits dest: mset_subset_eq_insertD)
  ultimately show ?thesis
    using assms(1) by (simp add: sink_inv_def drain_inv_def)
qed

lemma onLeechError_inv:
  assumes "sink_inv maxN s" and "Leeching h peer \<in># ms_tasks s"
  shows "sink_inv maxN (onLeechError h (leech_ends h peer s))"
proof -
  from multi_member_split [OF assms(2)] obtain T where T: "ms_tasks s = add_mset (Leeching h peer) T" by blast
  have h: "h \<in> set (keys (incomingInfoHashes s))"
    using assms task_in_map [of s "Leeching h peer"] by (simp add: sink_inv_def)
  show ?thesis
  proof (cases "map_get (incomingInfoHashes s) h []")
    case Nil
    with inv_delete [OF assms(1) T, of h] T show ?thesis
      by (simp add: onLeechError_def leech_ends_def sink_inv_defs)
  next
    case (Cons q rest)
    with assms(1) T h show ?thesis
      by (simp add: onLeechError_def leech_ends_def spawn_def sink_inv_defs keys_update length_map_update)
  qed
qed

lemma flush_enter_inv:
  assumes "sink_inv maxN s" and "Leeching h peer \<in># ms_tasks s" and "md_InfoHash md = h"
  shows "sink_inv maxN (flush_enter md (leech_ends h peer s))"
proof -
  from multi_member_split [OF assms(2)] obtain T where "ms_tasks s = add_mset (Leeching h peer) T" by blast
  with assms(1,3) show ?thesis
    by (auto simp: flush_enter_def leech_ends_def sink_inv_defs dest: mset_subset_eq_insertD)
qed

lemma flush_send_inv:
  assumes "sink_inv maxN s" and "Flushing md \<in># ms_tasks s" and "flush_send md s = Inr (Some t)"
  shows "sink_inv maxN t"
proof -
  from multi_member_split [OF assms(2)] obtain T where "ms_tasks s = add_mset (Flushing md) T" by blast
  with assms(1,3) show ?thesis
    by (auto simp: flush_send_def bindE_Inr_iff chan_send_Some sink_inv_defs chan_ok_def split: option.splits)
qed

lemma flush_delete_inv:
  assumes "sink_inv maxN s" and "Flushed md \<in># ms_tasks s"
  shows "sink_inv maxN (flush_delete md s)"
proof -
  from multi_member_split [OF assms(2)] obtain T where T: "ms_tasks s = add_mset (Flushed md) T" by blast
  have "md_InfoHash md \<in> set (keys (incomingInfoHashes s))"
    using assms task_in_map [of s "Flushed md"] by (simp add: sink_inv_def)
  then have "length (md_InfoHash md) = 20" using assms(1) by (simp add: sink_inv_defs)
  with inv_delete [OF assms(1) T, of "md_InfoHash md"] T show ?thesis
    by (simp add: flush_delete_def Let_def)
qed

lemma Drain_inv: "sink_inv maxN s \<Longrightarrow> Drain s = Inr (Some (md, t)) \<Longrightarrow> sink_inv maxN t"
  by (auto simp: Drain_def chan_recv_def sink_inv_defs chan_ok_def split: if_splits list.splits)

lemma Sink_Terminate_inv: "sink_inv maxN s \<Longrightarrow> Sink_Terminate s = Inr t \<Longrightarrow> sink_inv maxN t"
  by (auto simp: Sink_Terminate_def bindE_Inr_iff chan_close_def sink_inv_defs chan_ok_def split: if_splits)

lemma sink_step_inv:
  assumes "sink_step s t" and "sink_inv maxN s"
  shows "sink_inv maxN t"
  using assms(1)
proof cases
  case (sunk res)
  with assms(2) show ?thesis by (blast intro: Sink_Sink_inv)
next
  case (failed h peer)
  with assms(2) show ?thesis by (simp add: onLeechError_inv)
next
  case (succeeded h peer md)
  with assms(2) show ?thesis by (simp add: flush_enter_inv)
next
  case (sent md)
  with assms(2) show ?thesis by (blast intro: flush_send_inv)
next
  case (flushed md)
  with assms(2) show ?thesis by (simp add: flush_delete_inv)
next
  case (drained md)
  with assms(2) show ?thesis by (blast intro: Drain_inv)
next
  case ticked
  with assms(2) show ?thesis by (simp add: status_tick_def sink_inv_defs)
next
  case terminated
  with assms(2) show ?thesis by (blast intro: Sink_Terminate_inv)
qed

lemma sink_reachable_inv: "sink_reachable draw maxN s \<Longrightarrow> sink_inv maxN s"
  by (induction rule: sink_reachable.induct) (blast intro: init_inv sink_step_inv)+

subsection \<open>Properties\<close>

lemma card_tasks: "size (ms_tasks s) = size (image_mset task_key (ms_tasks s))"
  by simp

text \<open>C8: in every reachable state of the sink, at most the configured number of infohashes is in work,
  each under a 20-byte key of its own, and for none of them more than one goroutine runs, be it a leech
  or the delivery of its metadata; so no more goroutines run than the configured number of leeches.
  While the sink is not terminated, every infohash in the map has its goroutine.\<close>

theorem sink_invariant:
  assumes "sink_reachable draw maxN s"
  shows "int (length (incomingInfoHashes s)) \<le> max 0 maxN \<and> distinct (keys (incomingInfoHashes s))
     \<and> int (size (ms_tasks s)) \<le> max 0 maxN
     \<and> image_mset task_key (ms_tasks s) \<subseteq># mset (keys (incomingInfoHashes s))
     \<and> (\<not> ms_terminated s \<longrightarrow> image_mset task_key (ms_tasks s) = mset (keys (incomingInfoHashes s)))
     \<and> length (ch_buf (ms_drain s)) \<le> 10"
proof -
  have inv: "sink_inv maxN s" using assms by (rule sink_reachable_inv)
  then have "size (ms_tasks s) \<le> length (incomingInfoHashes s)"
    using size_mset_mono [of "image_mset task_key (ms_tasks s)" "mset (keys (incomingInfoHashes s))"]
    by (simp add: sink_inv_defs)
  with inv show ?thesis by (auto simp: sink_inv_defs chan_ok_def)
qed

definition demo_peers_result :: indexing_result where
  "demo_peers_result = \<lparr>ir_infoHash = replicate 20 1,
     ir_peerAddrs = [\<lparr>tcp_IP = [10, 0, 0, 1], tcp_Port = 1\<rparr>, \<lparr>tcp_IP = [10, 0, 0, 2], tcp_Port = 2\<rparr>]\<rparr>"

definition sunk_sink :: sink where
  "sunk_sink = projr (Sink_Sink demo_peers_result (NewSink (\<lambda>_. 0) 3))"

lemma sunk_sink_run: "Sink_Sink demo_peers_result (NewSink (\<lambda>_. 0) 3) = Inr sunk_sink"
  by (simp add: sunk_sink_def Sink_Sink_def NewSink_def demo_peers_result_def)

lemma sunk_sink_reachable: "sink_reachable (\<lambda>_. 0) 3 sunk_sink"
  by (rule sink_reachable.step [OF sink_reachable.init], rule sink_step.sunk [OF _ sunk_sink_run])
     (simp add: demo_peers_result_def)

theorem sink_invariant_witness:
  "int (size (ms_tasks sunk_sink)) \<le> 3 \<and> size (ms_tasks sunk_sink) = 1 \<and> length (incomingInfoHashes sunk_sink) = 1"
  using sink_invariant [OF sunk_sink_reachable]
  by (simp add: sunk_sink_def Sink_Sink_def NewSink_def demo_peers_result_def spawn_def)

text \<open>C17: the metadata delivered on the drain goes back to what was sunk.  In every reachable state, no
  infohash has been delivered more often than \<open>Sink\<close> accepted a result for it, and a leech or a delivery
  still running accounts for one more acceptance.\<close>

theorem sink_deliveries:
  assumes "sink_reachable draw maxN s"
  shows "mset (map md_InfoHash (ms_delivered s))
     + image_mset task_key (filter_mset undelivered (ms_tasks s)) \<subseteq># mset (ms_accepted s)"
  using sink_reachable_inv [OF assms] by (simp add: sink_inv_def delivery_inv_def)

theorem sink_deliveries_witness:
  "{#replicate 20 1#} \<subseteq># mset (ms_accepted sunk_sink) \<and> ms_delivered sunk_sink = []"
  using sink_deliveries [OF sunk_sink_reachable]
  by (simp add: sunk_sink_def Sink_Sink_def NewSink_def demo_peers_result_def spawn_def)

text \<open>The leech of an infohash fails with one peer after the other.\<close>

fun fails :: "byte list \<Rightarrow> tcp_addr list \<Rightarrow> sink \<Rightarrow> sink" where
  "fails h [] s = s"
| "fails h (p # ps) s = fails h ps (onLeechError h (leech_ends h p s))"

definition trying :: "byte list \<Rightarrow> tcp_addr \<Rightarrow> tcp_addr list \<Rightarrow> task multiset \<Rightarrow> sink \<Rightarrow> bool" where
  "trying h peer rest T s \<longleftrightarrow> ms_tasks s = add_mset (Leeching h peer) T
     \<and> map_of (incomingInfoHashes s) h = Some rest"

lemma trying_next:
  assumes "trying h p (q # rest) T s"
  shows "trying h q rest T (onLeechError h (leech_ends h p s))
     \<and> ms_deleted (onLeechError h (leech_ends h p s)) = ms_deleted s"
  using assms by (simp add: trying_def onLeechError_def leech_ends_def map_get_def spawn_def update_conv')

lemma trying_last:
  assumes "trying h p [] T s"
  shows "ms_tasks (onLeechError h (leech_ends h p s)) = T
     \<and> h \<notin> set (keys (incomingInfoHashes (onLeechError h (leech_ends h p s))))
     \<and> ms_deleted (onLeechError h (leech_ends h p s)) = ms_deleted s + 1"
  using assms by (simp add: trying_def onLeechError_def leech_ends_def map_get_def keys_delete)

lemma fails_trying:
  "trying h p rest T s \<Longrightarrow> k \<le> length rest \<Longrightarrow>
   trying h ((p # rest) ! k) (drop k rest) T (fails h (take k (p # rest)) s)
     \<and> ms_deleted (fails h (take k (p # rest)) s) = ms_deleted s"
proof (induction rest arbitrary: p k s)
  case (Cons q rest)
  show ?case
  proof (cases k)
    case (Suc j)
    with Cons.IH [of q "onLeechError h (leech_ends h p s)" j] trying_next [OF Cons.prems(1)] Cons.prems(2)
    show ?thesis by simp
  qed (use Cons.prems in simp)
qed simp

lemma fails_all:
  "trying h p rest T s \<Longrightarrow> ms_tasks (fails h (p # rest) s) = T
     \<and> h \<notin> set (keys (incomingInfoHashes (fails h (p # rest) s)))
     \<and> ms_deleted (fails h (p # rest) s) = ms_deleted s + 1"
proof (induction rest arbitrary: p s)
  case Nil
  then show ?case using trying_last [of h p T s] by simp
next
  case (Cons q rest)
  with Cons.IH [of q "onLeechError h (leech_ends h p s)"] trying_next [OF Cons.prems] show ?case by simp
qed

text \<open>C33: every peer is tried once, in order.  When \<open>Sink\<close> accepts a result, the leech started first talks
  to the first peer of the result; after the failure of the first k of them the one running talks to
  the next, with the rest in the map; and after the last of them failed no goroutine is left, the
  infohash is out of the map, so that it may be sunk again, and the loss was counted.\<close>

theorem sink_tries_peers:
  assumes "\<not> ms_terminated s" and "int (length (incomingInfoHashes s)) < ms_maxNLeeches s"
    and "ir_infoHash res \<notin> set (keys (incomingInfoHashes s))" and "ir_peerAddrs res = p # rest"
  shows "\<exists>t. Sink_Sink res s = Inr t
     \<and> (\<forall>k \<le> length rest. let u = fails (ir_infoHash res) (take k (p # rest)) t in
          ms_tasks u = add_mset (Leeching (ir_infoHash res) ((p # rest) ! k)) (ms_tasks s)
          \<and> map_of (incomingInfoHashes u) (ir_infoHash res) = Some (drop k rest))
     \<and> (let u = fails (ir_infoHash res) (p # rest) t in
          ms_tasks u = ms_tasks s \<and> ir_infoHash res \<notin> set (keys (incomingInfoHashes u))
          \<and> ms_deleted u = ms_deleted s + 1)"
proof -
  let ?h = "ir_infoHash res"
  let ?t = "spawn ?h p (s\<lparr>incomingInfoHashes := AList.update ?h rest (incomingInfoHashes s),
     ms_accepted := ms_accepted s @ [?h]\<rparr>)"
  have t: "Sink_Sink res s = Inr ?t" using assms by (simp add: Sink_Sink_def)
  have tr: "trying ?h p rest (ms_tasks s) ?t" by (simp add: trying_def spawn_def update_conv')
  have "ms_deleted ?t = ms_deleted s" by (simp add: spawn_def)
  with t fails_trying [OF tr] fails_all [OF tr] show ?thesis
    unfolding Let_def by (intro exI [of _ ?t]) (simp add: trying_def del: fails.simps)
qed

theorem sink_tries_peers_witness:
  "\<exists>t. Sink_Sink demo_peers_result (NewSink (\<lambda>_. 0) 3) = Inr t
     \<and> ms_tasks (fails (replicate 20 1) [\<lparr>tcp_IP = [10, 0, 0, 1], tcp_Port = 1\<rparr>] t)
         = {#Leeching (replicate 20 1) \<lparr>tcp_IP = [10, 0, 0, 2], tcp_Port = 2\<rparr>#}"
  using sink_tries_peers [of "NewSink (\<lambda>_. 0) 3" demo_peers_result "\<lparr>tcp_IP = [10, 0, 0, 1], tcp_Port = 1\<rparr>"
      "[\<lparr>tcp_IP = [10, 0, 0, 2], tcp_Port = 2\<rparr>]"]
  by (auto simp: NewSink_def demo_peers_result_def Let_def dest!: spec [of _ "Suc 0"])

text \<open>C34: termination is not orderly.  A sink that is not terminated can be, once; afterwards \<open>Terminate\<close>,
  \<open>Sink\<close> and \<open>Drain\<close> panic, and so does the send of every leech that had passed the test of
  \<open>terminated\<close> in \<open>flush\<close> before, whether it was waiting for room on the drain or not.\<close>

theorem sink_termination:
  assumes "sink_reachable draw maxN s" and "\<not> ms_terminated s"
  shows "\<exists>t. Sink_Terminate s = Inr t \<and> ms_tasks t = ms_tasks s
     \<and> Sink_Terminate t = Inl (Panic ''close of closed channel'')
     \<and> (\<forall>res. Sink_Sink res t = Inl (Panic ''Trying to Sink() an already closed Sink!''))
     \<and> Drain t = Inl (Panic ''Trying to Drain() an already closed Sink!'')
     \<and> (\<forall>md. flush_send md t = Inl (Panic ''send on closed channel''))"
  using sink_reachable_inv [OF assms(1)] assms(2)
  by (simp add: sink_inv_def drain_inv_def Sink_Terminate_def chan_close_def Sink_Sink_def Drain_def
      flush_send_def chan_send_def)

definition flushing_sink :: sink where
  "flushing_sink = flush_enter (\<lparr>md_InfoHash = replicate 20 1, md_Name = [], md_TotalSize = 0, md_DiscoveredOn = 0,
     md_Files = []\<rparr>) (leech_ends (replicate 20 1) \<lparr>tcp_IP = [10, 0, 0, 1], tcp_Port = 1\<rparr> sunk_sink)"

theorem sink_termination_witness:
  "\<exists>t md. Sink_Terminate flushing_sink = Inr t \<and> Flushing md \<in># ms_tasks t
     \<and> flush_send md t = Inl (Panic ''send on closed channel'')"
proof -
  have "Leeching (replicate 20 1) \<lparr>tcp_IP = [10, 0, 0, 1], tcp_Port = 1\<rparr> \<in># ms_tasks sunk_sink"
    by (simp add: sunk_sink_def Sink_Sink_def NewSink_def demo_peers_result_def spawn_def)
  then have "sink_reachable (\<lambda>_. 0) 3 flushing_sink"
    unfolding flushing_sink_def by (intro sink_reachable.step [OF sunk_sink_reachable] sink_step.succeeded) simp_all
  moreover have "\<not> ms_terminated flushing_sink"
    by (simp add: flushing_sink_def flush_enter_def leech_ends_def sunk_sink_def Sink_Sink_def NewSink_def
        demo_peers_result_def spawn_def)
  ultimately obtain t where "Sink_Terminate flushing_sink = Inr t" "ms_tasks t = ms_tasks flushing_sink"
    "\<forall>md. flush_send md t = Inl (Panic ''send on closed channel'')"
    using sink_termination by blast
  moreover have "\<exists>md. Flushing md \<in># ms_tasks flushing_sink"
    by (simp add: flushing_sink_def flush_enter_def leech_ends_def sunk_sink_def Sink_Sink_def NewSink_def
        demo_peers_result_def spawn_def)
  ultimately show ?thesis by auto
qed

lemma length_random_digits: "length (random_digits draw i) = Suc i"
  by (induction i) auto

lemma randomDigit_range: "d < 9 \<Longrightarrow> 48 \<le> unat (randomDigit d) \<and> unat (randomDigit d) < 57"
  unfolding randomDigit_def by (simp add: unat_of_nat del: of_nat_add)

lemma random_digits_range:
  "\<forall>n. draw n < 9 \<Longrightarrow> list_all (\<lambda>b. 48 \<le> unat b \<and> unat b < 57) (random_digits draw i)"
  by (induction i) (simp_all add: randomDigit_range)



end
