(* ===== verification/LeechPeer.thy ===== *)
theory LeechPeer
  imports Leech
begin

text \<open>
  The leech of \<open>Leech\<close> against the peers it meets: what it writes on the wire and what becomes of the
  transfer when the peer follows the protocol, and when a peer sends a piece that lies outside
  the metadata it announced.
\<close>

subsection \<open>A peer that follows the protocol\<close>

text \<open>A message on the wire, and the messages that the leech skips.\<close>

definition frame :: "byte list \<Rightarrow> byte list" where
  "frame m = uint32_bytes (of_nat (length m)) @ m"

definition ignorable :: "byte list \<Rightarrow> bool" where
  "ignorable m \<longleftrightarrow> length m \<le> MAX_METADATA_SIZE \<and> (length m < 2 \<or> m ! 0 \<noteq> 20)"

lemma readExactly_append:
  assumes "l_conn l = Some c" and "c_in c = b @ r" and "b \<noteq> []" and "n = length b"
  shows "readExactly n l = (Inr b, l\<lparr>l_conn := Some (c\<lparr>c_in := r\<rparr>)\<rparr>)"
  using assms by (simp add: readExactly_def)

lemma bytes_uint32_bytes' [simp]: "bytes_uint32 (uint32_bytes v) = Inr v"
  using bytes_uint32_bytes [of v "[]"] by simp

lemma unat_frame_length: "n \<le> MAX_METADATA_SIZE \<Longrightarrow> unat (of_nat n :: 32 word) = n"
  by (simp add: MAX_METADATA_SIZE_def unat_of_nat)

lemma uint32_bytes_not_Nil [simp]: "uint32_bytes v \<noteq> []"
  by (simp add: uint32_bytes_def)

lemma readMessage_frame:
  assumes c: "l_conn l = Some c" "c_in c = frame m @ r" and m: "length m \<le> MAX_METADATA_SIZE"
  shows "readMessage l = (Inr m, l\<lparr>l_conn := Some (c\<lparr>c_in := r\<rparr>)\<rparr>)"
proof -
  let ?l1 = "l\<lparr>l_conn := Some (c\<lparr>c_in := m @ r\<rparr>)\<rparr>"
  have "readExactly 4 l = (Inr (uint32_bytes (of_nat (length m))), ?l1)"
    using c by (intro readExactly_append) (simp_all add: frame_def)
  moreover have "readExactly (length m) ?l1 = (Inr m, l\<lparr>l_conn := Some (c\<lparr>c_in := r\<rparr>)\<rparr>)"
    using readExactly_append [of ?l1 "c\<lparr>c_in := m @ r\<rparr>" m r "length m"]
    by (cases "m = []") (simp_all add: readExactly_def)
  ultimately show ?thesis
    using m by (simp add: readMessage_def bindL_def wrapL_def liftL_def unat_frame_length Let_def)
qed

lemma readExMessage_frames:
  assumes "l_conn l = Some c" and "c_in c = concat (map frame ms) @ frame m @ r"
    and "list_all ignorable ms" and "2 \<le> length m" and "m ! 0 = 20" and "length m \<le> MAX_METADATA_SIZE"
  shows "readExMessage l = (Inr m, l\<lparr>l_conn := Some (c\<lparr>c_in := r\<rparr>)\<rparr>)"
  using assms(1-3)
proof (induction ms arbitrary: l c)
  case Nil
  with readMessage_frame [of l c m r] assms(4-) show ?case
    by (subst readExMessage.simps) (simp add: bindL_def wrapL_def ret_def)
next
  case (Cons x ms)
  let ?c = "c\<lparr>c_in := concat (map frame ms) @ frame m @ r\<rparr>"
  have "readMessage l = (Inr x, l\<lparr>l_conn := Some ?c\<rparr>)"
    using Cons.prems by (intro readMessage_frame) (simp_all add: ignorable_def)
  with Cons.IH [of "l\<lparr>l_conn := Some ?c\<rparr>" ?c] Cons.prems(3) show ?case
    by (subst readExMessage.simps) (auto simp: bindL_def wrapL_def ignorable_def)
qed

lemma readUmMessage_frames:
  assumes "l_conn l = Some c" and "c_in c = concat (map frame ms) @ frame m @ r"
    and "list_all ignorable ms" and "2 \<le> length m" and "m ! 0 = 20" and "m ! 1 = 1"
    and "length m \<le> MAX_METADATA_SIZE"
  shows "readUmMessage l = (Inr m, l\<lparr>l_conn := Some (c\<lparr>c_in := r\<rparr>)\<rparr>)"
  using readExMessage_frames [OF assms(1-5,7)] assms(6)
  by (subst readUmMessage.simps) (simp add: bindL_def wrapL_def ret_def)

lemma writeAll_room:
  assumes "l_conn l = Some c" and "length b \<le> c_room c"
  shows "writeAll b l = (Inr (), l\<lparr>l_conn := Some (c\<lparr>c_out := c_out c @ b, c_room := c_room c - length b\<rparr>)\<rparr>)"
proof (cases "b = []")
  case True
  with assms(1) show ?thesis by (subst writeAll.simps) simp
next
  case False
  with assms show ?thesis
    by (subst writeAll.simps) (simp add: bindL_def conn_Write_def writeAll.simps [of "[]"])
qed

subsection \<open>The requests\<close>

definition request :: "byte \<Rightarrow> byte list \<Rightarrow> byte list" where
  "request code dump = frame ([0x14, code] @ dump)"

lemma ucast_of_nat_32: "(ucast (of_nat k :: 64 word) :: 32 word) = of_nat k"
  by (rule bit_word_eqI) (simp add: bit_simps)

lemma toBigEndian_simps:
  "toBigEndian i 1 = Inr [ucast i]" "toBigEndian i 4 = Inr (uint32_bytes (ucast i))"
  by (simp_all add: toBigEndian_def)

lemma request_piece_room:
  assumes "env_marshal env \<lparr>ed_MsgType = 0, ed_Piece = int piece\<rparr> = Inr dump"
    and "l_conn l = Some c" and "length (request (l_ut_metadata l) dump) \<le> c_room c"
  shows "request_piece env piece l = (Inr (), l\<lparr>l_conn := Some (c\<lparr>
     c_out := c_out c @ request (l_ut_metadata l) dump,
     c_room := c_room c - length (request (l_ut_metadata l) dump)\<rparr>)\<rparr>)"
proof -
  have "(ucast (ucast (l_ut_metadata l) :: 64 word) :: byte) = l_ut_metadata l"
    by (rule bit_word_eqI) (simp add: bit_simps)
  then have r: "uint32_bytes (ucast (of_nat (2 + length dump) :: 64 word)) @ [0x14]
      @ [ucast (ucast (l_ut_metadata l) :: 64 word)] @ dump = request (l_ut_metadata l) dump"
    by (simp only: ucast_of_nat_32 request_def frame_def) simp
  show ?thesis
    unfolding request_piece_def assms(1) sum.case
    by (simp only: bindL_def liftL_def toBigEndian_simps wrapL_def prod.case sum.case r
        writeAll_room [OF assms(2,3)] wrapE.simps)
qed

text \<open>The bytes of the requests for some pieces, given what the encoder returns for each.\<close>

definition requests :: "byte \<Rightarrow> (nat \<Rightarrow> byte list) \<Rightarrow> nat list \<Rightarrow> byte list" where
  "requests code dump ps = concat (map (\<lambda>i. request code (dump i)) ps)"

lemma request_pieces_room:
  assumes "\<forall>i \<in> set ps. env_marshal env \<lparr>ed_MsgType = 0, ed_Piece = int i\<rparr> = Inr (dump i)"
    and "l_conn l = Some c" and "length (requests (l_ut_metadata l) dump ps) \<le> c_room c"
  shows "request_pieces env ps l = (Inr (), l\<lparr>l_conn := Some (c\<lparr>
     c_out := c_out c @ requests (l_ut_metadata l) dump ps,
     c_room := c_room c - length (requests (l_ut_metadata l) dump ps)\<rparr>)\<rparr>)"
  using assms
proof (induction ps arbitrary: l c)
  case Nil
  then show ?case by (simp add: requests_def)
next
  case (Cons i ps)
  let ?b = "request (l_ut_metadata l) (dump i)"
  let ?c = "c\<lparr>c_out := c_out c @ ?b, c_room := c_room c - length ?b\<rparr>"
  have "request_piece env i l = (Inr (), l\<lparr>l_conn := Some ?c\<rparr>)"
    using Cons.prems by (intro request_piece_room) (simp_all add: requests_def)
  with Cons.IH [of "l\<lparr>l_conn := Some ?c\<rparr>" ?c] Cons.prems(1,3) show ?case
    by (simp add: bindL_def requests_def)
qed

lemma nPieces_bounds: "i < nPieces n \<longleftrightarrow> i * 2 ^ 14 < n"
  using less_eq_div_iff_mult_less_eq [of "2 ^ 14" "Suc i" "n + (2 ^ 14 - 1)"]
  by (simp add: nPieces_def Suc_le_eq)

subsection \<open>The handshakes\<close>

definition handshake :: "byte list \<Rightarrow> byte list \<Rightarrow> byte list" where
  "handshake h peerID = bt_prefix @ [0, 0, 0, 0, 0, 0x10, 0, 1] @ h @ peerID"

definition greets :: "byte list \<Rightarrow> bool" where
  "greets hs \<longleftrightarrow> length hs = 68 \<and> take 20 hs = bt_prefix \<and> hs ! 25 AND 0x10 \<noteq> 0"

lemma ex_handshake_frame: "ex_handshake = frame ([0x14, 0] @ bytes_of ''d1:md11:ut_metadatai1eee'')"
  by (simp add: ex_handshake_def frame_def uint32_bytes_def)

lemma length_ex_handshake: "length ex_handshake = 30"
  by (simp add: ex_handshake_def)

lemma doBtHandshake_greeted:
  assumes "l_conn l = Some c" and "c_in c = hs @ r" and "greets hs" and "68 \<le> c_room c"
    and "length (l_infoHash l) = 20" and "length (l_clientID l) = 20"
  shows "doBtHandshake l = (Inr (), l\<lparr>l_conn := Some (c\<lparr>c_in := r,
     c_out := c_out c @ handshake (l_infoHash l) (l_clientID l), c_room := c_room c - 68\<rparr>)\<rparr>)"
proof -
  let ?h = "handshake (l_infoHash l) (l_clientID l)"
  let ?c1 = "c\<lparr>c_out := c_out c @ ?h, c_room := c_room c - 68\<rparr>"
  have h: "length ?h = 68" using assms(5,6) by (simp add: handshake_def)
  then have w: "writeAll ?h l = (Inr (), l\<lparr>l_conn := Some ?c1\<rparr>)"
    using writeAll_room [OF assms(1), of ?h] assms(4) by simp
  have hs: "hs \<noteq> []" "68 = length hs" using assms(3) by (auto simp: greets_def)
  have c1: "l_conn (l\<lparr>l_conn := Some ?c1\<rparr>) = Some ?c1" "c_in ?c1 = hs @ r" using assms(2) by simp_all
  note rd = readExactly_append [OF c1 hs]
  have g: "(take (length bt_prefix) hs \<noteq> bt_prefix) = False" "(hs ! 25 AND 0x10 = 0) = False"
    using assms(3) by (simp_all add: greets_def)
  have hh: "bt_prefix @ [0, 0, 0, 0, 0, 0x10, 0, 1] @ l_infoHash l @ l_clientID l = ?h"
    by (simp only: handshake_def)
  have n: "(length ?h \<noteq> 68) = False" using h by simp
  have "doBtHandshake l = (Inr (), l\<lparr>l_conn := Some ?c1, l_conn := Some (?c1\<lparr>c_in := r\<rparr>)\<rparr>)"
    by (simp only: doBtHandshake_def Let_def hh n bindL_def wrapL_def w rd g prod.case sum.case wrapE.simps
        if_False ret_def)
  then show ?thesis by simp
qed

lemma doExHandshake_answered:
  assumes "l_conn l = Some c" and "c_in c = concat (map frame ms) @ frame ([20, 0] @ dict) @ r"
    and "list_all ignorable ms" and "length dict + 2 \<le> MAX_METADATA_SIZE" and "30 \<le> c_room c"
    and "env_root env dict = Inr \<lparr>rd_UTMetadata = u, rd_MetadataSize = int n\<rparr>"
    and "0 < n" and "n < MAX_METADATA_SIZE" and "0 < u" and "u < 255"
  shows "doExHandshake env l = (Inr (), l\<lparr>l_conn := Some (c\<lparr>c_in := r, c_out := c_out c @ ex_handshake,
     c_room := c_room c - 30\<rparr>), l_ut_metadata := of_int u, l_metadataSize := n, l_metadata := replicate n 0\<rparr>)"
proof -
  let ?c1 = "c\<lparr>c_out := c_out c @ ex_handshake, c_room := c_room c - 30\<rparr>"
  have w: "writeAll ex_handshake l = (Inr (), l\<lparr>l_conn := Some ?c1\<rparr>)"
    using writeAll_room [OF assms(1), of ex_handshake] assms(5) by (simp add: length_ex_handshake)
  have "readExMessage (l\<lparr>l_conn := Some ?c1\<rparr>) = (Inr ([20, 0] @ dict), l\<lparr>l_conn := Some (?c1\<lparr>c_in := r\<rparr>)\<rparr>)"
    using assms(2-4) readExMessage_frames [of "l\<lparr>l_conn := Some ?c1\<rparr>" ?c1 ms "[20, 0] @ dict" r] by simp
  with w assms(6-) show ?thesis
    by (simp add: doExHandshake_def bindL_def wrapL_def liftL_def lib_def)
qed

text \<open>A first extension message that is not a handshake is not reported as an error: the leech goes on
  with the metadata size it started with.\<close>

lemma doExHandshake_other_message:
  assumes "l_conn l = Some c" and "c_in c = frame ([20, x] @ body) @ r" and "x \<noteq> 0"
    and "length body + 2 \<le> MAX_METADATA_SIZE" and "30 \<le> c_room c"
  shows "\<exists>c'. doExHandshake env l = (Inr (), l\<lparr>l_conn := Some c'\<rparr>)"
proof -
  let ?c1 = "c\<lparr>c_out := c_out c @ ex_handshake, c_room := c_room c - 30\<rparr>"
  have w: "writeAll ex_handshake l = (Inr (), l\<lparr>l_conn := Some ?c1\<rparr>)"
    using writeAll_room [OF assms(1), of ex_handshake] assms(5) by (simp add: length_ex_handshake)
  have "readExMessage (l\<lparr>l_conn := Some ?c1\<rparr>) = (Inr ([20, x] @ body), l\<lparr>l_conn := Some (?c1\<lparr>c_in := r\<rparr>)\<rparr>)"
    using assms(2,4) readExMessage_frames [of "l\<lparr>l_conn := Some ?c1\<rparr>" ?c1 "[]" "[20, x] @ body" r] by simp
  with w assms(3) show ?thesis
    by (auto simp: doExHandshake_def bindL_def wrapL_def ret_def)
qed

subsection \<open>The pieces\<close>

definition piece :: "byte list \<Rightarrow> nat \<Rightarrow> byte list" where
  "piece M i = take (2 ^ 14) (drop (i * 2 ^ 14) M)"

lemma store_piece_at:
  assumes "wrap64 (k * 2 ^ 14) = int (length A)"
    and "wrap64 (int (length A) + int (length p)) = int (length A + length p)"
    and "length p \<le> length B"
  shows "store_piece (A @ B) k p = Inr (A @ p @ drop (length p) B)"
  using assms by (simp add: store_piece_def slice_def Let_def nat_add_distrib)

lemma store_next_piece:
  assumes "k * 2 ^ 14 < length M" and "length M < MAX_METADATA_SIZE"
  shows "store_piece (take (k * 2 ^ 14) M @ replicate (length M - k * 2 ^ 14) 0) (int k) (piece M k)
     = Inr (take (Suc k * 2 ^ 14) M @ replicate (length M - Suc k * 2 ^ 14) 0)"
proof -
  let ?p = "piece M k" and ?o = "k * 2 ^ 14"
  have len: "length ?p = min (2 ^ 14) (length M - ?o)" by (simp add: piece_def)
  have A: "length (take ?o M) = ?o" using assms(1) by simp
  have lo: "wrap64 (int k * 2 ^ 14) = int (length (take ?o M))"
    using assms by (simp add: wrap64_id MAX_METADATA_SIZE_def)
  have hi: "wrap64 (int (length (take ?o M)) + int (length ?p)) = int (length (take ?o M) + length ?p)"
    unfolding A using assms len by (simp add: wrap64_id MAX_METADATA_SIZE_def min_def split: if_splits)
  have "length ?p \<le> length (replicate (length M - ?o) (0 :: byte))" using len by simp
  from store_piece_at [OF lo hi this]
  have "store_piece (take ?o M @ replicate (length M - ?o) 0) (int k) ?p
      = Inr (take ?o M @ ?p @ replicate (length M - ?o - length ?p) 0)" by simp
  moreover have "take ?o M @ ?p = take (Suc k * 2 ^ 14) M"
    by (simp add: piece_def take_add [symmetric] add.commute)
  moreover have "length M - ?o - length ?p = length M - Suc k * 2 ^ 14"
    using len by (simp add: min_def add.commute)
  ultimately show ?thesis by (metis append_assoc)
qed

text \<open>One piece as the peer sends it: messages the leech skips, then the data message, whose payload is
  a dictionary followed by the bytes of the piece.\<close>

definition data_message :: "(nat \<Rightarrow> byte list list) \<Rightarrow> (nat \<Rightarrow> byte list) \<Rightarrow> byte list \<Rightarrow> nat \<Rightarrow> byte list" where
  "data_message noise header M i =
     concat (map frame (noise i)) @ frame ([20, 1] @ header i @ piece M i)"

definition sends_pieces ::
    "leech_env \<Rightarrow> (nat \<Rightarrow> byte list list) \<Rightarrow> (nat \<Rightarrow> byte list) \<Rightarrow> byte list \<Rightarrow> bool" where
  "sends_pieces env noise header M \<longleftrightarrow> (\<forall>i < nPieces (length M). list_all ignorable (noise i)
     \<and> length (header i) + 2 ^ 14 + 2 \<le> MAX_METADATA_SIZE
     \<and> env_decode env (header i @ piece M i) = Inr (\<lparr>ed_MsgType = 1, ed_Piece = int i\<rparr>, piece M i))"

text \<open>The leech after the first \<open>k\<close> pieces.\<close>

definition progress :: "byte list \<Rightarrow> nat \<Rightarrow> leech \<Rightarrow> leech" where
  "progress M k l = l\<lparr>l_metadataReceived := min (k * 2 ^ 14) (length M),
     l_metadata := take (k * 2 ^ 14) M @ replicate (length M - k * 2 ^ 14) 0\<rparr>"

lemma length_piece: "length (piece M k) = min (2 ^ 14) (length M - k * 2 ^ 14)"
  by (simp add: piece_def)

lemma on_data_next:
  assumes "l_metadataSize l = length M" and "k * 2 ^ 14 < length M" and "length M < MAX_METADATA_SIZE"
  shows "on_data \<lparr>ed_MsgType = 1, ed_Piece = int k\<rparr> (piece M k) (progress M k l) = (Inr True, progress M (Suc k) l)"
proof -
  have "\<not> length (piece M k) > 16 * 1024"
    by (simp add: length_piece)
  moreover have "min (k * 2 ^ 14) (length M) + length (piece M k) = min (Suc k * 2 ^ 14) (length M)"
    using assms(2) by (simp add: length_piece)
  moreover have "length (piece M k) = 16384 \<or> min (Suc k * 2 ^ 14) (length M) = length M"
    using assms(2) by (auto simp: length_piece min_def)
  ultimately show ?thesis
    using store_next_piece [OF assms(2,3)] assms(1)
    by (simp add: on_data_def bindL_def liftL_def ret_def Let_def progress_def del: mult_Suc power_numeral)
qed

lemma next_um_message_piece:
  assumes "l_conn l = Some c" and "c_in c = data_message noise header M k @ r"
    and "l_metadataSize l = length M" and "k < nPieces (length M)" and "length M < MAX_METADATA_SIZE"
    and "sends_pieces env noise header M"
  shows "next_um_message env (progress M k l)
     = (Inr True, progress M (Suc k) (l\<lparr>l_conn := Some (c\<lparr>c_in := r\<rparr>)\<rparr>))"
proof -
  let ?m = "[20, 1] @ header k @ piece M k" and ?l1 = "l\<lparr>l_conn := Some (c\<lparr>c_in := r\<rparr>)\<rparr>"
  have k: "list_all ignorable (noise k)" "length (header k) + 2 ^ 14 + 2 \<le> MAX_METADATA_SIZE"
    "env_decode env (header k @ piece M k) = Inr (\<lparr>ed_MsgType = 1, ed_Piece = int k\<rparr>, piece M k)"
    using assms(4,6) by (simp_all add: sends_pieces_def)
  have "length ?m \<le> MAX_METADATA_SIZE" using k(2) by (simp add: length_piece)
  then have r: "readUmMessage (progress M k l) = (Inr ?m, progress M k ?l1)"
    using readUmMessage_frames [of "progress M k l" c "noise k" ?m r] assms(1,2) k(1)
    by (simp add: progress_def data_message_def)
  have "on_data \<lparr>ed_MsgType = 1, ed_Piece = int k\<rparr> (piece M k) (progress M k ?l1)
      = (Inr True, progress M (Suc k) ?l1)"
    using assms(3-5) by (intro on_data_next) (simp_all add: nPieces_bounds)
  with r k(3) show ?thesis
    by (simp add: next_um_message_def on_um_message_def)
qed

lemma receive_pieces_all:
  assumes "k \<le> nPieces (length M)" and "length M < MAX_METADATA_SIZE" and "sends_pieces env noise header M"
    and "l_conn l = Some c" and "l_metadataSize l = length M"
    and "c_in c = concat (map (data_message noise header M) [k..<nPieces (length M)]) @ r"
  shows "receive_pieces env (progress M k l)
     = (Inr True, progress M (nPieces (length M)) (l\<lparr>l_conn := Some (c\<lparr>c_in := r\<rparr>)\<rparr>))"
  using assms(1,4-)
proof (induction "nPieces (length M) - k" arbitrary: k l c)
  case 0
  then have k: "k = nPieces (length M)" by simp
  then have "\<not> k * 2 ^ 14 < length M" using nPieces_bounds [of k "length M"] by simp
  with 0 k show ?case
    by (subst receive_pieces.simps) (simp add: progress_def)
next
  case (Suc d)
  then have k: "k < nPieces (length M)" by simp
  let ?rest = "concat (map (data_message noise header M) [Suc k..<nPieces (length M)]) @ r"
  let ?c = "c\<lparr>c_in := ?rest\<rparr>"
  have "next_um_message env (progress M k l) = (Inr True, progress M (Suc k) (l\<lparr>l_conn := Some ?c\<rparr>))"
    using Suc.prems k assms(2,3) by (intro next_um_message_piece) (simp_all add: upt_conv_Cons)
  moreover have "l_metadataReceived (progress M k l) < l_metadataSize (progress M k l)"
    using k Suc.prems(3) nPieces_bounds [of k "length M"] by (simp add: progress_def)
  moreover have "receive_pieces env (progress M (Suc k) (l\<lparr>l_conn := Some ?c\<rparr>))
      = (Inr True, progress M (nPieces (length M)) (l\<lparr>l_conn := Some (?c\<lparr>c_in := r\<rparr>)\<rparr>))"
    using Suc.hyps(2) Suc.prems(2,3) k Suc.hyps(1) [of "Suc k" "l\<lparr>l_conn := Some ?c\<rparr>" ?c] by simp
  ultimately show ?case
    by (subst receive_pieces.simps) (simp add: bindL_def)
qed

lemma progress_complete:
  "progress M (nPieces (length M)) l = l\<lparr>l_metadataReceived := length M, l_metadata := M\<rparr>"
  using nPieces_bounds [of "nPieces (length M)" "length M"] by (simp add: progress_def)

subsection \<open>Whole transfers\<close>

text \<open>A host that lets the leech connect and close, and write all it has to write.\<close>

definition connects :: "leech_env \<Rightarrow> tcp_addr \<Rightarrow> conn \<Rightarrow> bool" where
  "connects env a c \<longleftrightarrow> env_dial env a = Inr c \<and> env_SetLinger env = None \<and> env_SetNoDelay env = None
     \<and> env_SetDeadline env = None \<and> env_Close env = None"

text \<open>What a peer sends first: its handshake, messages the leech skips, and its extension handshake,
  which announces \<open>n\<close> bytes of metadata and the message number \<open>u\<close>.\<close>

definition introduces :: "leech_env \<Rightarrow> int \<Rightarrow> nat \<Rightarrow> byte list \<Rightarrow> bool" where
  "introduces env u n hello \<longleftrightarrow> (\<exists>hs ms dict. hello = hs @ concat (map frame ms) @ frame ([20, 0] @ dict)
     \<and> greets hs \<and> list_all ignorable ms \<and> length dict + 2 \<le> MAX_METADATA_SIZE
     \<and> env_root env dict = Inr \<lparr>rd_UTMetadata = u, rd_MetadataSize = int n\<rparr>)"

text \<open>What the leech writes: its two handshakes and one request per piece.\<close>

definition outgoing :: "byte list \<Rightarrow> byte list \<Rightarrow> byte \<Rightarrow> (nat \<Rightarrow> byte list) \<Rightarrow> nat \<Rightarrow> byte list" where
  "outgoing h peerID code dump n = handshake h peerID @ ex_handshake @ requests code dump [0..<nPieces n]"

definition prepared :: "conn \<Rightarrow> byte list \<Rightarrow> byte list \<Rightarrow> int \<Rightarrow> nat \<Rightarrow> leech \<Rightarrow> leech" where
  "prepared c r out u n l = l\<lparr>l_conn := Some (c\<lparr>c_in := r, c_out := c_out c @ out, c_room := c_room c - length out\<rparr>),
     l_ut_metadata := of_int u, l_metadataSize := n, l_metadata := replicate n 0\<rparr>"

lemma length_handshake: "length h = 20 \<Longrightarrow> length i = 20 \<Longrightarrow> length (handshake h i) = 68"
  by (simp add: handshake_def)

lemma Do_body_introduced:
  assumes "l_conn l = Some c" and "c_in c = hello @ r" and "introduces env u n hello"
    and "length (l_infoHash l) = 20" and "length (l_clientID l) = 20"
    and "0 < n" and "n < MAX_METADATA_SIZE" and "0 < u" and "u < 255"
    and "\<forall>i < nPieces n. env_marshal env \<lparr>ed_MsgType = 0, ed_Piece = int i\<rparr> = Inr (dump i)"
    and "length (outgoing (l_infoHash l) (l_clientID l) (of_int u) dump n) \<le> c_room c"
  shows "Do_body env l = bindL (receive_pieces env) (\<lambda>complete.
       if complete then bindL (closeConn env) (\<lambda>_. report env) else ret ())
     (prepared c r (outgoing (l_infoHash l) (l_clientID l) (of_int u) dump n) u n l)"
proof -
  from assms(3) obtain hs ms dict where hello: "hello = hs @ concat (map frame ms) @ frame ([20, 0] @ dict)"
    and g: "greets hs" and ig: "list_all ignorable ms" and rl: "length dict + 2 \<le> MAX_METADATA_SIZE"
    and er: "env_root env dict = Inr \<lparr>rd_UTMetadata = u, rd_MetadataSize = int n\<rparr>"
    by (auto simp: introduces_def)
  let ?hs = "handshake (l_infoHash l) (l_clientID l)" and ?rq = "requests (of_int u) dump [0..<nPieces n]"
  let ?r1 = "concat (map frame ms) @ frame ([20, 0] @ dict) @ r"
  let ?c1 = "c\<lparr>c_in := ?r1, c_out := c_out c @ ?hs, c_room := c_room c - 68\<rparr>"
  let ?c2 = "?c1\<lparr>c_in := r, c_out := c_out ?c1 @ ex_handshake, c_room := c_room ?c1 - 30\<rparr>"
  let ?l2 = "l\<lparr>l_conn := Some ?c2, l_ut_metadata := of_int u, l_metadataSize := n, l_metadata := replicate n 0\<rparr>"
  have room: "98 + length ?rq \<le> c_room c"
    using assms(4,5,11) by (simp add: outgoing_def length_handshake length_ex_handshake)
  have 1: "doBtHandshake l = (Inr (), l\<lparr>l_conn := Some ?c1\<rparr>)"
    using assms(1,2,4,5) g room hello by (intro doBtHandshake_greeted [where hs = hs]) simp_all
  have 2: "doExHandshake env (l\<lparr>l_conn := Some ?c1\<rparr>) = (Inr (), ?l2)"
    using doExHandshake_answered [of "l\<lparr>l_conn := Some ?c1\<rparr>" ?c1 ms dict r env u n] assms(6-9) ig rl er room
    by simp
  have "request_pieces env [0..<nPieces n] ?l2 = (Inr (), ?l2\<lparr>l_conn := Some (?c2\<lparr>
      c_out := c_out ?c2 @ ?rq, c_room := c_room ?c2 - length ?rq\<rparr>)\<rparr>)"
    using request_pieces_room [of "[0..<nPieces n]" env dump ?l2 ?c2] assms(10) room by simp
  then have 3: "requestAllPieces env ?l2
      = (Inr (), prepared c r (outgoing (l_infoHash l) (l_clientID l) (of_int u) dump n) u n l)"
    using assms(4,5)
    by (simp add: requestAllPieces_def prepared_def outgoing_def length_handshake length_ex_handshake)
  show ?thesis
    by (simp only: Do_body_def attempt_def wrapL_def 1 2 3 prod.case sum.case wrapE.simps)
qed

lemma NewLeech_fields [simp]:
  "l_infoHash (NewLeech h a i) = h" "l_peerAddr (NewLeech h a i) = a"
  "l_clientID (NewLeech h a i) = go_copy (replicate 20 0) i" "l_metadataReceived (NewLeech h a i) = 0"
  "l_connClosed (NewLeech h a i) = False" "l_events (NewLeech h a i) = []"
  by (simp_all add: NewLeech_def)

lemma Do_introduced:
  assumes "connects env a c" and "length h = 20" and "c_in c = hello @ r" and "introduces env u n hello"
    and "0 < n" and "n < MAX_METADATA_SIZE" and "0 < u" and "u < 255"
    and "\<forall>i < nPieces n. env_marshal env \<lparr>ed_MsgType = 0, ed_Piece = int i\<rparr> = Inr (dump i)"
    and "length (outgoing h (go_copy (replicate 20 0) peerID) (of_int u) dump n) \<le> c_room c"
  shows "Do env (NewLeech h a peerID) =
     (case bindL (receive_pieces env) (\<lambda>complete.
         if complete then bindL (closeConn env) (\<lambda>_. report env) else ret ())
       (prepared c r (outgoing h (go_copy (replicate 20 0) peerID) (of_int u) dump n) u n (NewLeech h a peerID)) of
      (r, l1) \<Rightarrow> (case closeConn env l1 of (Inl e, l2) \<Rightarrow> (Inl e, l2) | (Inr _, l2) \<Rightarrow> (r, l2)))"
proof -
  let ?l = "NewLeech h a peerID"
  have d: "env_dial env (l_peerAddr ?l) = Inr c" and co: "connect env ?l = (Inr (), ?l\<lparr>l_conn := Some c\<rparr>)"
    using assms(1) by (simp_all add: connects_def connect_def)
  have "Do_body env (?l\<lparr>l_conn := Some c\<rparr>) = bindL (receive_pieces env) (\<lambda>complete.
       if complete then bindL (closeConn env) (\<lambda>_. report env) else ret ())
     (prepared c r (outgoing h (go_copy (replicate 20 0) peerID) (of_int u) dump n) u n (?l\<lparr>l_conn := Some c\<rparr>))"
    using Do_body_introduced [of "?l\<lparr>l_conn := Some c\<rparr>" c hello r env u n dump] assms(2-) by simp
  then show ?thesis
    by (simp add: Do_connected [OF d co] prepared_def)
qed

lemma honest_run:
  assumes "connects env a c" and "length h = 20"
    and "c_in c = hello @ concat (map (data_message noise header M) [0..<nPieces (length M)]) @ r"
    and "introduces env u (length M) hello" and "sends_pieces env noise header M"
    and "M \<noteq> []" and "length M < MAX_METADATA_SIZE" and "0 < u" and "u < 255"
    and "\<forall>i < nPieces (length M). env_marshal env \<lparr>ed_MsgType = 0, ed_Piece = int i\<rparr> = Inr (dump i)"
    and "length (outgoing h (go_copy (replicate 20 0) peerID) (of_int u) dump (length M)) \<le> c_room c"
    and "verify env h M = Inr md"
  shows "\<exists>l' c'. Do env (NewLeech h a peerID) = (Inr (), l') \<and> l_events l' = [OnSuccess md]
     \<and> l_conn l' = Some c' \<and> c_in c' = r
     \<and> c_out c' = c_out c @ outgoing h (go_copy (replicate 20 0) peerID) (of_int u) dump (length M)"
proof -
  let ?out = "outgoing h (go_copy (replicate 20 0) peerID) (of_int u) dump (length M)"
  let ?data = "concat (map (data_message noise header M) [0..<nPieces (length M)]) @ r"
  let ?p = "prepared c ?data ?out u (length M) (NewLeech h a peerID)"
  let ?c = "c\<lparr>c_in := ?data, c_out := c_out c @ ?out, c_room := c_room c - length ?out\<rparr>"
  have "progress M 0 ?p = ?p" by (simp add: progress_def prepared_def)
  moreover have "receive_pieces env (progress M 0 ?p)
      = (Inr True, progress M (nPieces (length M)) (?p\<lparr>l_conn := Some (?c\<lparr>c_in := r\<rparr>)\<rparr>))"
    using assms(5,7) by (intro receive_pieces_all) (simp_all add: prepared_def)
  ultimately have rp: "receive_pieces env ?p
      = (Inr True, ?p\<lparr>l_conn := Some (?c\<lparr>c_in := r\<rparr>), l_metadataReceived := length M, l_metadata := M\<rparr>)"
    by (simp add: progress_complete)
  have d: "Do env (NewLeech h a peerID) =
     (case bindL (receive_pieces env) (\<lambda>complete.
         if complete then bindL (closeConn env) (\<lambda>_. report env) else ret ()) ?p of
      (r, l1) \<Rightarrow> (case closeConn env l1 of (Inl e, l2) \<Rightarrow> (Inl e, l2) | (Inr _, l2) \<Rightarrow> (r, l2)))"
    using assms by (intro Do_introduced [where hello = hello]) simp_all
  have "env_Close env = None" using assms(1) by (simp add: connects_def)
  then show ?thesis
    unfolding d bindL_def rp using assms(12)
    by (simp add: closeConn_def report_eq verdict_def bindL_def) (simp add: prepared_def)
qed

text \<open>C7: a leech gets the metadata from a peer that follows the protocol.  When the host lets it connect
  and write, and the peer answers the handshakes, announces the size of the metadata and sends its pieces in
  order, with any number of messages of other kinds in between, then \<open>Do\<close> returns, has written its
  handshakes and one request per piece and nothing else, and has called \<open>OnSuccess\<close> once, with the metadata
  that the verification of these bytes yields.\<close>

theorem leech_honest_peer:
  assumes "connects env a c" and "length h = 20"
    and "c_in c = hello @ concat (map (data_message noise header M) [0..<nPieces (length M)]) @ r"
    and "introduces env u (length M) hello" and "sends_pieces env noise header M"
    and "M \<noteq> []" and "length M < MAX_METADATA_SIZE" and "0 < u" and "u < 255"
    and "\<forall>i < nPieces (length M). env_marshal env \<lparr>ed_MsgType = 0, ed_Piece = int i\<rparr> = Inr (dump i)"
    and "length (outgoing h (go_copy (replicate 20 0) peerID) (of_int u) dump (length M)) \<le> c_room c"
    and "verify env h M = Inr md"
  shows "\<exists>l' c'. Do env (NewLeech h a peerID) = (Inr (), l') \<and> l_events l' = [OnSuccess md]
     \<and> l_conn l' = Some c' \<and> c_in c' = r
     \<and> c_out c' = c_out c @ outgoing h (go_copy (replicate 20 0) peerID) (of_int u) dump (length M)"
  using assms by (rule honest_run)

text \<open>A host and a peer of a single-file torrent whose metadata is five bytes: the decoder is the one of
  a toy encoding in which a dictionary is a single byte.\<close>

definition demo_info :: info where
  "demo_info = \<lparr>i_Name = ''demo'', i_Length = 5, i_PieceLength = 16384, i_Pieces = replicate 20 7, i_Files = []\<rparr>"

definition demo_hello :: "byte list" where
  "demo_hello = bt_prefix @ [0, 0, 0, 0, 0, 0x10, 0, 0] @ replicate 40 9 @ frame [] @ frame [20, 0, 5]"

definition demo_conn :: "byte list \<Rightarrow> conn" where
  "demo_conn data = \<lparr>c_in = demo_hello @ data, c_end = ''EOF'', c_room = 1000, c_werr = ''broken pipe'', c_out = []\<rparr>"

definition demo_leech_env :: "byte list \<Rightarrow> leech_env" where
  "demo_leech_env data = \<lparr>env_dial = \<lambda>a. Inr (demo_conn data), env_SetLinger = None, env_SetNoDelay = None,
     env_SetDeadline = None, env_Close = None,
     env_root = \<lambda>b. Inr \<lparr>rd_UTMetadata = 3, rd_MetadataSize = 5\<rparr>,
     env_decode = \<lambda>b. (case b of [] \<Rightarrow> Inl ''EOF'' | x # r \<Rightarrow> Inr (\<lparr>ed_MsgType = 1, ed_Piece = sint x\<rparr>, r)),
     env_marshal = \<lambda>d. Inr [of_int (ed_Piece d)],
     env_info = \<lambda>b. Inr demo_info, env_TotalLength = \<lambda>i. 5, env_NumPieces = \<lambda>i. 1,
     env_DisplayPath = \<lambda>f i. [], env_now = 0\<rparr>"

definition demo_peer_addr :: tcp_addr where
  "demo_peer_addr = \<lparr>tcp_IP = [10, 0, 0, 7], tcp_Port = 6881\<rparr>"

lemma greets_demo: "greets (bt_prefix @ [0, 0, 0, 0, 0, 0x10, 0, 0] @ replicate 40 9)"
  by (simp add: greets_def nth_append)

lemma demo_setup:
  "connects (demo_leech_env data) a (demo_conn data)" "introduces (demo_leech_env data) 3 5 demo_hello"
  "nPieces 5 = 1" "length h = 20 \<Longrightarrow> length i = 20 \<Longrightarrow> length (outgoing h i code (\<lambda>i. [of_nat i]) 5) = 105"
proof -
  show "connects (demo_leech_env data) a (demo_conn data)"
    by (simp add: connects_def demo_leech_env_def)
  have "demo_hello = (bt_prefix @ [0, 0, 0, 0, 0, 0x10, 0, 0] @ replicate 40 9) @ concat (map frame [[]]) @ frame ([20, 0] @ [5])"
    by (simp add: demo_hello_def)
  moreover have "list_all ignorable [[]]" by (simp add: ignorable_def)
  ultimately show "introduces (demo_leech_env data) 3 5 demo_hello"
    unfolding introduces_def using greets_demo
    by (intro exI conjI) (assumption | simp add: demo_leech_env_def MAX_METADATA_SIZE_def)+
  show n: "nPieces 5 = 1" by (simp add: nPieces_def)
  show "length (outgoing h i code (\<lambda>i. [of_nat i]) 5) = 105" if "length h = 20" "length i = 20"
    using that by (simp add: outgoing_def length_handshake length_ex_handshake n requests_def request_def frame_def)
qed

definition demo_md :: metadata where
  "demo_md = \<lparr>md_InfoHash = sha1 [1, 2, 3, 4, 5], md_Name = ''demo'', md_TotalSize = 5, md_DiscoveredOn = 0,
     md_Files = [\<lparr>f_Size = 5, f_Path = ''demo''\<rparr>]\<rparr>"

lemma demo_verify: "verify (demo_leech_env data) (sha1 [1, 2, 3, 4, 5]) [1, 2, 3, 4, 5] = Inr demo_md"
  by (simp add: verify_def demo_leech_env_def validateInfo_def demo_info_def lib_def info_files_def demo_md_def
      wrap64_def go_div_def)

text \<open>The premises of the transfer, for the peer that sends the five bytes in one piece.\<close>

lemma demo_pieces:
  defines "M \<equiv> [1, 2, 3, 4, 5] :: byte list" and "d \<equiv> frame [20, 1, 0, 1, 2, 3, 4, 5]"
  shows "length M = 5" and "sends_pieces (demo_leech_env d) (\<lambda>i. []) (\<lambda>i. [0]) M"
    and "c_in (demo_conn d) = demo_hello
      @ concat (map (data_message (\<lambda>i. []) (\<lambda>i. [0]) M) [0..<nPieces (length M)]) @ []"
    and "\<forall>i < nPieces (length M). env_marshal (demo_leech_env d) \<lparr>ed_MsgType = 0, ed_Piece = int i\<rparr> = Inr [of_nat i]"
    and "length (outgoing (sha1 M) (go_copy (replicate 20 0) p) (of_int 3) (\<lambda>i. [of_nat i]) (length M))
      \<le> c_room (demo_conn d)"
proof -
  show n: "length M = 5" by (simp add: M_def)
  show "sends_pieces (demo_leech_env d) (\<lambda>i. []) (\<lambda>i. [0]) M"
    unfolding sends_pieces_def n demo_setup(3)
    by (simp add: demo_leech_env_def piece_def MAX_METADATA_SIZE_def M_def)
  show "c_in (demo_conn d) = demo_hello
      @ concat (map (data_message (\<lambda>i. []) (\<lambda>i. [0]) M) [0..<nPieces (length M)]) @ []"
    unfolding n demo_setup(3) by (simp add: demo_conn_def data_message_def piece_def M_def d_def)
  show "\<forall>i < nPieces (length M). env_marshal (demo_leech_env d) \<lparr>ed_MsgType = 0, ed_Piece = int i\<rparr> = Inr [of_nat i]"
    by (simp add: demo_leech_env_def)
  show "length (outgoing (sha1 M) (go_copy (replicate 20 0) p) (of_int 3) (\<lambda>i. [of_nat i]) (length M))
      \<le> c_room (demo_conn d)"
    unfolding n by (simp add: demo_setup(4) length_sha1 demo_conn_def)
qed

lemmas demo_transfer = demo_setup(1) length_sha1 demo_pieces(3) demo_setup(2) [folded demo_pieces(1)] demo_pieces(2)

lemma demo_success:
  "\<exists>l'. Do (demo_leech_env (frame [20, 1, 0, 1, 2, 3, 4, 5])) (NewLeech (sha1 [1, 2, 3, 4, 5]) demo_peer_addr p)
       = (Inr (), l') \<and> l_events l' = [OnSuccess demo_md]"
  using honest_run [OF demo_transfer _ _ _ _ demo_pieces(4,5) demo_verify, of demo_peer_addr p]
  by (auto simp: MAX_METADATA_SIZE_def)

theorem leech_honest_peer_witness:
  "\<exists>l'. Do (demo_leech_env (frame [20, 1, 0, 1, 2, 3, 4, 5])) (NewLeech (sha1 [1, 2, 3, 4, 5]) demo_peer_addr [])
       = (Inr (), l') \<and> l_events l' = [OnSuccess demo_md]"
  using leech_honest_peer [OF demo_transfer _ _ _ _ demo_pieces(4,5) demo_verify, of demo_peer_addr]
  by (auto simp: MAX_METADATA_SIZE_def)

lemma crash_run:
  assumes "connects env a c" and "length h = 20"
    and "c_in c = hello @ frame ([20, 1] @ body) @ r" and "introduces env u n hello"
    and "0 < n" and "n < MAX_METADATA_SIZE" and "0 < u" and "u < 255"
    and "\<forall>i < nPieces n. env_marshal env \<lparr>ed_MsgType = 0, ed_Piece = int i\<rparr> = Inr (dump i)"
    and "length (outgoing h (go_copy (replicate 20 0) peerID) (of_int u) dump n) \<le> c_room c"
    and "length body + 2 \<le> MAX_METADATA_SIZE"
    and "env_decode env body = Inr (\<lparr>ed_MsgType = 1, ed_Piece = k\<rparr>, p)" and "length p \<le> 16 * 1024"
    and "\<not> piece_in_range n k (length p)"
  shows "\<exists>l'. Do env (NewLeech h a peerID) = (Inl (Panic ''slice bounds out of range''), l') \<and> l_events l' = []"
proof -
  let ?out = "outgoing h (go_copy (replicate 20 0) peerID) (of_int u) dump n"
  let ?p = "prepared c (frame ([20, 1] @ body) @ r) ?out u n (NewLeech h a peerID)"
  let ?c = "c\<lparr>c_in := frame ([20, 1] @ body) @ r, c_out := c_out c @ ?out, c_room := c_room c - length ?out\<rparr>"
  have "readUmMessage ?p = (Inr ([20, 1] @ body), ?p\<lparr>l_conn := Some (?c\<lparr>c_in := r\<rparr>)\<rparr>)"
    using assms(11) readUmMessage_frames [of ?p ?c "[]" "[20, 1] @ body" r] by (simp add: prepared_def)
  moreover have "store_piece (l_metadata ?p) k p = Inl (Panic ''slice bounds out of range'')"
    using assms(14) by (simp add: store_piece_cases prepared_def)
  ultimately have "next_um_message env ?p
      = (Inl (Panic ''slice bounds out of range''), ?p\<lparr>l_conn := Some (?c\<lparr>c_in := r\<rparr>)\<rparr>)"
    using assms(12,13)
    by (simp add: next_um_message_def on_um_message_def on_data_def bindL_def liftL_def prepared_def)
  moreover have "l_metadataReceived ?p < l_metadataSize ?p"
    using assms(5) by (simp add: prepared_def NewLeech_def)
  ultimately have rp: "receive_pieces env ?p
      = (Inl (Panic ''slice bounds out of range''), ?p\<lparr>l_conn := Some (?c\<lparr>c_in := r\<rparr>)\<rparr>)"
    by (subst receive_pieces.simps) (simp add: bindL_def)
  have d: "Do env (NewLeech h a peerID) =
     (case bindL (receive_pieces env) (\<lambda>complete.
         if complete then bindL (closeConn env) (\<lambda>_. report env) else ret ()) ?p of
      (r, l1) \<Rightarrow> (case closeConn env l1 of (Inl e, l2) \<Rightarrow> (Inl e, l2) | (Inr _, l2) \<Rightarrow> (r, l2)))"
    using assms by (intro Do_introduced [where hello = hello]) simp_all
  have "env_Close env = None" using assms(1) by (simp add: connects_def)
  then show ?thesis
    unfolding d bindL_def rp by (simp add: closeConn_def prepared_def)
qed

text \<open>C24: a peer can crash the program.  After the handshakes a single data message of at most 16 KiB whose
  piece number puts it outside the announced metadata, such as a negative one, ends the leech
  in a panic, which no \<open>recover\<close> catches, before any callback.\<close>

theorem leech_crashed_by_peer:
  assumes "connects env a c" and "length h = 20"
    and "c_in c = hello @ frame ([20, 1] @ body) @ r" and "introduces env u n hello"
    and "0 < n" and "n < MAX_METADATA_SIZE" and "0 < u" and "u < 255"
    and "\<forall>i < nPieces n. env_marshal env \<lparr>ed_MsgType = 0, ed_Piece = int i\<rparr> = Inr (dump i)"
    and "length (outgoing h (go_copy (replicate 20 0) peerID) (of_int u) dump n) \<le> c_room c"
    and "length body + 2 \<le> MAX_METADATA_SIZE"
    and "env_decode env body = Inr (\<lparr>ed_MsgType = 1, ed_Piece = k\<rparr>, p)" and "length p \<le> 16 * 1024"
    and "\<not> piece_in_range n k (length p)"
  shows "\<exists>l'. Do env (NewLeech h a peerID) = (Inl (Panic ''slice bounds out of range''), l') \<and> l_events l' = []"
  using assms by (rule crash_run)

lemma demo_bad_piece:
  defines "d \<equiv> frame [20, 1, 255, 1]"
  shows "c_in (demo_conn d) = demo_hello @ frame ([20, 1] @ [255, 1]) @ []"
    and "\<forall>i < nPieces 5. env_marshal (demo_leech_env d) \<lparr>ed_MsgType = 0, ed_Piece = int i\<rparr> = Inr [of_nat i]"
    and "length (outgoing (replicate 20 4) (go_copy (replicate 20 0) []) (of_int 3) (\<lambda>i. [of_nat i]) 5)
      \<le> c_room (demo_conn d)"
    and "env_decode (demo_leech_env d) [255, 1] = Inr (\<lparr>ed_MsgType = 1, ed_Piece = -1\<rparr>, [1])"
    and "\<not> piece_in_range 5 (-1) (length [1 :: byte])"
  by (simp_all add: d_def demo_conn_def demo_leech_env_def demo_setup(4) piece_in_range_def wrap64_def)

lemma demo_crash:
  "\<exists>l'. Do (demo_leech_env (frame [20, 1, 255, 1])) (NewLeech (replicate 20 4) demo_peer_addr [])
       = (Inl (Panic ''slice bounds out of range''), l') \<and> l_events l' = []"
  using crash_run [OF demo_setup(1) _ demo_bad_piece(1) demo_setup(2) _ _ _ _ demo_bad_piece(2,3) _
      demo_bad_piece(4) _ demo_bad_piece(5), of demo_peer_addr]
  by (simp add: MAX_METADATA_SIZE_def)

theorem leech_crashed_by_peer_witness:
  "\<exists>l'. Do (demo_leech_env (frame [20, 1, 255, 1])) (NewLeech (replicate 20 4) demo_peer_addr [])
       = (Inl (Panic ''slice bounds out of range''), l') \<and> l_events l' = []"
  using leech_crashed_by_peer [OF demo_setup(1) _ demo_bad_piece(1) demo_setup(2) _ _ _ _ demo_bad_piece(2,3) _
      demo_bad_piece(4) _ demo_bad_piece(5), of demo_peer_addr]
  by (simp add: MAX_METADATA_SIZE_def)

text \<open>C3: what is reported is what was asked for.  When \<open>Do\<close> calls \<open>OnSuccess\<close>, fewer than 10 MiB of
  metadata were received whose SHA-1 digest is the infohash of the leech; they decode to an info
  dictionary that passes \<open>validateInfo\<close>; the metadata reported carries that infohash, the dictionary's
  name, its files, of which there is at least one and none of negative size, and their total size
  modulo 2\<open>^\<close>64.\<close>

theorem leech_success_sound:
  assumes "Do env (NewLeech h a c) = (r, l')" and "OnSuccess md \<in> set (l_events l')"
  shows "\<exists>m info. length m < MAX_METADATA_SIZE \<and> sha1 m = h \<and> env_info env m = Inr info
     \<and> validateInfo env info = Inr ()
     \<and> md = \<lparr>md_InfoHash = h, md_Name = i_Name info,
              md_TotalSize = of_int (sum_list (map f_Size (info_files env info))),
              md_DiscoveredOn = env_now env, md_Files = info_files env info\<rparr>
     \<and> md_Files md \<noteq> [] \<and> list_all (\<lambda>f. 0 \<le> f_Size f) (md_Files md)"
proof -
  from Do_success_verified [OF assms] obtain m
    where v: "verify env h m = Inr md" and m: "length m < MAX_METADATA_SIZE" by blast
  from v obtain info t where i: "sha1 m = h" "env_info env m = Inr info" "validateInfo env info = Inr ()"
    and t: "sum_sizes (info_files env info) 0 = Inr t"
    and md: "md = \<lparr>md_InfoHash = h, md_Name = i_Name info, md_TotalSize = t,
              md_DiscoveredOn = env_now env, md_Files = info_files env info\<rparr>"
    by (auto simp: verify_def bindE_Inr_iff lib_def Let_def split: if_splits sum.splits)
  have "info_files env info \<noteq> []" by (simp add: info_files_def)
  with m i t md show ?thesis
    by (intro exI [of _ m] exI [of _ info]) (simp add: sum_sizes_Inr)
qed

theorem leech_success_sound_witness:
  "\<exists>m. sha1 m = sha1 [1, 2, 3, 4, 5] \<and> length m < MAX_METADATA_SIZE
     \<and> md_Files demo_md \<noteq> [] \<and> list_all (\<lambda>f. 0 \<le> f_Size f) (md_Files demo_md)"
proof -
  from demo_success obtain l' where "Do (demo_leech_env (frame [20, 1, 0, 1, 2, 3, 4, 5]))
      (NewLeech (sha1 [1, 2, 3, 4, 5]) demo_peer_addr []) = (Inr (), l')" and "l_events l' = [OnSuccess demo_md]"
    by blast
  with leech_success_sound [of _ _ demo_peer_addr "[]" "Inr ()" l' demo_md] show ?thesis by fastforce
qed



end
