(* ===== verification/Magneticod.thy ===== *)
theory Magneticod
  imports Database Sink LeechPeer
begin

text \<open>
  The crawler \<open>cmd/magneticod/main.go\<close>: its flags, its start, and the event loop that takes infohashes from the DHT
  manager, hands them to the metadata sink, and stores the metadata that the sink brings.  The loop, the
  indexing services and the leeches interleave freely; the steps of the leeches are runs of
  \<open>Do\<close> of theory \<open>Leech\<close>.

  \<open>zap\<close>'s \<open>Fatal\<close> logs a message and exits; it is a panic with the message, since both end the program.
  The flag parser and the resolver are parameters.
\<close>

subsection \<open>Flags\<close>

record cmd_flags =
  cf_DatabaseURL :: string
  cf_IndexerAddrs :: "string list"
  cf_IndexerInterval :: "64 word"
  cf_IndexerMaxNeighbors :: "64 word"
  cf_LeechMaxN :: "64 word"
  cf_Verbose :: "bool list"
  cf_Profile :: string

record opFlags =
  of_DatabaseURL :: string
  of_IndexerAddrs :: "string list"
  of_IndexerInterval :: int
  of_IndexerMaxNeighbors :: "64 word"
  of_LeechMaxN :: int
  of_Verbosity :: nat
  of_Profile :: string

text \<open>\<open>resolve a\<close> is the error of \<open>net.ResolveUDPAddr\<close>; the text of the error names the position of the address,
  whose decimal form is \<open>show_nat\<close>.\<close>

fun checkAddrs_from :: "(nat \<Rightarrow> string) \<Rightarrow> (string \<Rightarrow> string option) \<Rightarrow> nat \<Rightarrow> string list \<Rightarrow> go_error + unit" where
  "checkAddrs_from show_nat resolve i [] = Inr ()"
| "checkAddrs_from show_nat resolve i (addr # addrs) = (case resolve addr of
       Some e \<Rightarrow> wrapE (show_nat (i + 1) @ ''(th) address ('' @ addr @ '') error'') (Inl (Err e))
     | None \<Rightarrow> checkAddrs_from show_nat resolve (i + 1) addrs)"

definition checkAddrs :: "(nat \<Rightarrow> string) \<Rightarrow> (string \<Rightarrow> string option) \<Rightarrow> string list \<Rightarrow> go_error + unit" where
  "checkAddrs show_nat resolve addrs = checkAddrs_from show_nat resolve 0 addrs"

definition parseFlags :: "(nat \<Rightarrow> string) \<Rightarrow> (string \<Rightarrow> string option) \<Rightarrow> string \<Rightarrow> string + cmd_flags \<Rightarrow> go_error + opFlags" where
  "parseFlags show_nat resolve userDataDir parsed =
     bindE (lib parsed) (\<lambda>cmdF.
     bindE (case checkAddrs show_nat resolve (cf_IndexerAddrs cmdF) of
          Inl _ \<Rightarrow> Inl (Panic ''Of argument (list) `trawler-ml-addr`'') | Inr _ \<Rightarrow> Inr ()) (\<lambda>_.
     Inr \<lparr>of_DatabaseURL = (if cf_DatabaseURL cmdF = [] then ''sqlite3://'' @ userDataDir @ ''/database.sqlite3''
            @ ''?_journal_mode=WAL'' @ ''&_busy_timeout=3000'' @ ''&_foreign_keys=true'' else cf_DatabaseURL cmdF),
       of_IndexerAddrs = cf_IndexerAddrs cmdF,
       of_IndexerInterval = wrap64 (sint (cf_IndexerInterval cmdF) * 1000000000),
       of_IndexerMaxNeighbors = cf_IndexerMaxNeighbors cmdF,
       of_LeechMaxN = sint (cf_LeechMaxN cmdF),
       of_Verbosity = length (cf_Verbose cmdF),
       of_Profile = cf_Profile cmdF\<rparr>))"

subsection \<open>The event loop\<close>

text \<open>\<open>d_found\<close> and \<open>d_closed\<close> record the infohashes of the results that the indexing services delivered and the
  descriptors closed at the end.\<close>

record magneticod =
  d_manager :: manager
  d_sink :: sink
  d_database :: database
  d_stopped :: bool
  d_found :: "byte list list"
  d_closed :: "int list"

definition start :: "host \<Rightarrow> service_env list \<Rightarrow> (nat \<Rightarrow> nat) \<Rightarrow> opFlags \<Rightarrow> go_error + magneticod" where
  "start H services draw opF =
     (case MakeDatabase H (of_DatabaseURL opF) of
        Inl _ \<Rightarrow> Inl (Panic ''Could not open the database'')
      | Inr db \<Rightarrow> bindE (NewManager services (unat (of_IndexerMaxNeighbors opF))) (\<lambda>m.
          Inr \<lparr>d_manager = m, d_sink = NewSink draw (of_LeechMaxN opF), d_database = db, d_stopped = False,
            d_found = [], d_closed = []\<rparr>))"

definition on_result :: "host \<Rightarrow> indexing_result \<Rightarrow> magneticod \<Rightarrow> go_error + magneticod" where
  "on_result H res d =
     (case DoesTorrentExist H (ir_infoHash res) (d_database d) of
        (Inl (Err e), db) \<Rightarrow> Inl (Panic ''Could not check whether torrent exists!'')
      | (Inl (Panic p), db) \<Rightarrow> Inl (Panic p)
      | (Inr exists, db) \<Rightarrow>
          if exists then Inr (d\<lparr>d_database := db\<rparr>)
          else bindE (Sink_Sink res (d_sink d)) (\<lambda>s. Inr (d\<lparr>d_database := db, d_sink := s\<rparr>)))"

definition on_metadata :: "host \<Rightarrow> metadata \<Rightarrow> magneticod \<Rightarrow> go_error + magneticod" where
  "on_metadata H md d =
     (case AddNewTorrent H (md_InfoHash md) (md_Name md) (md_Files md) (d_database d) of
        (Inl (Err e), db) \<Rightarrow> Inl (Panic ''Could not add new torrent to the database'')
      | (Inl (Panic p), db) \<Rightarrow> Inl (Panic p)
      | (Inr _, db) \<Rightarrow> Inr (d\<lparr>d_database := db\<rparr>))"

definition on_interrupt :: "magneticod \<Rightarrow> go_error + magneticod" where
  "on_interrupt d =
     bindE (Manager_Terminate (d_manager d)) (\<lambda>closed. Inr (d\<lparr>d_stopped := True, d_closed := closed\<rparr>))"

text \<open>After the loop the database is closed; an error is only logged.\<close>

definition finish :: "host \<Rightarrow> magneticod \<Rightarrow> magneticod" where
  "finish H d = d\<lparr>d_database := snd (Database_Close H (d_database d))\<rparr>"

subsection \<open>Steps\<close>

text \<open>The libraries that a leech decodes metadata with are those of \<open>codec\<close>.\<close>

definition same_library :: "leech_env \<Rightarrow> leech_env \<Rightarrow> bool" where
  "same_library codec env \<longleftrightarrow> env_info env = env_info codec \<and> env_DisplayPath env = env_DisplayPath codec
     \<and> env_TotalLength env = env_TotalLength codec \<and> env_NumPieces env = env_NumPieces codec"

text \<open>The goroutines of the sink: a leech that ends with a callback, the parts of \<open>flush\<close>, the status tick.\<close>

inductive goroutine_step :: "leech_env \<Rightarrow> sink \<Rightarrow> sink \<Rightarrow> bool" for codec where
  failed: "Leeching h peer \<in># ms_tasks s \<Longrightarrow> same_library codec env \<Longrightarrow>
     Do env (NewLeech h peer (ms_PeerID s)) = (r, l) \<Longrightarrow> OnError h e \<in> set (l_events l) \<Longrightarrow>
     goroutine_step codec s (onLeechError h (leech_ends h peer s))"
| succeeded: "Leeching h peer \<in># ms_tasks s \<Longrightarrow> same_library codec env \<Longrightarrow>
     Do env (NewLeech h peer (ms_PeerID s)) = (r, l) \<Longrightarrow> OnSuccess md \<in> set (l_events l) \<Longrightarrow>
     goroutine_step codec s (flush_enter md (leech_ends h peer s))"
| sent: "Flushing md \<in># ms_tasks s \<Longrightarrow> flush_send md s = Inr (Some t) \<Longrightarrow> goroutine_step codec s t"
| flushed: "Flushed md \<in># ms_tasks s \<Longrightarrow> goroutine_step codec s (flush_delete md s)"
| ticked: "goroutine_step codec s (status_tick s)"

inductive main_step :: "host \<Rightarrow> leech_env \<Rightarrow> magneticod \<Rightarrow> magneticod \<Rightarrow> bool" for H codec where
  found: "length (ir_infoHash res) = 20 \<Longrightarrow> onIndexingResult res (d_manager d) = Inr m \<Longrightarrow>
     main_step H codec d (d\<lparr>d_manager := m, d_found := d_found d @ [ir_infoHash res]\<rparr>)"
| trawled: "\<not> d_stopped d \<Longrightarrow> Manager_Output (d_manager d) = Some (res, m) \<Longrightarrow>
     on_result H res (d\<lparr>d_manager := m\<rparr>) = Inr d' \<Longrightarrow> main_step H codec d d'"
| fetched: "\<not> d_stopped d \<Longrightarrow> Drain (d_sink d) = Inr (Some (md, s)) \<Longrightarrow>
     on_metadata H md (d\<lparr>d_sink := s\<rparr>) = Inr d' \<Longrightarrow> main_step H codec d d'"
| leeching: "goroutine_step codec (d_sink d) s \<Longrightarrow> main_step H codec d (d\<lparr>d_sink := s\<rparr>)"
| interrupted: "\<not> d_stopped d \<Longrightarrow> on_interrupt d = Inr d' \<Longrightarrow> main_step H codec d d'"

inductive main_reachable :: "host \<Rightarrow> leech_env \<Rightarrow> magneticod \<Rightarrow> magneticod \<Rightarrow> bool" for H codec d0 where
  init: "main_reachable H codec d0 d0"
| step: "main_reachable H codec d0 d \<Longrightarrow> main_step H codec d d' \<Longrightarrow> main_reachable H codec d0 d'"

inductive_cases goroutine_stepE: "goroutine_step codec s t"
inductive_cases main_stepE: "main_step H codec d d'"

subsection \<open>What is stored\<close>

text \<open>Metadata that was decoded from bytes whose SHA-1 digest is its infohash.\<close>

definition vouched :: "leech_env \<Rightarrow> byte list \<Rightarrow> string \<Rightarrow> File list \<Rightarrow> bool" where
  "vouched codec h n fs \<longleftrightarrow> (\<exists>m info. length m < MAX_METADATA_SIZE \<and> sha1 m = h \<and> env_info codec m = Inr info
     \<and> n = i_Name info \<and> fs = info_files codec info)"

abbreviation vouched_md :: "leech_env \<Rightarrow> metadata \<Rightarrow> bool" where
  "vouched_md codec md \<equiv> vouched codec (md_InfoHash md) (md_Name md) (md_Files md)"

fun task_vouched :: "leech_env \<Rightarrow> task \<Rightarrow> bool" where
  "task_vouched codec (Flushing md) = vouched_md codec md"
| "task_vouched codec _ = True"

definition sink_vouched :: "leech_env \<Rightarrow> byte list set \<Rightarrow> sink \<Rightarrow> bool" where
  "sink_vouched codec F s \<longleftrightarrow> (\<forall>md \<in> set (ch_buf (ms_drain s)). vouched_md codec md \<and> md_InfoHash md \<in> F)
     \<and> (\<forall>t \<in># ms_tasks s. task_key t \<in> F \<and> task_vouched codec t)"

lemma success_vouched:
  assumes "Do env (NewLeech h peer c) = (r, l)" and "OnSuccess md \<in> set (l_events l)" and "same_library codec env"
  shows "vouched_md codec md \<and> md_InfoHash md = h"
proof -
  from Do_success_verified [OF assms(1,2)] obtain m where "verify env h m = Inr md" "length m < MAX_METADATA_SIZE" by blast
  moreover from this obtain info t where "sha1 m = h" "env_info env m = Inr info"
    "md = \<lparr>md_InfoHash = h, md_Name = i_Name info, md_TotalSize = t, md_DiscoveredOn = env_now env, md_Files = info_files env info\<rparr>"
    by (auto simp: verify_def bindE_Inr_iff lib_def Let_def split: if_splits sum.splits)
  moreover have "info_files env i = info_files codec i" for i
    using assms(3) by (simp add: info_files_def same_library_def)
  ultimately show ?thesis using assms(3) by (auto simp: vouched_def same_library_def)
qed

text \<open>A goroutine that starts another one for the same infohash.\<close>

lemma onLeechError_vouched:
  assumes "sink_vouched codec F s" and "h \<in> F"
  shows "sink_vouched codec F (onLeechError h s)"
  using assms by (auto simp: sink_vouched_def onLeechError_def spawn_def split: list.splits)

lemma leech_ends_vouched: "sink_vouched codec F s \<Longrightarrow> sink_vouched codec F (leech_ends h peer s)"
  by (auto simp: sink_vouched_def leech_ends_def dest: in_diffD)

lemma goroutine_vouched:
  assumes "goroutine_step codec s t" and "sink_vouched codec F s"
  shows "sink_vouched codec F t"
  using assms(1)
proof cases
  case (failed h peer env r l e)
  then have "h \<in> F" using assms(2) by (auto simp: sink_vouched_def)
  with failed assms(2) show ?thesis by (simp add: onLeechError_vouched leech_ends_vouched)
next
  case (succeeded h peer env r l md)
  then have "h \<in> F" using assms(2) by (auto simp: sink_vouched_def)
  moreover have "sink_vouched codec F (leech_ends h peer s)" using assms(2) by (rule leech_ends_vouched)
  ultimately show ?thesis
    using success_vouched [OF succeeded(4,5,3)] unfolding succeeded(1) by (auto simp: sink_vouched_def flush_enter_def)
next
  case (sent md)
  then have "vouched_md codec md \<and> md_InfoHash md \<in> F" using assms(2) by (force simp: sink_vouched_def)
  with sent(2) assms(2) show ?thesis
    by (auto simp: sink_vouched_def flush_send_def bindE_Inr_iff chan_send_Some split: option.splits) (blast dest: in_diffD)+
next
  case (flushed md)
  with assms(2) show ?thesis by (auto simp: sink_vouched_def flush_delete_def Let_def dest: in_diffD)
next
  case ticked
  with assms(2) show ?thesis by (simp add: sink_vouched_def status_tick_def)
qed

text \<open>The invariant of a run that started with the contents \<open>C\<close>.\<close>

definition main_inv :: "leech_env \<Rightarrow> contents \<Rightarrow> magneticod \<Rightarrow> bool" where
  "main_inv codec C d \<longleftrightarrow> database_ok (d_database d) \<and> C \<subseteq>\<^sub>m database_contents (d_database d)
     \<and> (\<forall>h n fs. database_contents (d_database d) h = Some (n, fs) \<longrightarrow> C h = Some (n, fs)
          \<or> h \<in> set (d_found d) \<and> vouched codec h n fs)
     \<and> sink_vouched codec (set (d_found d)) (d_sink d)
     \<and> (\<forall>res \<in> set (ch_buf (m_output (d_manager d))). ir_infoHash res \<in> set (d_found d))"

lemma sink_vouched_mono: "sink_vouched codec F s \<Longrightarrow> F \<subseteq> G \<Longrightarrow> sink_vouched codec G s"
  by (auto simp: sink_vouched_def)

lemma found_inv:
  assumes "main_inv codec C d" and "onIndexingResult res (d_manager d) = Inr m"
  shows "main_inv codec C (d\<lparr>d_manager := m, d_found := d_found d @ [ir_infoHash res]\<rparr>)"
proof -
  have "set (ch_buf (m_output m)) \<subseteq> insert res (set (ch_buf (m_output (d_manager d))))"
    using assms(2) by (auto simp: onIndexingResult_def bindE_Inr_iff chan_try_send_Inr split: if_splits)
  with assms(1) sink_vouched_mono [of codec "set (d_found d)" "d_sink d" "insert (ir_infoHash res) (set (d_found d))"]
  show ?thesis by (auto simp: main_inv_def)
qed

lemma trawled_inv:
  assumes "main_inv codec C d" and "Manager_Output (d_manager d) = Some (res, m)"
    and "on_result H res (d\<lparr>d_manager := m\<rparr>) = Inr d'"
  shows "main_inv codec C d'"
proof -
  have buf: "ch_buf (m_output (d_manager d)) = res # ch_buf (m_output m)"
    using assms(2) by (auto simp: Manager_Output_def chan_recv_Some)
  obtain r db where e: "DoesTorrentExist H (ir_infoHash res) (d_database d) = (r, db)" by fastforce
  have db: "database_ok db" "database_contents db = database_contents (d_database d)"
    using store.exists_keeps [OF _ e] assms(1) by (auto simp: main_inv_def)
  from assms(3) e consider "d' = d\<lparr>d_manager := m, d_database := db\<rparr>"
    | s where "Sink_Sink res (d_sink d) = Inr s" "d' = d\<lparr>d_manager := m, d_database := db, d_sink := s\<rparr>"
    by (auto simp: on_result_def bindE_Inr_iff split: sum.splits go_error.splits if_splits)
  then show ?thesis
  proof cases
    case 1
    with assms(1) db buf show ?thesis by (simp add: main_inv_def)
  next
    case (2 s)
    have "sink_vouched codec (set (d_found d)) s"
      using assms(1) buf 2(1) by (auto simp: main_inv_def sink_vouched_def Sink_Sink_def spawn_def split: if_splits list.splits)
    with 2(2) assms(1) db buf show ?thesis by (simp add: main_inv_def)
  qed
qed

lemma fetched_inv:
  assumes "main_inv codec C d" and "Drain (d_sink d) = Inr (Some (md, s))"
    and "on_metadata H md (d\<lparr>d_sink := s\<rparr>) = Inr d'"
  shows "main_inv codec C d'"
proof -
  from assms(2) obtain c where c: "ch_buf (ms_drain (d_sink d)) = md # ch_buf c" "s = (d_sink d)\<lparr>ms_drain := c\<rparr>"
    by (auto simp: Drain_def chan_recv_Some split: if_splits)
  have md: "vouched_md codec md" "md_InfoHash md \<in> set (d_found d)"
    using assms(1) c(1) by (simp_all add: main_inv_def sink_vouched_def)
  have sv: "sink_vouched codec (set (d_found d)) s"
    using assms(1) c by (simp add: main_inv_def sink_vouched_def)
  obtain r db where a: "AddNewTorrent H (md_InfoHash md) (md_Name md) (md_Files md) (d_database d) = (r, db)" by fastforce
  with assms(3) have d': "d' = d\<lparr>d_sink := s, d_database := db\<rparr>"
    by (auto simp: on_metadata_def split: sum.splits go_error.splits)
  have ok: "database_ok (d_database d)" using assms(1) by (simp add: main_inv_def)
  from store.add_contents [OF ok a] have new: "C \<subseteq>\<^sub>m database_contents db
      \<and> (\<forall>h n fs. database_contents db h = Some (n, fs) \<longrightarrow> C h = Some (n, fs) \<or> h \<in> set (d_found d) \<and> vouched codec h n fs)"
  proof
    assume "database_contents db = database_contents (d_database d)"
    with assms(1) show ?thesis by (simp add: main_inv_def)
  next
    assume n: "r = Inr () \<and> database_contents (d_database d) (md_InfoHash md) = None
      \<and> database_contents db = (database_contents (d_database d))(md_InfoHash md \<mapsto> (md_Name md, md_Files md))"
    have le: "C \<subseteq>\<^sub>m database_contents (d_database d)" using assms(1) by (simp add: main_inv_def)
    with n have "md_InfoHash md \<notin> dom C" by (metis domIff map_le_def)
    with n le have "C \<subseteq>\<^sub>m database_contents db" by (auto simp: map_le_def)
    with n assms(1) md show ?thesis by (auto simp: main_inv_def split: if_splits)
  qed
  with sv assms(1) store.add_ok [OF ok a] show ?thesis by (auto simp: main_inv_def d')
qed

lemma main_step_inv: "main_step H codec d d' \<Longrightarrow> main_inv codec C d \<Longrightarrow> main_inv codec C d'"
  by (erule main_step.cases)
    (auto simp: on_interrupt_def bindE_Inr_iff intro: found_inv trawled_inv fetched_inv,
      auto simp: main_inv_def goroutine_vouched)

lemma main_reachable_inv:
  "main_reachable H codec d0 d \<Longrightarrow> main_inv codec C d0 \<Longrightarrow> main_inv codec C d"
  by (induction rule: main_reachable.induct) (auto intro: main_step_inv)

text \<open>A start of the program is such an initial state.\<close>

lemma initial_inv:
  assumes "d_sink d0 = NewSink draw maxN" and "ch_buf (m_output (d_manager d0)) = []" and "database_ok (d_database d0)"
  shows "main_inv codec (database_contents (d_database d0)) d0"
  using assms by (auto simp: main_inv_def sink_vouched_def NewSink_def make_chan_def map_le_def)

lemma start_initial:
  assumes "start H services draw opF = Inr d"
  shows "d_sink d = NewSink draw (of_LeechMaxN opF) \<and> ch_buf (m_output (d_manager d)) = [] \<and> \<not> d_stopped d"
  using assms by (auto simp: start_def bindE_Inr_iff NewManager_eq make_chan_def split: sum.splits)

subsection \<open>A run that stores a torrent\<close>

lemma AddNewTorrent_stores:
  assumes "smooth drv (sc_calls c)" and "clock_ok drv" and "sqlite_ok c"
    and "total_size_of fs \<noteq> 0" and "uint (total_size_of fs) < 2 ^ 63" and "sqlite_contents (sc_db c) h = None"
  shows "\<exists>c'. sqlite3_AddNewTorrent drv h n fs c = (Inr (), c') \<and> sqlite_contents (sc_db c') h = Some (n, fs)"
proof -
  from AddNewTorrent_smooth [OF assms, of n] obtain i d' c' where
    "insert_torrent h n (total_size_of fs) (drv_now drv (sc_calls c + 2)) (sc_db c) = Inr (i, d')"
    "sqlite3_AddNewTorrent drv h n fs c = (Inr (), c')" "sc_db c' = with_files i fs d'" by blast
  moreover from this inserted_contents [of "sc_db c"] assms(3) have "sqlite_contents (sc_db c') h = Some (n, fs)"
    by (simp add: sqlite_ok_def)
  ultimately show ?thesis by blast
qed

lemma run_stores:
  assumes d0: "d_sink d0 = NewSink draw maxN" "m_output (d_manager d0) = make_chan 20" "d_database d0 = SqliteDB c" "\<not> d_stopped d0"
    and c: "sqlite_ok c" "smooth (h_driver H) (sc_calls c)" "clock_ok (h_driver H)" "sqlite_contents (sc_db c) h = None"
    and res: "res = \<lparr>ir_infoHash = h, ir_peerAddrs = [peer]\<rparr>" "length h = 20" "0 < maxN"
    and leech: "Do codec (NewLeech h peer (randomID draw)) = (Inr (), l)" "OnSuccess md \<in> set (l_events l)"
    and md: "md_InfoHash md = h" "total_size_of (md_Files md) \<noteq> 0" "uint (total_size_of (md_Files md)) < 2 ^ 63"
  shows "\<exists>d c'. main_reachable H codec d0 d \<and> d_database d = SqliteDB c'
     \<and> sqlite_contents (sc_db c') h = Some (md_Name md, md_Files md)"
proof -
  let ?m1 = "(d_manager d0)\<lparr>m_output := (make_chan 20)\<lparr>ch_buf := [res]\<rparr>\<rparr>"
  let ?d1 = "d0\<lparr>d_manager := ?m1, d_found := d_found d0 @ [h]\<rparr>"
  have "onIndexingResult res (d_manager d0) = Inr ?m1"
    by (simp add: onIndexingResult_def chan_try_send_def chan_send_def d0(2) make_chan_def)
  then have r1: "main_reachable H codec d0 ?d1"
    using main_step.found [of res d0 ?m1 H codec] res by (auto intro: main_reachable.intros)
  let ?c2 = "c\<lparr>sc_calls := Suc (sc_calls c)\<rparr>" and ?m2 = "(d_manager d0)\<lparr>m_output := make_chan 20\<rparr>"
  let ?s2 = "spawn h peer ((NewSink draw maxN)\<lparr>incomingInfoHashes := [(h, [])], ms_accepted := [h]\<rparr>)"
  let ?d2 = "d0\<lparr>d_manager := ?m2, d_found := d_found d0 @ [h], d_database := SqliteDB ?c2, d_sink := ?s2\<rparr>"
  have ex: "DoesTorrentExist H h (SqliteDB c) = (Inr False, SqliteDB ?c2)"
    using DoesTorrentExist_smooth [OF c(2), of h] c(1,4) by (simp add: DoesTorrentExist_def dispatch_def on_sqlite_def sqlite_ok_def)
  have "Manager_Output ?m1 = Some (res, ?m2)" by (simp add: Manager_Output_def chan_recv_def make_chan_def)
  moreover have "on_result H res (?d1\<lparr>d_manager := ?m2\<rparr>) = Inr ?d2"
    using ex d0 res by (simp add: on_result_def Sink_Sink_def NewSink_def)
  ultimately have "main_step H codec ?d1 ?d2" using d0(4) by (intro main_step.trawled) simp_all
  with r1 have r2: "main_reachable H codec d0 ?d2" by (rule main_reachable.step)
  let ?s3 = "flush_enter md (leech_ends h peer ?s2)"
  have "goroutine_step codec ?s2 ?s3"
    by (rule goroutine_step.succeeded [OF _ _ _ leech(2)]) (use leech in \<open>simp_all add: spawn_def NewSink_def same_library_def\<close>)
  with r2 have r3: "main_reachable H codec d0 (?d2\<lparr>d_sink := ?s3\<rparr>)"
    using main_step.leeching [of codec ?d2 ?s3 H]
    by (intro main_reachable.step [OF r2]) simp
  obtain s4 where s4: "flush_send md ?s3 = Inr (Some s4)" "ms_drain s4 = (make_chan 10)\<lparr>ch_buf := [md]\<rparr>" "\<not> ms_terminated s4"
    by (simp add: flush_send_def flush_enter_def leech_ends_def spawn_def NewSink_def chan_send_def make_chan_def)
  have "Flushing md \<in># ms_tasks ?s3" by (simp add: flush_enter_def leech_ends_def spawn_def NewSink_def)
  with s4(1) have "goroutine_step codec ?s3 s4" by (intro goroutine_step.sent)
  then have r4: "main_reachable H codec d0 (?d2\<lparr>d_sink := s4\<rparr>)"
    using main_step.leeching [of codec "?d2\<lparr>d_sink := ?s3\<rparr>" s4 H] by (intro main_reachable.step [OF r3]) simp
  have ok2: "sqlite_ok ?c2" "smooth (h_driver H) (sc_calls ?c2)" "sqlite_contents (sc_db ?c2) h = None"
    using c by (simp_all add: sqlite_ok_def)
  from AddNewTorrent_stores [OF ok2(2) c(3) ok2(1) md(2,3) ok2(3), of "md_Name md"] obtain c5 where
    c5: "sqlite3_AddNewTorrent (h_driver H) h (md_Name md) (md_Files md) ?c2 = (Inr (), c5)"
    "sqlite_contents (sc_db c5) h = Some (md_Name md, md_Files md)" by blast
  let ?s5 = "s4\<lparr>ms_drain := make_chan 10\<rparr>"
  let ?d5 = "?d2\<lparr>d_sink := ?s5, d_database := SqliteDB c5\<rparr>"
  have "Drain s4 = Inr (Some (md, ?s5))" using s4 by (simp add: Drain_def chan_recv_def make_chan_def)
  moreover have "on_metadata H md (?d2\<lparr>d_sink := ?s5\<rparr>) = Inr ?d5"
    using c5(1) md(1) by (simp add: on_metadata_def AddNewTorrent_def dispatch_def on_sqlite_def)
  ultimately have "main_step H codec (?d2\<lparr>d_sink := s4\<rparr>) ?d5" using d0(4) by (intro main_step.fetched) simp_all
  with r4 have "main_reachable H codec d0 ?d5" by (rule main_reachable.step)
  then show ?thesis using c5(2) by (intro exI [of _ ?d5] exI [of _ c5]) simp
qed

subsection \<open>Property\<close>

text \<open>C2: what \<open>magneticod\<close> writes to its database.  From its start on, whatever the indexing services find, however
  the goroutines interleave and wherever the database fails, the database stays well-formed, every torrent that was
  in it stays there unchanged, and a torrent that is new in it has the infohash of a result that an indexing service
  delivered, and the name and the files of metadata, below the size limit, whose SHA-1 digest is that infohash.\<close>

theorem magneticod_stores:
  assumes "start H services draw opF = Inr d0" and "database_ok (d_database d0)" and "main_reachable H codec d0 d"
  shows "database_ok (d_database d) \<and> database_contents (d_database d0) \<subseteq>\<^sub>m database_contents (d_database d)
     \<and> (\<forall>h n fs. database_contents (d_database d) h = Some (n, fs) \<longrightarrow>
          database_contents (d_database d0) h = Some (n, fs)
          \<or> h \<in> set (d_found d) \<and> (\<exists>m info. length m < MAX_METADATA_SIZE \<and> sha1 m = h
              \<and> env_info codec m = Inr info \<and> n = i_Name info \<and> fs = info_files codec info))"
  using main_reachable_inv [OF assms(3) initial_inv [OF _ _ assms(2)]] start_initial [OF assms(1)]
  by (simp add: main_inv_def vouched_def)

text \<open>The program started on an empty SQLite file, with one peer that serves the metadata of a torrent.\<close>

definition demo_host :: host where
  "demo_host = \<lparr>h_parse = \<lambda>_. Inr \<lparr>url_Scheme = ''sqlite3'', url_Hostname = [], url_Port = [], url_Path = ''/db'', url_Query = []\<rparr>,
     h_mkdir = \<lambda>_. None, h_open = \<lambda>_. None, h_driver = steady_driver, h_rank = \<lambda>_ _ _. None,
     h_strftime = \<lambda>_ _. [], h_sequence = id, h_estimate = \<lambda>_. [], h_write = \<lambda>_. None, h_sync = None,
     h_beanstalk = \<lparr>bs_dial = \<lambda>_. None, bs_use = \<lambda>_. None, bs_put = \<lambda>_. None\<rparr>,
     h_sqlite_file = empty_db\<lparr>sl_version := 0\<rparr>,
     h_pg_data = \<lparr>pg_extensions = [], pg_objects = [], pg_migrations = [], pg_torrents = [], pg_files = []\<rparr>\<rparr>"

definition demo_flags :: opFlags where
  "demo_flags = \<lparr>of_DatabaseURL = ''sqlite3:///db'', of_IndexerAddrs = [], of_IndexerInterval = 1,
     of_IndexerMaxNeighbors = 1000, of_LeechMaxN = 50, of_Verbosity = 0, of_Profile = []\<rparr>"

lemma demo_start:
  "\<exists>d0 c. start demo_host [] (\<lambda>_. 0) demo_flags = Inr d0 \<and> d_database d0 = SqliteDB c \<and> sqlite_ok c
     \<and> smooth steady_driver (sc_calls c) \<and> sqlite_contents (sc_db c) = (\<lambda>_. None)
     \<and> d_sink d0 = NewSink (\<lambda>_. 0) 50 \<and> m_output (d_manager d0) = make_chan 20 \<and> \<not> d_stopped d0"
proof -
  let ?c = "\<lparr>sc_db = empty_db\<lparr>sl_version := 0\<rparr>, sc_tx = None, sc_calls = 1\<rparr>"
  have "smooth steady_driver (sc_calls ?c)" "sc_tx ?c = None" "at_version 0 (sc_db ?c)" "(0 :: int) \<le> 3"
    by (simp_all add: smooth_def steady_driver_def failing_driver_def at_version_def empty_db_def)
  from setupDatabase_smooth [OF this] obtain c' where c': "setupDatabase steady_driver ?c = (Inr (), c')" "sc_tx c' = None"
    "smooth steady_driver (sc_calls c')" "same_rows (sc_db ?c) (sc_db c')" by blast
  from c'(4) have "sl_torrents (sc_db c') = []" "sl_files (sc_db c') = []" by (simp_all add: same_rows_def empty_db_def)
  then have "sqlite_ok c'" "sqlite_contents (sc_db c') = (\<lambda>_. None)"
    using c'(2) by (simp_all add: sqlite_ok_def tables_ok_def sqlite_contents_def [abs_def] torrent_of_def)
  moreover have "MakeDatabase demo_host (of_DatabaseURL demo_flags) = Inr (SqliteDB c')"
    using c'(1) by (simp add: MakeDatabase_def demo_host_def makeSqlite3Database_def bindL_def wrapL_def driver_call_def
        steady_driver_def failing_driver_def)
  ultimately show ?thesis using c'(3)
    by (simp add: start_def NewManager_eq demo_flags_def)
qed

lemma demo_run:
  "\<exists>d0 d c. start demo_host [] (\<lambda>_. 0) demo_flags = Inr d0 \<and> database_ok (d_database d0)
     \<and> database_contents (d_database d0) = (\<lambda>_. None)
     \<and> main_reachable demo_host (demo_leech_env (frame [20, 1, 0, 1, 2, 3, 4, 5])) d0 d
     \<and> d_database d = SqliteDB c \<and> sqlite_contents (sc_db c) (sha1 [1, 2, 3, 4, 5]) = Some (''demo'', md_Files demo_md)"
proof -
  let ?h = "sha1 [1, 2, 3, 4, 5]" and ?codec = "demo_leech_env (frame [20, 1, 0, 1, 2, 3, 4, 5])"
  from demo_start obtain d0 c where d0: "start demo_host [] (\<lambda>_. 0) demo_flags = Inr d0" "d_database d0 = SqliteDB c"
    "sqlite_ok c" "smooth (h_driver demo_host) (sc_calls c)" "sqlite_contents (sc_db c) = (\<lambda>_. None)"
    "d_sink d0 = NewSink (\<lambda>_. 0) 50" "m_output (d_manager d0) = make_chan 20" "\<not> d_stopped d0"
    by (auto simp: demo_host_def)
  from demo_success [of "randomID (\<lambda>_. 0)"] obtain l where l: "Do ?codec (NewLeech ?h demo_peer_addr (randomID (\<lambda>_. 0))) = (Inr (), l)"
    "OnSuccess demo_md \<in> set (l_events l)" by auto
  have "clock_ok (h_driver demo_host)" "sqlite_contents (sc_db c) ?h = None" "md_InfoHash demo_md = ?h"
    "total_size_of (md_Files demo_md) \<noteq> 0" "uint (total_size_of (md_Files demo_md)) < 2 ^ 63"
    using d0(5) by (simp_all add: clock_ok_def demo_host_def steady_driver_def failing_driver_def modified_on_default_def
        demo_md_def total_size_of_def)
  with run_stores [OF d0(6,7,2,8,3,4) _ _ refl _ _ l] obtain d c' where "main_reachable demo_host ?codec d0 d"
    "d_database d = SqliteDB c'" "sqlite_contents (sc_db c') ?h = Some (''demo'', md_Files demo_md)"
    by (auto simp: length_sha1 demo_md_def)
  with d0(1,2,3,5) show ?thesis by auto
qed

theorem magneticod_stores_witness:
  "\<exists>d0 d. start demo_host [] (\<lambda>_. 0) demo_flags = Inr d0
     \<and> main_reachable demo_host (demo_leech_env (frame [20, 1, 0, 1, 2, 3, 4, 5])) d0 d
     \<and> database_contents (d_database d0) (sha1 [1, 2, 3, 4, 5]) = None
     \<and> database_contents (d_database d) (sha1 [1, 2, 3, 4, 5]) = Some (''demo'', md_Files demo_md)
     \<and> database_ok (d_database d) \<and> sha1 [1, 2, 3, 4, 5] \<in> set (d_found d)"
proof -
  let ?h = "sha1 [1, 2, 3, 4, 5]"
  from demo_run obtain d0 d c where d: "start demo_host [] (\<lambda>_. 0) demo_flags = Inr d0" "database_ok (d_database d0)"
    "database_contents (d_database d0) = (\<lambda>_. None)"
    "main_reachable demo_host (demo_leech_env (frame [20, 1, 0, 1, 2, 3, 4, 5])) d0 d"
    "d_database d = SqliteDB c" "sqlite_contents (sc_db c) ?h = Some (''demo'', md_Files demo_md)" by blast
  have "database_ok (d_database d) \<and> ?h \<in> set (d_found d)"
    using magneticod_stores [OF d(1,2,4)] d(3,5,6) by simp
  with d show ?thesis by auto
qed

end
