(* ===== verification/Http.thy ===== *)
theory Http
  imports Persistence
begin

text \<open>
  What the web interface uses of Go's \<open>net/http\<close>, \<open>encoding/base64\<close> and \<open>strings\<close>, and the helpers of
  \<open>cmd/magneticow\<close> that write to a response: \<open>respondError\<close>, \<open>authenticate\<close> (\<open>main.go\<close>), \<open>handlerError\<close> (\<open>util.go\<close>).

  A response is the status, the header and the body written so far.  The first call of \<open>WriteHeader\<close> decides the
  status, a first \<open>Write\<close> without one makes it 200, and the header is fixed from then on.  A JSON document in the body
  is kept as its tree.
\<close>

subsection \<open>Responses\<close>

datatype chunk = Text string | Document json

record response =
  w_status :: "int option"
  w_header :: "(string \<times> string) list"
  w_body :: "chunk list"

definition new_response :: response where
  "new_response = \<lparr>w_status = None, w_header = [], w_body = []\<rparr>"

definition is_lower :: "char \<Rightarrow> bool" where
  "is_lower c \<longleftrightarrow> 97 \<le> (of_char c :: nat) \<and> (of_char c :: nat) \<le> 122"

definition is_upper :: "char \<Rightarrow> bool" where
  "is_upper c \<longleftrightarrow> 65 \<le> (of_char c :: nat) \<and> (of_char c :: nat) \<le> 90"

definition is_digit :: "char \<Rightarrow> bool" where
  "is_digit c \<longleftrightarrow> 48 \<le> (of_char c :: nat) \<and> (of_char c :: nat) \<le> 57"

definition lower :: "char \<Rightarrow> char" where
  "lower c = (if is_upper c then char_of (of_char c + 32 :: nat) else c)"

definition upper :: "char \<Rightarrow> char" where
  "upper c = (if is_lower c then char_of (of_char c - 32 :: nat) else c)"

text \<open>\<open>textproto.CanonicalMIMEHeaderKey\<close>: upper case at the start and after a hyphen.\<close>

fun canonical :: "bool \<Rightarrow> string \<Rightarrow> string" where
  "canonical up [] = []"
| "canonical up (c # s) = (if up then upper c else lower c) # canonical (c = CHR ''-'') s"

definition Header_Set :: "string \<Rightarrow> string \<Rightarrow> response \<Rightarrow> response" where
  "Header_Set k v w = (if w_status w = None then w\<lparr>w_header := AList.update (canonical True k) v (w_header w)\<rparr> else w)"

definition WriteHeader :: "int \<Rightarrow> response \<Rightarrow> response" where
  "WriteHeader code w = (if w_status w = None then w\<lparr>w_status := Some code\<rparr> else w)"

definition Write :: "chunk \<Rightarrow> response \<Rightarrow> response" where
  "Write b w = (WriteHeader 200 w)\<lparr>w_body := w_body w @ [b]\<rparr>"

definition respondError :: "int \<Rightarrow> string \<Rightarrow> response \<Rightarrow> response" where
  "respondError statusCode text w = Write (Text text) (WriteHeader statusCode w)"

definition authenticate :: "string \<Rightarrow> response \<Rightarrow> response" where
  "authenticate realm w = Write (Text (''Unauthorised.'' @ [CHR 0x0A]))
     (WriteHeader 401 (Header_Set ''WWW-Authenticate'' (''Basic realm='' @ [CHR 0x22] @ realm @ [CHR 0x22]) w))"

definition handlerError :: "string \<Rightarrow> response \<Rightarrow> response" where
  "handlerError err w = Write (Text err) (WriteHeader 500 w)"

text \<open>\<open>http.NotFound\<close>.\<close>

definition NotFound :: "response \<Rightarrow> response" where
  "NotFound w = Write (Text (''404 page not found'' @ [CHR 0x0A])) (WriteHeader 404
     (Header_Set ''X-Content-Type-Options'' ''nosniff'' (Header_Set ''Content-Type'' ''text/plain; charset=utf-8'' w)))"

text \<open>The status that the client sees once the handler has returned.\<close>

definition status :: "response \<Rightarrow> int" where
  "status w = (case w_status w of None \<Rightarrow> 200 | Some c \<Rightarrow> c)"

lemmas response_defs = Header_Set_def WriteHeader_def Write_def respondError_def authenticate_def handlerError_def
  NotFound_def status_def new_response_def

text \<open>The log field of \<open>pkg/util\<close>: a key with the hexadecimal form of some bytes.\<close>

definition HexField :: "string \<Rightarrow> byte list \<Rightarrow> string \<times> string" where
  "HexField key val = (key, EncodeToString val)"

subsection \<open>Strings\<close>

definition HasPrefix :: "string \<Rightarrow> string \<Rightarrow> bool" where
  "HasPrefix s p \<longleftrightarrow> take (length p) s = p"

definition HasSuffix :: "string \<Rightarrow> string \<Rightarrow> bool" where
  "HasSuffix s p \<longleftrightarrow> length p \<le> length s \<and> drop (length s - length p) s = p"

fun Contains :: "string \<Rightarrow> string \<Rightarrow> bool" where
  "Contains [] p \<longleftrightarrow> p = []"
| "Contains (c # s) p \<longleftrightarrow> HasPrefix (c # s) p \<or> Contains s p"

text \<open>\<open>bytes.TrimRight(s, "\<close>\<open>\x00\<close>\<open>")\<close>.\<close>

definition TrimRight0 :: "string \<Rightarrow> string" where
  "TrimRight0 s = rev (dropWhile (\<lambda>c. c = CHR 0x00) (rev s))"

text \<open>A string up to and after the first occurrence of a byte.\<close>

fun cut :: "char \<Rightarrow> string \<Rightarrow> (string \<times> string) option" where
  "cut sep [] = None"
| "cut sep (c # s) = (if c = sep then Some ([], s) else map_option (\<lambda>(a, b). (c # a, b)) (cut sep s))"

lemma cut_Some: "cut sep s = Some (a, b) \<longleftrightarrow> s = a @ sep # b \<and> sep \<notin> set a"
proof (induction s arbitrary: a)
  case (Cons c s)
  then show ?case by (cases a) auto
qed simp

lemma cut_None: "cut sep s = None \<longleftrightarrow> sep \<notin> set s"
  by (induction s) auto

lemma length_cut: "cut sep s = Some (a, b) \<Longrightarrow> length b < length s"
  by (simp add: cut_Some)

lemma TrimRight0_prefix: "\<exists>n. s = TrimRight0 s @ replicate n (CHR 0x00)"
proof -
  have "takeWhile (\<lambda>c. c = CHR 0x00) (rev s) = replicate (length (takeWhile (\<lambda>c. c = CHR 0x00) (rev s))) (CHR 0x00)"
    by (intro replicate_eqI) (auto dest: set_takeWhileD)
  moreover have "s = rev (takeWhile (\<lambda>c. c = CHR 0x00) (rev s) @ dropWhile (\<lambda>c. c = CHR 0x00) (rev s))"
    by (simp only: takeWhile_dropWhile_id rev_rev_ident)
  ultimately show ?thesis unfolding TrimRight0_def by (metis rev_append rev_replicate)
qed

subsection \<open>Base64 and basic authentication\<close>

definition b64_value :: "char \<Rightarrow> nat option" where
  "b64_value c = (let n = of_char c :: nat in
     if is_upper c then Some (n - 65) else if is_lower c then Some (n - 71)
     else if is_digit c then Some (n + 4) else if c = CHR ''+'' then Some 62 else if c = CHR ''/'' then Some 63 else None)"

text \<open>The quanta of four characters; padding ends the text.\<close>

fun b64_quanta :: "string \<Rightarrow> string option" where
  "b64_quanta [] = Some []"
| "b64_quanta (a # b # c # d # s) = (case (b64_value a, b64_value b) of
     (Some x, Some y) \<Rightarrow>
       let b1 = char_of (x * 4 + y div 16) in
       if c = CHR ''='' then (if d = CHR ''='' \<and> s = [] then Some [b1] else None)
       else (case b64_value c of None \<Rightarrow> None | Some z \<Rightarrow>
         let b2 = char_of (y mod 16 * 16 + z div 4) in
         if d = CHR ''='' then (if s = [] then Some [b1, b2] else None)
         else (case b64_value d of None \<Rightarrow> None | Some v \<Rightarrow>
           map_option (\<lambda>r. b1 # b2 # char_of (z mod 4 * 64 + v) # r) (b64_quanta s)))
   | _ \<Rightarrow> None)"
| "b64_quanta _ = None"

text \<open>\<open>base64.StdEncoding.DecodeString\<close>: line ends are skipped.\<close>

definition b64_decode :: "string \<Rightarrow> string option" where
  "b64_decode s = b64_quanta (filter (\<lambda>c. c \<noteq> CHR 0x0A \<and> c \<noteq> CHR 0x0D) s)"

text \<open>\<open>Request.BasicAuth\<close>, from the value of the header \<open>Authorization\<close>, empty if there is none.\<close>

definition parseBasicAuth :: "string \<Rightarrow> (string \<times> string) option" where
  "parseBasicAuth auth =
     (if auth = [] \<or> length auth < 6 \<or> map lower (take 6 auth) \<noteq> ''basic '' then None
      else (case b64_decode (drop 6 auth) of None \<Rightarrow> None | Some cs \<Rightarrow> cut (CHR '':'') cs))"

text \<open>What a client sends (RFC 7617).\<close>

definition b64_digits :: string where
  "b64_digits = ''ABCDEFGHIJKLMNOPQRSTUVWXYZabcdefghijklmnopqrstuvwxyz0123456789+/''"

fun b64_encode :: "string \<Rightarrow> string" where
  "b64_encode [] = []"
| "b64_encode [a] = (let x = of_char a :: nat in [b64_digits ! (x div 4), b64_digits ! (x mod 4 * 16), CHR ''='', CHR ''=''])"
| "b64_encode [a, b] = (let x = of_char a :: nat; y = of_char b in
     [b64_digits ! (x div 4), b64_digits ! (x mod 4 * 16 + y div 16), b64_digits ! (y mod 16 * 4), CHR ''=''])"
| "b64_encode (a # b # c # s) = (let x = of_char a :: nat; y = of_char b; z = of_char c in
     [b64_digits ! (x div 4), b64_digits ! (x mod 4 * 16 + y div 16), b64_digits ! (y mod 16 * 4 + z div 64),
      b64_digits ! (z mod 64)] @ b64_encode s)"

definition basic_header :: "string \<Rightarrow> string \<Rightarrow> string" where
  "basic_header username password = ''Basic '' @ b64_encode (username @ '':'' @ password)"

lemma b64_digit:
  assumes "i < 64"
  shows "b64_value (b64_digits ! i) = Some i" "b64_digits ! i \<noteq> CHR ''=''" "b64_digits ! i \<noteq> CHR 0x0A" "b64_digits ! i \<noteq> CHR 0x0D"
proof -
  have "list_all (\<lambda>i. b64_value (b64_digits ! i) = Some i) [0..<64]" by code_simp
  with assms show v: "b64_value (b64_digits ! i) = Some i" by (simp add: list_all_iff)
  have "b64_value (CHR ''='') = None" "b64_value (CHR 0x0A) = None" "b64_value (CHR 0x0D) = None" by code_simp+
  with v show "b64_digits ! i \<noteq> CHR ''=''" "b64_digits ! i \<noteq> CHR 0x0A" "b64_digits ! i \<noteq> CHR 0x0D" by auto
qed

text \<open>The arithmetic of the six-bit groups.\<close>

lemma b64_groups:
  fixes x y z :: nat
  assumes "x < 256" "y < 256" "z < 256"
  shows "x div 4 < 64" "x mod 4 * 16 + y div 16 < 64" "y mod 16 * 4 + z div 64 < 64" "z mod 64 < 64"
    "x div 4 * 4 + (x mod 4 * 16 + y div 16) div 16 = x"
    "(x mod 4 * 16 + y div 16) mod 16 * 16 + (y mod 16 * 4 + z div 64) div 4 = y"
    "(y mod 16 * 4 + z div 64) mod 4 * 64 + z mod 64 = z"
proof -
  have b: "x div 4 < 64" "x mod 4 < 4" "y div 16 < 16" "y mod 16 < 16" "z div 64 < 4" "z mod 64 < 64"
    using assms by (simp_all add: less_mult_imp_div_less)
  then show "x div 4 < 64" "x mod 4 * 16 + y div 16 < 64" "y mod 16 * 4 + z div 64 < 64" "z mod 64 < 64" by linarith+
  show "x div 4 * 4 + (x mod 4 * 16 + y div 16) div 16 = x" using b(3) by simp
  show "(x mod 4 * 16 + y div 16) mod 16 * 16 + (y mod 16 * 4 + z div 64) div 4 = y" using b(3,5) by simp
  show "(y mod 16 * 4 + z div 64) mod 4 * 64 + z mod 64 = z" using b(5) by simp
qed

lemma of_char_256: "of_char c < (256 :: nat)"
  by simp

lemmas b64_chars = b64_groups [OF of_char_256 of_char_256 of_char_256]
  b64_groups(2,3,5-7) [OF of_char_256 of_char_256, of 0, simplified]
  b64_groups(2,5) [OF of_char_256, of 0, simplified]

lemma char_bits:
  "of_char c div 16 mod 16 = (of_char c div 16 :: nat)" "of_char c div 64 mod 4 = (of_char c div 64 :: nat)"
  "of_char c div 64 div 4 = (0 :: nat)"
  by (simp_all add: less_mult_imp_div_less)

lemma b64_quanta_encode: "b64_quanta (b64_encode s) = Some s"
  by (induction s rule: b64_encode.induct) (simp_all add: Let_def b64_digit b64_chars char_bits)

lemma b64_encode_chars: "list_all (\<lambda>c. c \<noteq> CHR 0x0A \<and> c \<noteq> CHR 0x0D) (b64_encode s)"
  by (induction s rule: b64_encode.induct) (simp_all add: Let_def b64_digit b64_chars)

lemma b64_decode_encode [simp]: "b64_decode (b64_encode s) = Some s"
proof -
  have "filter (\<lambda>c. c \<noteq> CHR 0x0A \<and> c \<noteq> CHR 0x0D) (b64_encode s) = b64_encode s"
    using b64_encode_chars [of s] by (intro filter_True) (simp only: list_all_iff)
  then show ?thesis by (simp add: b64_decode_def b64_quanta_encode)
qed

lemma basic_prefix: "length ''Basic '' = 6" "map lower ''Basic '' = ''basic ''"
  by code_simp+

lemma parseBasicAuth_header:
  assumes "CHR '':'' \<notin> set u"
  shows "parseBasicAuth (basic_header u p) = Some (u, p)"
proof -
  have "take 6 (basic_header u p) = ''Basic ''" "drop 6 (basic_header u p) = b64_encode (u @ '':'' @ p)"
    "basic_header u p \<noteq> []" "\<not> length (basic_header u p) < 6"
    by (simp_all add: basic_header_def)
  moreover have "cut (CHR '':'') (u @ '':'' @ p) = Some (u, p)" using assms by (simp add: cut_Some)
  ultimately show ?thesis
    unfolding parseBasicAuth_def by (simp only: basic_prefix b64_decode_encode) simp
qed

end
