(* ===== verification/Credentials.thy ===== *)
theory Credentials
  imports Http
begin

text \<open>
  The options of the web interface (\<open>cmd/magneticow/main.go\<close>): the command-line flags, the file of credentials and
  its reload on SIGHUP.  The file of credentials is a parameter: an error of \<open>os.Open\<close>, or the bytes that can be read
  and the error, if any, that ends the reading before the end of the file.  The decimal form of a line number is \<open>show_nat\<close>.
\<close>

subsection \<open>Options\<close>

text \<open>\<open>o_locked\<close> is the state of \<open>CredentialsRWMutex\<close> between the steps of the program: locked for ever by a
  \<open>Lock\<close> without \<open>Unlock\<close>.\<close>

record opts =
  o_Addr :: string
  o_Database :: string
  o_Credentials :: "(string \<times> string) list option"
  o_locked :: bool
  o_CredentialsPath :: string
  o_Verbosity :: nat

type_synonym file_system = "string \<Rightarrow> string + string \<times> string option"

subsection \<open>The format of a line\<close>

definition user_char :: "char \<Rightarrow> bool" where
  "user_char c \<longleftrightarrow> is_lower c \<or> is_digit c"

definition hash_char :: "char \<Rightarrow> bool" where
  "hash_char c \<longleftrightarrow> c = CHR ''.'' \<or> c = CHR ''/'' \<or> is_upper c \<or> is_lower c \<or> is_digit c"

text \<open>\<open>(?:_?[a-z0-9])*:\<close> and what follows it.\<close>

fun cred_user :: "string \<Rightarrow> string option" where
  "cred_user [] = None"
| "cred_user [c] = (if c = CHR '':'' then Some [] else None)"
| "cred_user (c # d # s) =
     (if c = CHR '':'' then Some (d # s)
      else if user_char c then cred_user (d # s)
      else if c = CHR ''_'' \<and> user_char d then cred_user s
      else None)"

text \<open>\<open>\$2[aby]?\$\d{1,2}\$[./A-Za-z0-9]{53}$\<close>\<close>

definition cred_salt :: "string \<Rightarrow> bool" where
  "cred_salt s \<longleftrightarrow> (case s of c # r \<Rightarrow> c = CHR ''$'' \<and> length r = 53 \<and> list_all hash_char r | [] \<Rightarrow> False)"

definition cred_cost :: "string \<Rightarrow> bool" where
  "cred_cost s \<longleftrightarrow> (case s of
       c # d # e # r \<Rightarrow> c = CHR ''$'' \<and> is_digit d \<and> (if is_digit e then cred_salt r else cred_salt (e # r))
     | _ \<Rightarrow> False)"

definition cred_hash :: "string \<Rightarrow> bool" where
  "cred_hash s \<longleftrightarrow> (case s of
       c # d # e # r \<Rightarrow> c = CHR ''$'' \<and> d = CHR ''2'' \<and> (if e \<in> set ''aby'' then cred_cost r else cred_cost (e # r))
     | _ \<Rightarrow> False)"

definition cred_line :: "string \<Rightarrow> bool" where
  "cred_line line \<longleftrightarrow> (case line of
       c # s \<Rightarrow> is_lower c \<and> (case cred_user s of Some h \<Rightarrow> cred_hash h | None \<Rightarrow> False)
     | [] \<Rightarrow> False)"

subsection \<open>Loading\<close>

text \<open>\<open>bytes.Split\<close> at a separator of one byte.\<close>

fun bytes_Split :: "char \<Rightarrow> string \<Rightarrow> string list" where
  "bytes_Split sep [] = [[]]"
| "bytes_Split sep (c # s) =
     (if c = sep then [] # bytes_Split sep s
      else (case bytes_Split sep s of t # ts \<Rightarrow> (c # t) # ts | [] \<Rightarrow> [[c]]))"

text \<open>The loop over the lines.  \<open>ReadBytes\<close> returns an error for a last line without a line end, which the loop drops;
  what was stored before an error stays.\<close>

function loadCred_loop :: "(nat \<Rightarrow> string) \<Rightarrow> string option \<Rightarrow> nat \<Rightarrow> string \<Rightarrow> (opts, unit) op" where
  "loadCred_loop show_nat readErr lineno input opt =
     (case cut (CHR 0x0A) input of
        None \<Rightarrow> (case readErr of
            None \<Rightarrow> (Inr (), opt)
          | Some e \<Rightarrow> (wrapE (''while reading line '' @ show_nat lineno) (Inl (Err e)), opt))
      | Some (line, rest) \<Rightarrow>
          if \<not> cred_line line then
            (Inl (Err (''on line '' @ show_nat lineno @ '': format should be: <USERNAME>:<BCRYPT HASH>, instead got: '' @ line)), opt)
          else (case (bytes_Split (CHR '':'') line, o_Credentials opt) of
              (u # h # _, Some m) \<Rightarrow>
                loadCred_loop show_nat readErr (lineno + 1) rest (opt\<lparr>o_Credentials := Some (AList.update u h m)\<rparr>)
            | (u # h # _, None) \<Rightarrow> (Inl (Panic ''assignment to entry in nil map''), opt)
            | _ \<Rightarrow> (Inl (Panic ''index out of range''), opt)))"
  by pat_completeness auto
termination
  by (relation "measure (\<lambda>(show_nat, readErr, lineno, input, opt). length input)") (auto simp: length_cut)

declare loadCred_loop.simps [simp del]

definition loadCred :: "(nat \<Rightarrow> string) \<Rightarrow> file_system \<Rightarrow> string \<Rightarrow> (opts, unit) op" where
  "loadCred show_nat fs cred opt =
     (case fs cred of
        Inl e \<Rightarrow> (Inl (Err e), opt)
      | Inr (input, readErr) \<Rightarrow> loadCred_loop show_nat readErr 1 input opt)"

text \<open>Command-line flags, as go-flags fills them, and the directories that appdirs names.\<close>

record web_flags =
  wf_Addr :: string
  wf_Database :: string
  wf_Cred :: string
  wf_NoAuth :: bool
  wf_Verbose :: "bool list"

definition zero_opts :: opts where
  "zero_opts = \<lparr>o_Addr = [], o_Database = [], o_Credentials = None, o_locked = False, o_CredentialsPath = [], o_Verbosity = 0\<rparr>"

definition web_parseFlags :: "(nat \<Rightarrow> string) \<Rightarrow> file_system \<Rightarrow> string \<Rightarrow> string \<Rightarrow> string + web_flags \<Rightarrow> (opts, unit) op" where
  "web_parseFlags show_nat fs userDataDir defaultCred parsed opt =
     (case parsed of
        Inl e \<Rightarrow> (Inl (Err e), opt)
      | Inr f \<Rightarrow>
         if wf_Cred f \<noteq> [] \<and> wf_NoAuth f then (Inl (Err ''`credentials` and `no-auth` cannot be supplied together''), opt)
         else
           let opt1 = opt\<lparr>o_Addr := wf_Addr f, o_Database := (if wf_Database f = []
                 then ''sqlite3://'' @ userDataDir @ ''/database.sqlite3'' @ ''?_journal_mode=WAL'' else wf_Database f)\<rparr> in
           bindL (if wf_NoAuth f then ret ()
                  else (\<lambda>o1. loadCred show_nat fs (o_CredentialsPath o1) o1) \<circ>
                    (\<lambda>o1. o1\<lparr>o_CredentialsPath := (if wf_Cred f = [] then defaultCred else wf_Cred f), o_Credentials := Some []\<rparr>))
             (\<lambda>_ o2. (Inr (), o2\<lparr>o_Verbosity := length (wf_Verbose f)\<rparr>)) opt1)"

text \<open>SIGHUP: the credentials are cleared under the lock and then reloaded, an error being logged.  Without
  credentials the loop goes on to wait for the next signal with the lock held; \<open>None\<close> means that \<open>Lock\<close> never returns.\<close>

definition sighup_clear :: "opts \<Rightarrow> opts option" where
  "sighup_clear opt =
     (if o_locked opt then None
      else Some (if o_Credentials opt = None then opt\<lparr>o_locked := True\<rparr> else opt\<lparr>o_Credentials := Some []\<rparr>))"

definition sighup_reload :: "(nat \<Rightarrow> string) \<Rightarrow> file_system \<Rightarrow> opts \<Rightarrow> opts" where
  "sighup_reload show_nat fs opt = (if o_Credentials opt = None then opt else snd (loadCred show_nat fs (o_CredentialsPath opt) opt))"

text \<open>The options in the course of the program: signals clear and reload the credentials, the file being one of
  \<open>versions\<close> at each reload.\<close>

inductive opts_reachable :: "(nat \<Rightarrow> string) \<Rightarrow> file_system set \<Rightarrow> opts \<Rightarrow> opts \<Rightarrow> bool" for show_nat versions opt0 where
  started: "opts_reachable show_nat versions opt0 opt0"
| clear: "opts_reachable show_nat versions opt0 opt \<Longrightarrow> sighup_clear opt = Some opt' \<Longrightarrow>
     opts_reachable show_nat versions opt0 opt'"
| reload: "opts_reachable show_nat versions opt0 opt \<Longrightarrow> fs \<in> versions \<Longrightarrow>
     opts_reachable show_nat versions opt0 (sighup_reload show_nat fs opt)"

subsection \<open>What is loaded\<close>

text \<open>The lines of a file that end in a line end, and the credentials of such lines.\<close>

definition file_lines :: "string \<Rightarrow> string list" where
  "file_lines input = butlast (bytes_Split (CHR 0x0A) input)"

definition store_line :: "string \<Rightarrow> (string \<times> string) list \<Rightarrow> (string \<times> string) list" where
  "store_line line m = (case cut (CHR '':'') line of Some (u, h) \<Rightarrow> AList.update u h m | None \<Rightarrow> m)"

lemma bytes_Split_cut:
  "bytes_Split sep s = (case cut sep s of None \<Rightarrow> [s] | Some (a, b) \<Rightarrow> a # bytes_Split sep b)"
  by (induction s) (auto split: option.splits)

lemma bytes_Split_nonempty [simp]: "bytes_Split sep s \<noteq> []"
  by (simp add: bytes_Split_cut [of sep s] split: option.split)

lemma file_lines_cut:
  "file_lines s = (case cut (CHR 0x0A) s of None \<Rightarrow> [] | Some (a, b) \<Rightarrow> a # file_lines b)"
  by (simp add: file_lines_def bytes_Split_cut [of _ s] split: option.split)

lemma cred_user_Some: "cred_user s = Some h \<Longrightarrow> \<exists>u. s = u @ CHR '':'' # h \<and> list_all (\<lambda>c. user_char c \<or> c = CHR ''_'') u"
proof (induction s rule: cred_user.induct)
  case (3 c d s)
  consider "c = CHR '':''" | "c \<noteq> CHR '':''" "user_char c" | "c \<noteq> CHR '':''" "\<not> user_char c" "c = CHR ''_''" "user_char d"
    using 3(3) by (auto split: if_splits)
  then show ?case
  proof cases
    case 1
    with 3(3) show ?thesis by (intro exI [of _ "[]"]) simp
  next
    case 2
    with 3 obtain u where "d # s = u @ CHR '':'' # h" "list_all (\<lambda>c. user_char c \<or> c = CHR ''_'') u" by auto
    with 2 show ?thesis by (intro exI [of _ "c # u"]) simp
  next
    case 3
    with "3.IH"(2) "3.prems" obtain u where "s = u @ CHR '':'' # h" "list_all (\<lambda>c. user_char c \<or> c = CHR ''_'') u" by auto
    with 3 show ?thesis by (intro exI [of _ "c # d # u"]) simp
  qed
qed (auto split: if_splits)

lemma no_colon:
  "list_all (\<lambda>c. user_char c \<or> c = CHR ''_'') u \<Longrightarrow> CHR '':'' \<notin> set u" "is_lower c \<Longrightarrow> c \<noteq> CHR '':''"
  "list_all hash_char r \<Longrightarrow> CHR '':'' \<notin> set r" "is_digit c \<Longrightarrow> c \<noteq> CHR '':''"
proof -
  have c: "\<not> user_char (CHR '':'')" "\<not> hash_char (CHR '':'')" "\<not> is_lower (CHR '':'')" "\<not> is_digit (CHR '':'')" by code_simp+
  then show "is_lower c \<Longrightarrow> c \<noteq> CHR '':''" "is_digit c \<Longrightarrow> c \<noteq> CHR '':''" by auto
  show "list_all (\<lambda>c. user_char c \<or> c = CHR ''_'') u \<Longrightarrow> CHR '':'' \<notin> set u" using c(1) by (induction u) auto
  show "list_all hash_char r \<Longrightarrow> CHR '':'' \<notin> set r" using c(2) by (induction r) auto
qed

lemma cred_hash_no_colon: "cred_hash h \<Longrightarrow> CHR '':'' \<notin> set h"
proof -
  have salt: "cred_salt s \<Longrightarrow> CHR '':'' \<notin> set s" for s
    using no_colon(3) by (auto simp: cred_salt_def split: list.splits)
  have cost: "cred_cost s \<Longrightarrow> CHR '':'' \<notin> set s" for s
    using salt no_colon(4) by (fastforce simp: cred_cost_def split: list.splits if_splits)
  show "cred_hash h \<Longrightarrow> CHR '':'' \<notin> set h"
    using cost by (fastforce simp: cred_hash_def split: list.splits if_splits)
qed

lemma cred_line_parts:
  assumes "cred_line line"
  shows "\<exists>u h. line = u @ CHR '':'' # h \<and> CHR '':'' \<notin> set u \<and> cred_hash h \<and> bytes_Split (CHR '':'') line = [u, h]"
proof -
  from assms obtain c s h where l: "line = c # s" "is_lower c" "cred_user s = Some h" "cred_hash h"
    by (auto simp: cred_line_def split: list.splits option.splits)
  from cred_user_Some [OF l(3)] obtain u where u: "s = u @ CHR '':'' # h" "list_all (\<lambda>c. user_char c \<or> c = CHR ''_'') u" by blast
  have n: "CHR '':'' \<notin> set (c # u)" using no_colon(1) [OF u(2)] no_colon(2) [OF l(2)] by simp
  then have "cut (CHR '':'') line = Some (c # u, h)" using u(1) l(1) by (simp only: cut_Some) simp
  moreover have "cut (CHR '':'') h = None" using cred_hash_no_colon [OF l(4)] by (simp add: cut_None)
  ultimately have "bytes_Split (CHR '':'') line = [c # u, h]" 
    by (simp add: bytes_Split_cut [of _ line] bytes_Split_cut [of _ h])
  with n u(1) l(1,4) show ?thesis by (metis append_Cons)
qed

text \<open>The credentials after the loop are those of the lines up to the first that has not the format.\<close>

lemma loadCred_loop_result:
  "o_Credentials opt = Some m \<Longrightarrow> \<exists>r. loadCred_loop show_nat readErr lineno input opt
      = (r, opt\<lparr>o_Credentials := Some (fold store_line (takeWhile cred_line (file_lines input)) m)\<rparr>)
     \<and> (r = Inr () \<longleftrightarrow> list_all cred_line (file_lines input) \<and> readErr = None) \<and> (\<forall>p. r \<noteq> Inl (Panic p))"
proof (induction "length input" arbitrary: input opt m lineno rule: less_induct)
  case less
  show ?case
  proof (cases "cut (CHR 0x0A) input")
    case None
    then show ?thesis using less(2)
      by (cases readErr) (simp_all add: loadCred_loop.simps [of _ _ _ input] file_lines_cut [of input])
  next
    case (Some lr)
    then obtain line rest where c: "cut (CHR 0x0A) input = Some (line, rest)" by (cases lr) auto
    show ?thesis
    proof (cases "cred_line line")
      case False
      with c less(2) show ?thesis
        by (simp add: loadCred_loop.simps [of _ _ _ input] file_lines_cut [of input])
    next
      case True
      from cred_line_parts [OF True] obtain u h where p: "line = u @ CHR '':'' # h" "CHR '':'' \<notin> set u"
        "bytes_Split (CHR '':'') line = [u, h]" by blast
      then have st: "store_line line m = AList.update u h m" by (simp add: store_line_def cut_Some [THEN iffD2])
      let ?opt = "opt\<lparr>o_Credentials := Some (AList.update u h m)\<rparr>"
      have "loadCred_loop show_nat readErr lineno input opt = loadCred_loop show_nat readErr (lineno + 1) rest ?opt"
        using c True p(3) less(2) by (simp add: loadCred_loop.simps [of _ _ _ input])
      with less(1) [OF length_cut [OF c], of ?opt "AList.update u h m" "lineno + 1"] True st c show ?thesis
        by (simp add: file_lines_cut [of input])
    qed
  qed
qed

text \<open>Credentials that are lines of a version of the file.\<close>

definition from_file :: "file_system set \<Rightarrow> string \<Rightarrow> string \<times> string \<Rightarrow> bool" where
  "from_file versions path = (\<lambda>(u, h). \<exists>fs \<in> versions. \<exists>input e. fs path = Inr (input, e)
     \<and> u @ CHR '':'' # h \<in> set (file_lines input) \<and> cred_line (u @ CHR '':'' # h))"

definition opts_ok :: "file_system set \<Rightarrow> opts \<Rightarrow> bool" where
  "opts_ok versions opt \<longleftrightarrow> (case o_Credentials opt of None \<Rightarrow> True
     | Some m \<Rightarrow> \<not> o_locked opt \<and> list_all (from_file versions (o_CredentialsPath opt)) m)"

lemma in_update: "x \<in> set (AList.update k v m) \<Longrightarrow> x = (k, v) \<or> x \<in> set m"
  by (induction m) (auto split: if_splits)

lemma store_lines:
  assumes "list_all cred_line ls" and "list_all P m"
    and "\<And>u h. u @ CHR '':'' # h \<in> set ls \<Longrightarrow> cred_line (u @ CHR '':'' # h) \<Longrightarrow> P (u, h)"
  shows "list_all P (fold store_line ls m)"
  using assms
proof (induction ls arbitrary: m)
  case (Cons line ls)
  from cred_line_parts [of line] Cons(2) obtain u h where p: "line = u @ CHR '':'' # h" "CHR '':'' \<notin> set u" by auto
  then have "store_line line m = AList.update u h m" by (simp add: store_line_def cut_Some [THEN iffD2])
  moreover have "P (u, h)" using Cons(2,4) p(1) by simp
  ultimately have "list_all P (store_line line m)"
    using Cons(3) by (auto simp: list_all_iff dest: in_update)
  with Cons show ?case by simp
qed simp

lemma loadCred_ok:
  assumes "opts_ok versions opt" and "fs \<in> versions" and "o_Credentials opt \<noteq> None"
    and "loadCred show_nat fs (o_CredentialsPath opt) opt = (r, opt')"
  shows "opts_ok versions opt' \<and> o_Credentials opt' \<noteq> None \<and> o_CredentialsPath opt' = o_CredentialsPath opt"
proof (cases "fs (o_CredentialsPath opt)")
  case (Inr ie)
  then obtain input e m where f: "fs (o_CredentialsPath opt) = Inr (input, e)" "o_Credentials opt = Some m"
    using assms(3) by (cases ie) auto
  let ?P = "from_file versions (o_CredentialsPath opt)"
  from loadCred_loop_result [OF f(2), of show_nat e 1 input] assms(4) f(1) have
    o': "opt' = opt\<lparr>o_Credentials := Some (fold store_line (takeWhile cred_line (file_lines input)) m)\<rparr>"
    by (auto simp: loadCred_def)
  have "list_all ?P (fold store_line (takeWhile cred_line (file_lines input)) m)"
  proof (rule store_lines)
    show "list_all cred_line (takeWhile cred_line (file_lines input))" by (auto simp: list_all_iff dest: set_takeWhileD)
    show "list_all ?P m" using assms(1) f(2) by (simp add: opts_ok_def)
    show "?P (u, h)" if "u @ CHR '':'' # h \<in> set (takeWhile cred_line (file_lines input))" for u h
      using that assms(2) f(1) by (auto simp: from_file_def dest: set_takeWhileD)
  qed
  with o' f(2) assms(1) show ?thesis by (simp add: opts_ok_def)
qed (use assms in \<open>auto simp: loadCred_def\<close>)

lemma opts_reachable_ok:
  assumes "opts_reachable show_nat versions opt0 opt" and "opts_ok versions opt0"
  shows "opts_ok versions opt \<and> (o_Credentials opt = None \<longleftrightarrow> o_Credentials opt0 = None)"
  using assms
proof (induction rule: opts_reachable.induct)
  case (clear opt opt')
  then show ?case by (auto simp: sighup_clear_def opts_ok_def split: if_splits)
next
  case (reload opt fs)
  then show ?case
    using loadCred_ok [of versions opt fs show_nat] by (cases "loadCred show_nat fs (o_CredentialsPath opt) opt")
      (auto simp: sighup_reload_def)
qed simp

text \<open>The options of a start of the program: without credentials exactly when \<open>no-auth\<close> was given.\<close>

lemma parseFlags_ok:
  assumes "web_parseFlags show_nat fs dir cred parsed zero_opts = (Inr (), opt)" and "fs \<in> versions"
  shows "opts_ok versions opt \<and> (\<exists>f. parsed = Inr f \<and> (o_Credentials opt = None \<longleftrightarrow> wf_NoAuth f))"
proof -
  from assms(1) obtain f where f: "parsed = Inr f" by (auto simp: web_parseFlags_def split: sum.splits)
  show ?thesis
  proof (cases "wf_NoAuth f")
    case True
    with assms(1) f show ?thesis
      by (auto simp: web_parseFlags_def bindL_def ret_def zero_opts_def opts_ok_def split: if_splits)
  next
    case False
    let ?o = "zero_opts\<lparr>o_Addr := wf_Addr f, o_Database := (if wf_Database f = []
                 then ''sqlite3://'' @ dir @ ''/database.sqlite3'' @ ''?_journal_mode=WAL'' else wf_Database f),
        o_CredentialsPath := (if wf_Cred f = [] then cred else wf_Cred f), o_Credentials := Some []\<rparr>"
    from assms(1) f False obtain o2 where "loadCred show_nat fs (o_CredentialsPath ?o) ?o = (Inr (), o2)"
      "opt = o2\<lparr>o_Verbosity := length (wf_Verbose f)\<rparr>"
      by (simp add: web_parseFlags_def bindL_Inr_iff) blast
    moreover have "opts_ok versions ?o" by (simp add: opts_ok_def zero_opts_def)
    ultimately show ?thesis using loadCred_ok [of versions ?o fs show_nat "Inr ()" o2] assms(2) f False
      by (auto simp: opts_ok_def split: option.splits)
  qed
qed

end
