(* ===== verification/ReadOnly.thy ===== *)
theory ReadOnly
  imports Database
begin

text \<open>
  The methods of \<open>Database\<close> that the web interface calls only read: on a connection they keep the committed contents and the
  state of the transaction, and so on every engine the torrents stored and their well-formedness.
\<close>

subsection \<open>On a connection\<close>

definition conn_same :: "'d sql_conn \<Rightarrow> 'd sql_conn \<Rightarrow> bool" where
  "conn_same c c' \<longleftrightarrow> sc_db c' = sc_db c \<and> sc_tx c' = sc_tx c"

interpretation reading: frame_order conn_same
  by unfold_locales (simp_all add: conn_same_def)

lemma conn_reading: "keeps conn_same (conn_Query drv select)" "keeps conn_same (closeRows rs)"
  by (auto simp: keeps_def conn_same_def conn_Query_def driver_call_def closeRows_def Let_def ret_def raise_def bindL_def
      split: option.splits sum.splits prod.splits)

lemmas keeps_reading = conn_reading reading.keeps_basic reading.keeps_bindL reading.keeps_wrapL reading.keeps_deferL
  reading.keeps_catchL reading.keeps_if reading.keeps_sum

lemma sqlite_reading:
  "keeps conn_same (sqlite3_GetNumberOfTorrents drv)" "keeps conn_same (sqlite3_GetTorrent drv h)"
  "keeps conn_same (sqlite3_GetFiles drv h)" "keeps conn_same (sqlite3_GetStatistics drv sf fr n)"
  "keeps conn_same (sqlite3_QueryTorrents drv rank q e oc asc limit lv lastid)"
  unfolding sqlite3_GetNumberOfTorrents_def sqlite3_GetTorrent_def sqlite3_GetFiles_def sqlite3_GetStatistics_def
    sqlite3_QueryTorrents_def Let_def
  by (intro keeps_reading | (split list.split option.split prod.split, intro conjI allI impI))+

lemma postgres_reading:
  "keeps conn_same (postgres_GetNumberOfTorrents drv est)" "keeps conn_same (postgres_GetTorrent drv h)"
  "keeps conn_same (postgres_GetFiles drv h)" "keeps conn_same (postgres_GetStatistics fr n)"
  "keeps conn_same (postgres_QueryTorrents q e oc asc limit lv lastid)"
  unfolding postgres_GetNumberOfTorrents_def postgres_GetTorrent_def postgres_GetFiles_def postgres_GetStatistics_def
    postgres_QueryTorrents_def Let_def
  by (intro keeps_reading | (split list.split option.split prod.split, intro conjI allI impI))+

subsection \<open>On the interface\<close>

definition database_same :: "database \<Rightarrow> database \<Rightarrow> bool" where
  "database_same db db' \<longleftrightarrow> database_contents db' = database_contents db \<and> (database_ok db \<longrightarrow> database_ok db')"

lemma dispatch_reading:
  assumes "keeps conn_same ms" and "keeps conn_same mp"
  shows "keeps database_same (dispatch ms mp mo mb)"
  unfolding keeps_def
proof (intro allI impI)
  fix db r db'
  assume "dispatch ms mp mo mb db = (r, db')"
  then show "database_same db db'"
    by (cases rule: dispatch_result) (use assms in \<open>auto simp: keeps_def conn_same_def database_same_def sqlite_ok_def pg_ok_def\<close>)
qed

lemma database_reading:
  "keeps database_same (GetNumberOfTorrents H)" "keeps database_same (GetTorrent H h)" "keeps database_same (GetFiles H h)"
  "keeps database_same (GetStatistics H fr n)" "keeps database_same (QueryTorrents H q e oc asc limit lv lastid)"
  unfolding GetNumberOfTorrents_def GetTorrent_def GetFiles_def GetStatistics_def QueryTorrents_def
  by (intro dispatch_reading sqlite_reading postgres_reading)+

end
