(* ===== verification/Magneticow.thy ===== *)
theory Magneticow
  imports Credentials ReadOnly
begin

text \<open>
  The web interface \<open>cmd/magneticow\<close>: the JSON interface (\<open>api.go\<close>), the pages (\<open>handlers.go\<close>), the routes, basic
  authentication and the start of the program (\<open>main.go\<close>).

  A handler works on a \<open>server\<close>: the database, the response that it writes, and the magnet links the torrent client
  has open; a panic, which \<open>net/http\<close> turns into an aborted connection, is an error of the operation.  A record \<open>web_env\<close>
  holds what comes from elsewhere: the host of the database, the clock, bcrypt, the query decoder of gorilla/schema,
  the embedded assets, the rendering of the two templates, content sniffing, the torrent client, the decoder for code page 437,
  \<open>fmt.Sprintf\<close> without operands and \<open>strconv.Quote\<close>.
\<close>

subsection \<open>Requests and servers\<close>

record torrents_query =
  tq_Epoch :: "int option"
  tq_Query :: "string option"
  tq_OrderBy :: "string option"
  tq_Ascending :: "bool option"
  tq_LastOrderedValue :: "rat option"
  tq_LastID :: "64 word option"
  tq_Limit :: "64 word option"

record client_file =
  cf_Path :: string
  cf_Length :: int
  cf_Content :: "string + string"

record client_torrent =
  ct_GotInfo :: bool
  ct_Files :: "client_file list"

record web_env =
  e_host :: host
  e_now :: int
  e_bcrypt :: "string \<Rightarrow> string \<Rightarrow> string option"
  e_decode :: "(string \<times> string list) list \<Rightarrow> string + torrents_query"
  e_Asset :: "string \<Rightarrow> string + string"
  e_homepage :: "64 word \<Rightarrow> string"
  e_feed :: "string \<Rightarrow> TorrentMetadata list \<Rightarrow> string"
  e_DetectContentType :: "string \<Rightarrow> string"
  e_AddMagnet :: "string \<Rightarrow> string + client_torrent"
  e_CodePage437 :: "string \<Rightarrow> string + string"
  e_Sprintf :: "string \<Rightarrow> string"
  e_Quote :: "string \<Rightarrow> string"

record request =
  rq_Path :: string
  rq_Query :: "(string \<times> string list) list"
  rq_Authorization :: string
  rq_Vars :: "(string \<times> string) list"

record server =
  sv_database :: database
  sv_w :: response
  sv_magnets :: "string list"

type_synonym handler = "request \<Rightarrow> (server, unit) op"

definition on_database :: "(database, 'a) op \<Rightarrow> (server, 'a) op" where
  "on_database m s = (case m (sv_database s) of (r, db) \<Rightarrow> (r, s\<lparr>sv_database := db\<rparr>))"

definition respond :: "(response \<Rightarrow> response) \<Rightarrow> (server, unit) op" where
  "respond f s = (Inr (), s\<lparr>sv_w := f (sv_w s)\<rparr>)"

definition send_json :: "json \<Rightarrow> (server, unit) op" where
  "send_json j = respond (\<lambda>w. Write (Document j) (Header_Set ''Content-Type'' ''application/json; charset=utf-8'' w))"

definition infohash_of :: "request \<Rightarrow> string" where
  "infohash_of r = map_get (rq_Vars r) ''infohash'' []"

subsection \<open>The JSON interface\<close>

definition parseOrderBy :: "string \<Rightarrow> string + OrderingCriteria" where
  "parseOrderBy s =
     (if s = ''RELEVANCE'' then Inr ByRelevance
      else if s = ''TOTAL_SIZE'' then Inr ByTotalSize
      else if s = ''DISCOVERED_ON'' then Inr ByDiscoveredOn
      else if s = ''N_FILES'' then Inr ByNFiles
      else if s = ''UPDATED_ON'' then Inr ByUpdatedOn
      else if s = ''N_SEEDERS'' then Inr ByNSeeders
      else if s = ''N_LEECHERS'' then Inr ByNLeechers
      else Inl (''unknown orderBy string: '' @ s))"

definition order_of :: "string \<Rightarrow> string option \<Rightarrow> string + OrderingCriteria" where
  "order_of query orderBy = (case orderBy of
       None \<Rightarrow> Inr (if query = [] then ByDiscoveredOn else ByRelevance)
     | Some s \<Rightarrow> parseOrderBy s)"

definition apiTorrents :: "web_env \<Rightarrow> handler" where
  "apiTorrents E r =
     (let q = rq_Query r in
      if \<not> ((Get q ''lastOrderedValue'' \<noteq> [] \<and> Get q ''lastID'' \<noteq> []) \<or> (Get q ''lastOrderedValue'' = [] \<and> Get q ''lastID'' = []))
      then respond (respondError 400 ''`lastOrderedValue`, `lastID` must be supplied altogether, if supplied.'')
      else (case e_decode E q of
          Inl e \<Rightarrow> respond (respondError 400 (''error while parsing the URL: '' @ e))
        | Inr tq \<Rightarrow>
           let query = (case tq_Query tq of None \<Rightarrow> [] | Some s \<Rightarrow> s);
               epoch = (case tq_Epoch tq of None \<Rightarrow> e_now E | Some n \<Rightarrow> n);
               ascending = (case tq_Ascending tq of None \<Rightarrow> True | Some b \<Rightarrow> b);
               limit = (case tq_Limit tq of None \<Rightarrow> 20 | Some n \<Rightarrow> n) in
           if tq_Epoch tq \<noteq> None \<and> epoch \<le> 0 then respond (respondError 400 ''epoch must be greater than 0'')
           else (case order_of query (tq_OrderBy tq) of
               Inl e \<Rightarrow> respond (respondError 400 (e_Sprintf E e))
             | Inr orderBy \<Rightarrow>
                 bindL (catchL (on_database (QueryTorrents (e_host E) query epoch orderBy ascending limit
                     (tq_LastOrderedValue tq) (tq_LastID tq)))) (\<lambda>res. case res of
                    Inl e \<Rightarrow> respond (respondError 400 (''query error: '' @ e))
                  | Inr torrents \<Rightarrow> send_json (JArr (map MarshalJSON torrents))))))"

definition apiTorrent :: "web_env \<Rightarrow> handler" where
  "apiTorrent E r =
     bindL (catchL (liftL (DecodeString (infohash_of r)))) (\<lambda>decoded. case decoded of
        Inl e \<Rightarrow> respond (respondError 400 (''couldn't decode infohash: '' @ e))
      | Inr infohash \<Rightarrow>
          bindL (catchL (on_database (GetTorrent (e_host E) infohash))) (\<lambda>res. case res of
             Inl e \<Rightarrow> respond (respondError 500 (''couldn't get torrent: '' @ e))
           | Inr None \<Rightarrow> respond (respondError 404 ''not found'')
           | Inr (Some torrent) \<Rightarrow> send_json (MarshalJSON torrent)))"

text \<open>The engines give a nil slice exactly when there are no files.\<close>

definition apiFilelist :: "web_env \<Rightarrow> handler" where
  "apiFilelist E r =
     bindL (catchL (liftL (DecodeString (infohash_of r)))) (\<lambda>decoded. case decoded of
        Inl e \<Rightarrow> respond (respondError 400 (''couldn't decode infohash: '' @ e))
      | Inr infohash \<Rightarrow>
          bindL (catchL (on_database (GetFiles (e_host E) infohash))) (\<lambda>res. case res of
             Inl e \<Rightarrow> respond (respondError 500 (''couldn't get files: '' @ e))
           | Inr files \<Rightarrow> if files = [] then respond (respondError 404 ''not found'')
               else send_json (JArr (map file_json files))))"

text \<open>\<open>strconv.ParseInt(s, 10, 32)\<close>\<close>

fun ParseUint_from :: "nat \<Rightarrow> string \<Rightarrow> string + nat" where
  "ParseUint_from n [] = Inr n"
| "ParseUint_from n (c # s) =
     (if \<not> is_digit c then Inl ''invalid syntax''
      else let n1 = n * 10 + (of_char c - 48) in if n1 \<ge> 2 ^ 32 then Inl ''value out of range'' else ParseUint_from n1 s)"

definition ParseInt32 :: "string \<Rightarrow> string + int" where
  "ParseInt32 s =
     (let neg = (s \<noteq> [] \<and> hd s = CHR ''-''); t = (if s \<noteq> [] \<and> (hd s = CHR ''-'' \<or> hd s = CHR ''+'') then tl s else s) in
      if t = [] then Inl ''invalid syntax''
      else (case ParseUint_from 0 t of
          Inl e \<Rightarrow> Inl e
        | Inr un \<Rightarrow> if \<not> neg \<and> un \<ge> 2 ^ 31 \<or> neg \<and> un > 2 ^ 31 then Inl ''value out of range''
            else Inr (if neg then - int un else int un)))"

definition apiStatistics :: "web_env \<Rightarrow> handler" where
  "apiStatistics E r =
     (let fr = Get (rq_Query r) ''from''; nStr = Get (rq_Query r) ''n'' in
      case (if nStr = [] then Inr 0
            else (case ParseInt32 nStr of
                Inl e \<Rightarrow> Inl (''couldn't parse n: strconv.ParseInt: parsing '' @ e_Quote E nStr @ '': '' @ e)
              | Inr n \<Rightarrow> if n \<le> 0 then Inl ''n must be a positive number'' else Inr n)) of
        Inl e \<Rightarrow> respond (respondError 400 e)
      | Inr n \<Rightarrow>
          bindL (catchL (on_database (GetStatistics (e_host E) fr (of_int n)))) (\<lambda>res. case res of
             Inl e \<Rightarrow> respond (respondError 400 (''error while getting statistics: '' @ e))
           | Inr stats \<Rightarrow> send_json (statistics_json stats)))"

subsection \<open>The readme handler\<close>

text \<open>\<open>NewApiReadmeHandler\<close> and \<open>Close\<close> on the temporary directories that exist; the results of \<open>ioutil.TempDir\<close> and
  \<open>torrent.NewClient\<close> are parameters.\<close>

definition NewApiReadmeHandler :: "string + string \<Rightarrow> string option \<Rightarrow> (string list, string) op" where
  "NewApiReadmeHandler tempDir newClient dirs =
     (case tempDir of
        Inl e \<Rightarrow> (Inl (Err e), dirs)
      | Inr d \<Rightarrow> (case newClient of
            Some e \<Rightarrow> (Inl (Err e), removeAll d (d # dirs))
          | None \<Rightarrow> (Inr d, d # dirs)))"

definition ApiReadmeHandler_Close :: "string \<Rightarrow> (string list, unit) op" where
  "ApiReadmeHandler_Close d dirs = (Inr (), removeAll d dirs)"

definition is_readme :: "string \<Rightarrow> bool" where
  "is_readme path \<longleftrightarrow> HasSuffix path ''.nfo'' \<or> Contains path ''read''"

text \<open>The loop over the files leaves the variable at the first readme, or else at the last file.\<close>

fun pick_file :: "client_file option \<Rightarrow> client_file list \<Rightarrow> client_file option" where
  "pick_file cur [] = cur"
| "pick_file cur (f # fs) = (if is_readme (cf_Path f) then Some f else pick_file (Some f) fs)"

definition send_file :: "web_env \<Rightarrow> client_file \<Rightarrow> (server, unit) op" where
  "send_file E f =
     (if cf_Length f > 50 * 1024 then respond (WriteHeader 413)
      else (case cf_Content f of
          Inl e \<Rightarrow> respond (WriteHeader 500)
        | Inr content \<Rightarrow> (case (if HasSuffix (cf_Path f) ''.nfo'' then e_CodePage437 E content else Inr content) of
              Inl e \<Rightarrow> respond (WriteHeader 500)
            | Inr text \<Rightarrow> respond (\<lambda>w. Write (Text (TrimRight0 text)) (Header_Set ''Content-Type'' ''text/plain;charset=UTF-8'' w)))))"

definition AddMagnet :: "web_env \<Rightarrow> string \<Rightarrow> (server, client_torrent) op" where
  "AddMagnet E uri s = (case e_AddMagnet E uri of
       Inl e \<Rightarrow> (Inl (Err e), s) | Inr t \<Rightarrow> (Inr t, s\<lparr>sv_magnets := uri # sv_magnets s\<rparr>))"

definition Drop :: "string \<Rightarrow> (server, unit) op" where
  "Drop uri s = (Inr (), s\<lparr>sv_magnets := remove1 uri (sv_magnets s)\<rparr>)"

text \<open>After an error of \<open>GetFiles\<close> the handler goes on with no files.\<close>

definition ServeHTTP :: "web_env \<Rightarrow> handler" where
  "ServeHTTP E r =
     bindL (catchL (liftL (DecodeString (infohash_of r)))) (\<lambda>decoded. case decoded of
        Inl e \<Rightarrow> respond (respondError 400 (''couldn't decode infohash: '' @ e))
      | Inr infohash \<Rightarrow>
          bindL (catchL (on_database (GetFiles (e_host E) infohash))) (\<lambda>res.
          bindL (case res of Inl e \<Rightarrow> respond (respondError 500 ''Internal Server Error'') | Inr _ \<Rightarrow> ret ()) (\<lambda>_.
          let files = (case res of Inl e \<Rightarrow> [] | Inr fs \<Rightarrow> fs) in
          if \<not> list_ex (\<lambda>f. is_readme (f_Path f)) files then respond (WriteHeader 404)
          else let uri = ''magnet:?xt=urn:btih:'' @ infohash_of r in
            bindL (catchL (AddMagnet E uri)) (\<lambda>added. case added of
               Inl e \<Rightarrow> respond (WriteHeader 400)
             | Inr t \<Rightarrow> deferL (Drop uri)
                 (if \<not> ct_GotInfo t then respond (respondError 500 ''Timeout'')
                  else (case pick_file None (ct_Files t) of
                      None \<Rightarrow> respond (WriteHeader 404)
                    | Some f \<Rightarrow> send_file E f))))))"

subsection \<open>The pages\<close>

definition mustAsset :: "web_env \<Rightarrow> string \<Rightarrow> go_error + string" where
  "mustAsset E name = (case e_Asset E name of
       Inl e \<Rightarrow> Inl (Panic ''Could NOT access the requested resource! THIS IS A BUG, PLEASE REPORT'') | Inr data \<Rightarrow> Inr data)"

definition rootHandler :: "web_env \<Rightarrow> handler" where
  "rootHandler E r =
     bindL (catchL (wrapL ''GetNumberOfTorrents'' (on_database (GetNumberOfTorrents (e_host E))))) (\<lambda>res. case res of
        Inl e \<Rightarrow> respond (handlerError e)
      | Inr nTorrents \<Rightarrow> respond (Write (Text (e_homepage E nTorrents))))"

definition send_page :: "web_env \<Rightarrow> string \<Rightarrow> (server, unit) op" where
  "send_page E name =
     bindL (liftL (mustAsset E name)) (\<lambda>data. respond (\<lambda>w. Write (Text data)
       (Header_Set ''Cache-Control'' ''max-age=86400'' (Header_Set ''Content-Type'' ''text/html; charset=utf-8'' w))))"

definition torrentsHandler :: "web_env \<Rightarrow> handler" where
  "torrentsHandler E r = send_page E ''templates/torrents.html''"

definition torrentsInfohashHandler :: "web_env \<Rightarrow> handler" where
  "torrentsInfohashHandler E r = send_page E ''templates/torrent.html''"

definition statisticsHandler :: "web_env \<Rightarrow> handler" where
  "statisticsHandler E r = send_page E ''templates/statistics.html''"

definition feedHandler :: "web_env \<Rightarrow> handler" where
  "feedHandler E r =
     (case map_get (rq_Query r) ''query'' [] of
        _ # _ # _ \<Rightarrow> respond (respondError 400 ''query supplied multiple times!'')
      | qs \<Rightarrow>
         let query = (case qs of [] \<Rightarrow> [] | q # _ \<Rightarrow> q);
             title = (if query = [] then ''Most recent torrents - magneticow'' else ''`'' @ query @ ''` - magneticow'') in
         bindL (catchL (wrapL ''query torrent'' (on_database (QueryTorrents (e_host E) query (e_now E) ByDiscoveredOn False 20 None None))))
           (\<lambda>res. case res of
              Inl e \<Rightarrow> respond (handlerError e)
            | Inr torrents \<Rightarrow> respond (\<lambda>w. Write (Text (e_feed E title torrents))
                (Write (Text (''<?xml version='' @ [CHR 0x22] @ ''1.0'' @ [CHR 0x22] @ '' encoding='' @ [CHR 0x22] @ ''utf-8'' @ [CHR 0x22]
                  @ '' standalone='' @ [CHR 0x22] @ ''yes'' @ [CHR 0x22] @ ''?>'')) w))))"

definition staticHandler :: "web_env \<Rightarrow> handler" where
  "staticHandler E r =
     (if rq_Path r = [] then raise (Panic ''slice bounds out of range'')
      else (case e_Asset E (tl (rq_Path r)) of
          Inl e \<Rightarrow> respond NotFound
        | Inr data \<Rightarrow>
            let contentType = (if HasSuffix (rq_Path r) ''.css'' then ''text/css; charset=utf-8''
                 else if HasSuffix (rq_Path r) ''.js'' then ''text/javascript; charset=utf-8'' else e_DetectContentType E data) in
            respond (\<lambda>w. Write (Text data) (Header_Set ''Cache-Control'' ''max-age=86400'' (Header_Set ''Content-Type'' contentType w)))))"

subsection \<open>Authentication and routes\<close>

definition BasicAuth :: "web_env \<Rightarrow> opts \<Rightarrow> handler \<Rightarrow> string \<Rightarrow> handler" where
  "BasicAuth E opt handler realm r =
     (case o_Credentials opt of
        None \<Rightarrow> handler r
      | Some creds \<Rightarrow> (case parseBasicAuth (rq_Authorization r) of
            None \<Rightarrow> respond (authenticate realm)
          | Some (username, password) \<Rightarrow> (case map_of creds username of
                None \<Rightarrow> respond (authenticate realm)
              | Some hashedPassword \<Rightarrow> (case e_bcrypt E hashedPassword password of
                    Some e \<Rightarrow> respond (authenticate realm)
                  | None \<Rightarrow> handler r))))"

datatype route = Root | ApiStatistics | ApiTorrents | ApiTorrent | ApiFilelist | ApiReadme | Feed | Static
  | StatisticsPage | TorrentsPage | TorrentsInfohash

text \<open>The handler that is registered for a route, before authentication.\<close>

fun handler_of :: "web_env \<Rightarrow> route \<Rightarrow> handler" where
  "handler_of E Root = rootHandler E"
| "handler_of E ApiStatistics = apiStatistics E"
| "handler_of E ApiTorrents = apiTorrents E"
| "handler_of E ApiTorrent = apiTorrent E"
| "handler_of E ApiFilelist = apiFilelist E"
| "handler_of E ApiReadme = ServeHTTP E"
| "handler_of E Feed = feedHandler E"
| "handler_of E Static = staticHandler E"
| "handler_of E StatisticsPage = statisticsHandler E"
| "handler_of E TorrentsPage = torrentsHandler E"
| "handler_of E TorrentsInfohash = torrentsInfohashHandler E"

text \<open>\<open>mux\<close> is the matcher of gorilla/mux: the route of a path and the variables of its pattern.\<close>

type_synonym matcher = "string \<Rightarrow> (route \<times> (string \<times> string) list) option"

definition serve :: "matcher \<Rightarrow> web_env \<Rightarrow> opts \<Rightarrow> handler" where
  "serve mux E opt r =
     (case mux (rq_Path r) of
        None \<Rightarrow> respond NotFound
      | Some (route, vars) \<Rightarrow>
          (if route = ApiReadme then handler_of E route else BasicAuth E opt (handler_of E route) ''magneticow'')
            (r\<lparr>rq_Vars := vars\<rparr>))"

text \<open>The start: the options, the readme handler, the assets of the two templates, the database.\<close>

definition web_main :: "(nat \<Rightarrow> string) \<Rightarrow> file_system \<Rightarrow> string \<Rightarrow> string \<Rightarrow> string + web_flags \<Rightarrow> string + string \<Rightarrow> string option \<Rightarrow>
    web_env \<Rightarrow> go_error + opts \<times> server" where
  "web_main show_nat fs userDataDir defaultCred parsed tempDir newClient E =
     (case web_parseFlags show_nat fs userDataDir defaultCred parsed zero_opts of
        (Inl e, opt) \<Rightarrow> Inl e
      | (Inr _, opt) \<Rightarrow> (case fst (NewApiReadmeHandler tempDir newClient []) of
            Inl e \<Rightarrow> Inl (Panic ''Could not initialise readme handler'')
          | Inr dir \<Rightarrow> bindE (mustAsset E ''templates/feed.xml'') (\<lambda>_. bindE (mustAsset E ''templates/homepage.html'') (\<lambda>_.
              (case MakeDatabase (e_host E) (o_Database opt) of
                 Inl e \<Rightarrow> Inl (Panic ''could not access to database'')
               | Inr db \<Rightarrow> Inr (opt, \<lparr>sv_database = db, sv_w = new_response, sv_magnets = []\<rparr>))))))"

subsection \<open>Requests only read\<close>

definition server_same :: "server \<Rightarrow> server \<Rightarrow> bool" where
  "server_same s s' \<longleftrightarrow> database_same (sv_database s) (sv_database s')"

interpretation serving: frame_order server_same
  by unfold_locales (auto simp: server_same_def database_same_def)

lemma on_database_keeps: "keeps database_same m \<Longrightarrow> keeps server_same (on_database m)"
  by (auto simp: keeps_def server_same_def on_database_def split: prod.splits)

lemma respond_keeps: "keeps server_same (respond f)" "keeps server_same (send_json j)"
  by (auto simp: keeps_def server_same_def database_same_def respond_def send_json_def)

lemma client_keeps: "keeps server_same (AddMagnet E uri)" "keeps server_same (Drop uri)"
  by (auto simp: keeps_def server_same_def database_same_def AddMagnet_def Drop_def split: sum.splits)

lemmas keeps_serving = respond_keeps client_keeps on_database_keeps [OF database_reading(1)] on_database_keeps [OF database_reading(2)]
  on_database_keeps [OF database_reading(3)] on_database_keeps [OF database_reading(4)] on_database_keeps [OF database_reading(5)]
  serving.keeps_basic serving.keeps_bindL serving.keeps_wrapL serving.keeps_deferL serving.keeps_catchL serving.keeps_if
  serving.keeps_sum

lemmas split_handlers = option.split list.split

lemma api_keeps: "keeps server_same (apiStatistics E r)" "keeps server_same (apiTorrents E r)"
  "keeps server_same (apiTorrent E r)" "keeps server_same (apiFilelist E r)"
  unfolding apiStatistics_def apiTorrents_def apiTorrent_def apiFilelist_def Let_def
  by (intro keeps_serving | (split split_handlers, intro conjI allI impI))+

lemma readme_keeps: "keeps server_same (ServeHTTP E r)"
  unfolding ServeHTTP_def send_file_def Let_def
  by (intro keeps_serving | (split split_handlers, intro conjI allI impI))+

lemma page_keeps: "keeps server_same (rootHandler E r)" "keeps server_same (feedHandler E r)" "keeps server_same (staticHandler E r)"
  "keeps server_same (send_page E name)"
  unfolding rootHandler_def feedHandler_def staticHandler_def send_page_def Let_def
  by (intro keeps_serving | (split split_handlers, intro conjI allI impI))+

lemma handler_keeps: "keeps server_same (handler_of E route r)"
  by (cases route) (simp_all add: api_keeps readme_keeps page_keeps statisticsHandler_def torrentsHandler_def torrentsInfohashHandler_def)

lemma serve_keeps: "keeps server_same (serve mux E opt r)"
  by (auto simp: serve_def BasicAuth_def respond_keeps handler_keeps readme_keeps split: option.split prod.split)

subsection \<open>Infohashes in paths\<close>

definition infohash_routes :: "route set" where
  "infohash_routes = {ApiTorrent, ApiFilelist, ApiReadme, TorrentsInfohash}"

text \<open>What gorilla/mux promises for the pattern \<open>{infohash:[a-f0-9]{40}}\<close>.\<close>

definition infohash_pattern :: "matcher \<Rightarrow> bool" where
  "infohash_pattern mux \<longleftrightarrow> (\<forall>path route vars. mux path = Some (route, vars) \<longrightarrow> route \<in> infohash_routes \<longrightarrow>
     (\<exists>v. map_of vars ''infohash'' = Some v \<and> length v = 40 \<and> list_all (\<lambda>c. c \<in> set hex_digits) v))"

lemma hex_value_bound: "c \<in> set hex_digits \<Longrightarrow> \<exists>n < 16. hex_value c = Some n \<and> hex_digits ! n = c"
proof -
  assume "c \<in> set hex_digits"
  then obtain n where "n < length hex_digits" "hex_digits ! n = c" by (auto simp: in_set_conv_nth)
  with hex_value_digit [of n] show ?thesis by (auto simp: hex_digits_def)
qed

lemma hex_decodes:
  "length v = 2 * n \<Longrightarrow> list_all (\<lambda>c. c \<in> set hex_digits) v \<Longrightarrow> \<exists>h. DecodeString v = Inr h \<and> length h = n \<and> EncodeToString h = v"
proof (induction v arbitrary: n rule: DecodeString.induct)
  case (3 c d s)
  then obtain m where m: "n = Suc m" "length s = 2 * m" by (cases n) auto
  from 3(3) obtain a b where ab: "a < 16" "b < 16" "hex_value c = Some a" "hex_value d = Some b" "hex_digits ! a = c" "hex_digits ! b = d"
    using hex_value_bound [of c] hex_value_bound [of d] by auto
  with 3(1) [of "Some a" "Some b" a b m] 3(3) m obtain h where "DecodeString s = Inr h" "length h = m" "EncodeToString h = s" by auto
  moreover have "unat (of_nat (16 * a + b) :: byte) = 16 * a + b"
    using ab(1,2) by (simp only: unat_of_nat) simp
  ultimately show ?case using ab m
    by (intro exI [of _ "of_nat (16 * a + b) # h"]) (simp add: EncodeToString_def hex_byte_def del: of_nat_add of_nat_mult)
qed (simp_all add: EncodeToString_def)

lemma EncodeToString_digits: "list_all (\<lambda>c. c \<in> set hex_digits) (EncodeToString bs)"
proof (induction bs)
  case (Cons b bs)
  have "unat b div 16 < length hex_digits" "unat b mod 16 < length hex_digits"
    using unat_byte [of b] by (simp_all add: hex_digits_def less_mult_imp_div_less)
  with Cons show ?case by (simp add: EncodeToString_def hex_byte_def)
qed (simp add: EncodeToString_def)

lemma infohash_decodes:
  assumes "infohash_pattern mux" and "mux path = Some (route, vars)" and "route \<in> infohash_routes"
  shows "\<exists>h. length h = 20 \<and> map_of vars ''infohash'' = Some (EncodeToString h)
     \<and> DecodeString (infohash_of (r\<lparr>rq_Vars := vars\<rparr>)) = Inr h"
proof -
  from assms obtain v where v: "map_of vars ''infohash'' = Some v" "length v = 2 * 20" "list_all (\<lambda>c. c \<in> set hex_digits) v"
    unfolding infohash_pattern_def by fastforce
  from hex_decodes [OF v(2,3)] v(1) show ?thesis by (auto simp: infohash_of_def map_get_def)
qed

subsection \<open>Properties\<close>

lemma web_main_opts:
  assumes "web_main show_nat fs dir cred (Inr flags) tempDir newClient E = Inr (opt0, s0)" and "fs \<in> versions"
  shows "opts_ok versions opt0 \<and> (o_Credentials opt0 = None \<longleftrightarrow> wf_NoAuth flags)"
proof -
  from assms(1) have "web_parseFlags show_nat fs dir cred (Inr flags) zero_opts = (Inr (), opt0)"
    by (auto simp: web_main_def bindE_Inr_iff split: prod.splits sum.splits)
  from parseFlags_ok [OF this assms(2)] show ?thesis by auto
qed

lemma BasicAuth_cases:
  "BasicAuth E opt f realm r = respond (authenticate realm) \<and> o_Credentials opt \<noteq> None
   \<or> BasicAuth E opt f realm r = f r \<and> (o_Credentials opt = None \<or> (\<exists>creds u p h. o_Credentials opt = Some creds
       \<and> parseBasicAuth (rq_Authorization r) = Some (u, p) \<and> map_of creds u = Some h \<and> e_bcrypt E h p = None))"
  by (auto simp: BasicAuth_def split: option.split)

text \<open>C6: who is served.  After a start of \<open>magneticow\<close> and any number of reloads of the credentials, a request for a route
  changes nothing that is stored.  It is either answered with 401 and touches nothing, or runs the handler of the route; on every
  route but the readme, the latter happens only with \<open>no-auth\<close>, or when the request carries a user name and a password
  such that bcrypt accepts the password for a hash in a line \<open>user:hash\<close> of a version of the credentials
  file.  A client that sends the credentials of a stored user in the form of RFC 7617 is served.\<close>

theorem web_access:
  assumes "web_main show_nat fs dir cred (Inr flags) tempDir newClient E = Inr (opt0, s0)" and "fs \<in> versions"
    and "opts_reachable show_nat versions opt0 opt" and "mux (rq_Path r) = Some (route, vars)"
    and "serve mux E opt r s = (res, s')"
  shows "database_contents (sv_database s') = database_contents (sv_database s)
     \<and> (database_ok (sv_database s) \<longrightarrow> database_ok (sv_database s'))
     \<and> ((res, s') = (Inr (), s\<lparr>sv_w := authenticate ''magneticow'' (sv_w s)\<rparr>) \<and> route \<noteq> ApiReadme \<and> \<not> wf_NoAuth flags
        \<or> (res, s') = handler_of E route (r\<lparr>rq_Vars := vars\<rparr>) s
          \<and> (route = ApiReadme \<or> wf_NoAuth flags \<or> (\<exists>u p h. parseBasicAuth (rq_Authorization r) = Some (u, p)
               \<and> from_file versions (o_CredentialsPath opt) (u, h) \<and> e_bcrypt E h p = None)))
     \<and> (\<forall>u p h creds. rq_Authorization r = basic_header u p \<longrightarrow> CHR '':'' \<notin> set u \<longrightarrow> o_Credentials opt = Some creds
          \<longrightarrow> map_of creds u = Some h \<longrightarrow> e_bcrypt E h p = None \<longrightarrow> (res, s') = handler_of E route (r\<lparr>rq_Vars := vars\<rparr>) s)"
    (is "?same \<and> ?ok \<and> ?who \<and> ?client")
proof -
  from web_main_opts [OF assms(1,2)] opts_reachable_ok [OF assms(3)] have opt: "opts_ok versions opt"
    "o_Credentials opt = None \<longleftrightarrow> wf_NoAuth flags" by auto
  let ?r = "r\<lparr>rq_Vars := vars\<rparr>"
  have sv: "(res, s') = (if route = ApiReadme then handler_of E route else BasicAuth E opt (handler_of E route) ''magneticow'') ?r s"
    using assms(4,5) by (simp add: serve_def)
  have "?same \<and> ?ok" using serve_keeps [THEN keepsD, OF assms(5)] by (simp add: server_same_def database_same_def)
  moreover have ?who
  proof (cases "route = ApiReadme")
    case False
    have ff: "from_file versions (o_CredentialsPath opt) (u, h)" if "o_Credentials opt = Some creds" "map_of creds u = Some h" for creds u h
      using that opt(1) by (auto simp: opts_ok_def list_all_iff dest: map_of_SomeD)
    from BasicAuth_cases [of E opt "handler_of E route" "''magneticow''" ?r] show ?thesis
    proof (elim disjE conjE exE)
      fix creds u p h
      assume "BasicAuth E opt (handler_of E route) ''magneticow'' ?r = handler_of E route ?r"
        "o_Credentials opt = Some creds" "parseBasicAuth (rq_Authorization ?r) = Some (u, p)" "map_of creds u = Some h" "e_bcrypt E h p = None"
      with ff [of creds u h] sv False show ?thesis by auto
    qed (use sv opt(2) False in \<open>auto simp: respond_def\<close>)
  qed (use sv in simp)
  moreover have ?client
    using sv by (auto simp: BasicAuth_def parseBasicAuth_header)
  ultimately show ?thesis by blast
qed

text \<open>A web interface with one user, started without a database file.\<close>

definition demo_hash :: string where
  "demo_hash = ''$2a$10$'' @ replicate 53 (CHR ''x'')"

definition demo_fs :: file_system where
  "demo_fs = (\<lambda>_. Inr (''ann:'' @ demo_hash @ [CHR 0x0A], None))"

definition demo_web_host :: host where
  "demo_web_host = \<lparr>h_parse = \<lambda>_. Inr \<lparr>url_Scheme = ''stdout'', url_Hostname = [], url_Port = [], url_Path = [], url_Query = []\<rparr>,
     h_mkdir = \<lambda>_. None, h_open = \<lambda>_. None, h_driver = steady_driver, h_rank = \<lambda>_ _ _. None,
     h_strftime = \<lambda>_ _. [], h_sequence = id, h_estimate = \<lambda>_. [], h_write = \<lambda>_. None, h_sync = None,
     h_beanstalk = \<lparr>bs_dial = \<lambda>_. None, bs_use = \<lambda>_. None, bs_put = \<lambda>_. None\<rparr>, h_sqlite_file = empty_db,
     h_pg_data = \<lparr>pg_extensions = [], pg_objects = [], pg_migrations = [], pg_torrents = [], pg_files = []\<rparr>\<rparr>"

definition demo_web :: web_env where
  "demo_web = \<lparr>e_host = demo_web_host, e_now = 1, e_bcrypt = \<lambda>h p. if p = ''pass'' then None else Some ''mismatch'',
     e_decode = \<lambda>_. Inl ''invalid'', e_Asset = \<lambda>_. Inr [], e_homepage = \<lambda>_. [], e_feed = \<lambda>_ _. [], e_DetectContentType = \<lambda>_. [],
     e_AddMagnet = \<lambda>_. Inl [], e_CodePage437 = Inr, e_Sprintf = id, e_Quote = id\<rparr>"

definition demo_web_flags :: web_flags where
  "demo_web_flags = \<lparr>wf_Addr = '':8080'', wf_Database = ''stdout:'', wf_Cred = ''credentials'', wf_NoAuth = False, wf_Verbose = []\<rparr>"

definition demo_request :: "string \<Rightarrow> request" where
  "demo_request auth = \<lparr>rq_Path = ''/'', rq_Query = [], rq_Authorization = auth, rq_Vars = []\<rparr>"

lemma demo_lines:
  "cut (CHR 0x0A) (''ann:'' @ demo_hash @ [CHR 0x0A]) = Some (''ann:'' @ demo_hash, [])" "cred_line (''ann:'' @ demo_hash)"
  "bytes_Split (CHR '':'') (''ann:'' @ demo_hash) = [''ann'', demo_hash]" "cut (CHR 0x0A) [] = None"
  by code_simp+

lemma demo_web_start:
  "\<exists>opt0 s0. web_main (\<lambda>_. []) demo_fs [] [] (Inr demo_web_flags) (Inr []) None demo_web = Inr (opt0, s0)
     \<and> o_Credentials opt0 = Some [(''ann'', demo_hash)] \<and> sv_w s0 = new_response"
proof -
  let ?o = "\<lparr>o_Addr = '':8080'', o_Database = ''stdout:'', o_Credentials = Some [], o_locked = False,
    o_CredentialsPath = ''credentials'', o_Verbosity = 0\<rparr>"
  have "loadCred (\<lambda>_. []) demo_fs ''credentials'' ?o = (Inr (), ?o\<lparr>o_Credentials := Some [(''ann'', demo_hash)]\<rparr>)"
    unfolding loadCred_def demo_fs_def
    by (subst loadCred_loop.simps, simp only: demo_lines sum.case option.case prod.case)
      (simp add: demo_lines loadCred_loop.simps [of _ _ _ "[]"] del: append_Cons append_assoc)
  then show ?thesis
    by (simp add: web_main_def web_parseFlags_def demo_web_flags_def zero_opts_def bindL_def NewApiReadmeHandler_def mustAsset_def
        demo_web_def MakeDatabase_def demo_web_host_def makeStdoutDatabase_def)
qed

theorem web_access_witness:
  "\<exists>opt0 s0. web_main (\<lambda>_. []) demo_fs [] [] (Inr demo_web_flags) (Inr []) None demo_web = Inr (opt0, s0)
     \<and> status (sv_w (snd (serve (\<lambda>_. Some (Root, [])) demo_web opt0 (demo_request (basic_header ''ann'' ''guess'')) s0))) = 401
     \<and> serve (\<lambda>_. Some (Root, [])) demo_web opt0 (demo_request (basic_header ''ann'' ''pass'')) s0
       = handler_of demo_web Root (demo_request (basic_header ''ann'' ''pass'')) s0"
proof -
  from demo_web_start obtain opt0 s0 where d: "web_main (\<lambda>_. []) demo_fs [] [] (Inr demo_web_flags) (Inr []) None demo_web = Inr (opt0, s0)"
    "o_Credentials opt0 = Some [(''ann'', demo_hash)]" "sv_w s0 = new_response" by blast
  have u: "CHR '':'' \<notin> set ''ann''" by simp
  let ?mux = "\<lambda>_. Some (Root, [])" and ?g = "demo_request (basic_header ''ann'' ''guess'')" and ?p = "demo_request (basic_header ''ann'' ''pass'')"
  note acc = web_access [OF d(1) singletonI opts_reachable.started, where mux = ?mux and route = Root and vars = "[]", OF refl]
  obtain res s1 where g: "serve ?mux demo_web opt0 ?g s0 = (res, s1)" by fastforce
  have "parseBasicAuth (rq_Authorization ?g) = Some (''ann'', ''guess'')"
    using parseBasicAuth_header [OF u] by (simp add: demo_request_def)
  with acc [OF g] have "s1 = s0\<lparr>sv_w := authenticate ''magneticow'' (sv_w s0)\<rparr>"
    by (auto simp: demo_web_def demo_web_flags_def)
  then have "status (sv_w s1) = 401" using d(3) by (simp add: response_defs)
  moreover obtain res2 s2 where p: "serve ?mux demo_web opt0 ?p s0 = (res2, s2)" by fastforce
  have "(res2, s2) = handler_of demo_web Root (?p\<lparr>rq_Vars := []\<rparr>) s0"
    using acc [OF p] d(2) u by (simp add: demo_web_def demo_request_def)
  then have "(res2, s2) = handler_of demo_web Root ?p s0" by (simp add: demo_request_def)
  ultimately show ?thesis using d(1) g p by (intro exI conjI) simp_all
qed

text \<open>The answers to a request for a torrent and for its files, given what is stored for the infohash.\<close>

definition torrent_answer :: "byte list \<Rightarrow> (string \<times> File list) option \<Rightarrow> response \<Rightarrow> bool" where
  "torrent_answer h stored w = (case stored of
       None \<Rightarrow> status w = 404
     | Some (n, fs) \<Rightarrow> \<exists>tm. status w = 200 \<and> w_body w = [Document (MarshalJSON tm)]
         \<and> tm_InfoHash tm = h \<and> tm_Name tm = n \<and> tm_NFiles tm = of_nat (length fs))"

definition filelist_answer :: "(string \<times> File list) option \<Rightarrow> response \<Rightarrow> bool" where
  "filelist_answer stored w = (case stored of
       Some (n, f # fs) \<Rightarrow> status w = 200 \<and> w_body w = [Document (JArr (map file_json (f # fs)))]
     | _ \<Rightarrow> status w = 404)"

lemma sqlite_handler:
  assumes "sv_database s = SqliteDB c" and "sqlite_ok c" and "smooth (h_driver (e_host E)) (sc_calls c)"
    and "sv_w s = new_response" and "DecodeString (infohash_of r) = Inr h"
  shows "\<exists>s'. apiTorrent E r s = (Inr (), s') \<and> torrent_answer h (sqlite_contents (sc_db c) h) (sv_w s')"
    and "\<exists>s'. apiFilelist E r s = (Inr (), s') \<and> filelist_answer (sqlite_contents (sc_db c) h) (sv_w s')"
proof -
  have t: "tables_ok (sc_db c)" using assms(2) by (simp add: sqlite_ok_def)
  let ?s = "s\<lparr>sv_database := SqliteDB (c\<lparr>sc_calls := Suc (sc_calls c)\<rparr>)\<rparr>"
  have "on_database (GetFiles (e_host E) h) s = (Inr (case sqlite_contents (sc_db c) h of None \<Rightarrow> [] | Some (n, fs) \<Rightarrow> fs), ?s)"
    using GetFiles_smooth [OF assms(3) t, of h] assms(1) by (simp add: on_database_def GetFiles_def dispatch_def on_sqlite_def)
  then show "\<exists>s'. apiFilelist E r s = (Inr (), s') \<and> filelist_answer (sqlite_contents (sc_db c) h) (sv_w s')"
    using assms(4,5) by (auto simp: apiFilelist_def bindL_def catchL_def liftL_def respond_def send_json_def filelist_answer_def
        response_defs split: option.split list.split)
  have "on_database (GetTorrent (e_host E) h) s = (fst (sqlite3_GetTorrent (h_driver (e_host E)) h c), ?s)"
    using GetTorrent_smooth [OF assms(3) t, of h] assms(1) by (simp add: on_database_def GetTorrent_def dispatch_def on_sqlite_def)
  then show "\<exists>s'. apiTorrent E r s = (Inr (), s') \<and> torrent_answer h (sqlite_contents (sc_db c) h) (sv_w s')"
    using assms(4,5) by (auto simp: GetTorrent_smooth [OF assms(3) t, of h] apiTorrent_def bindL_def catchL_def liftL_def respond_def
        send_json_def torrent_answer_def sqlite_contents_def response_defs split: option.split)
qed


text \<open>A database with one torrent of one file.\<close>

definition demo_stored :: "sqlite_db sql_conn" where
  "demo_stored = fresh_conn\<lparr>sc_db := empty_db\<lparr>
     sl_torrents := [\<lparr>tr_id = 1, tr_info_hash = replicate 20 7, tr_name = ''t'', tr_total_size = 9, tr_discovered_on = 5,
       tr_updated_on = None, tr_modified_on = Some 5\<rparr>],
     sl_files := [\<lparr>fr_id = 1, fr_torrent_id = 1, fr_size = 9, fr_path = ''f''\<rparr>]\<rparr>\<rparr>"


subsection \<open>Searching\<close>

lemma conn_Query_refused:
  assumes "smooth drv (sc_calls c)" and "select (sc_db c) = Inl e"
  shows "conn_Query drv select c = (Inl (Err e), c\<lparr>sc_calls := Suc (sc_calls c)\<rparr>)"
  using assms by (simp add: conn_Query_def bindL_def smooth_call)

lemma page_of_rows: "set (page_of key asc a n rows) \<subseteq> set rows" "length (page_of key asc a n rows) \<le> n"
  by (auto simp: page_of_def Let_def dest!: in_set_takeD split: option.splits if_splits)

definition unsupported :: "OrderingCriteria \<Rightarrow> 64 word \<Rightarrow> 64 word option \<Rightarrow> bool" where
  "unsupported oc limit lastID \<longleftrightarrow> oc \<in> {ByNSeeders, ByNLeechers, ByUpdatedOn} \<or> 2 ^ 63 \<le> uint limit
     \<or> (case lastID of None \<Rightarrow> False | Some i \<Rightarrow> 2 ^ 63 \<le> uint i)"

lemma query_panics:
  assumes "smooth drv (sc_calls c)" and "\<not> (query = [] \<and> oc = ByRelevance)" and "(lov = None) = (lid = None)"
    and "unsupported oc limit lid"
  shows "\<exists>p. fst (sqlite3_QueryTorrents drv rank query epoch oc asc limit lov lid c) = Inl (Panic p)"
proof (cases "orderOn oc")
  case (Inl e)
  then have "\<exists>p. e = Panic p" by (cases oc) auto
  with Inl assms(2,3) show ?thesis by (auto simp: sqlite3_QueryTorrents_def bindL_def liftL_def)
next
  case (Inr key)
  then have "oc \<notin> {ByNSeeders, ByNLeechers, ByUpdatedOn}" by auto
  with assms(4) have "\<exists>e. select_torrents rank key query epoch asc limit lov lid (sc_db c) = Inl e"
    by (auto simp: unsupported_def select_torrents_def bind_uint64_def Let_def split: option.splits)
  then obtain e where "select_torrents rank key query epoch asc limit lov lid (sc_db c) = Inl e" by blast
  from conn_Query_refused [where select = "select_torrents rank key query epoch asc limit lov lid", OF assms(1) this]
  show ?thesis using Inr assms(2,3)
    by (auto simp: sqlite3_QueryTorrents_def bindL_def liftL_def catchL_def deferL_def closeRows_def raise_def wrapL_def)
qed

lemma query_answers:
  assumes "smooth drv (sc_calls c)" and "sqlite_ok c" and "fits (sc_db c)" and "\<not> (query = [] \<and> oc = ByRelevance)"
    and "(lov = None) = (lid = None)" and "\<not> unsupported oc limit lid"
  shows "\<exists>ts. fst (sqlite3_QueryTorrents drv rank query epoch oc asc limit lov lid c) = Inr ts \<and> length ts \<le> unat limit
     \<and> list_all (\<lambda>tm. \<exists>fs. sqlite_contents (sc_db c) (tm_InfoHash tm) = Some (tm_Name tm, fs)) ts"
proof -
  have t: "tables_ok (sc_db c)" using assms(2) by (simp add: sqlite_ok_def)
  from assms(6) obtain key where key: "orderOn oc = Inr key" by (cases oc) (auto simp: unsupported_def)
  let ?rows = "until epoch (query_rows rank query (sc_db c))"
  from assms(6) obtain a where rs: "select_torrents rank key query epoch asc limit lov lid (sc_db c)
      = Inr (page_of key asc a (nat (uint limit)) ?rows)"
    by (auto simp: unsupported_def select_torrents_def bind_uint64_def Let_def split: option.splits)
  let ?rs = "page_of key asc a (nat (uint limit)) ?rows"
  have sub: "set ?rs \<subseteq> set (query_rows rank query (sc_db c))"
    using page_of_rows(1) [of key asc a "nat (uint limit)" ?rows] by (auto simp: until_def)
  then have "\<forall>r \<in> set ?rs. row_fits r" using query_row_fits [OF t assms(3)] by blast
  from QueryTorrents_smooth [OF assms(1,4,5) key rs this]
  have "fst (sqlite3_QueryTorrents drv rank query epoch oc asc limit lov lid c) = Inr (map row_metadata ?rs)" .
  moreover have "\<exists>fs. sqlite_contents (sc_db c) (tm_InfoHash (row_metadata r)) = Some (tm_Name (row_metadata r), fs)" if "r \<in> set ?rs" for r
  proof -
    from that sub have "qr_torrent r \<in> set (map qr_torrent (query_rows rank query (sc_db c)))" by auto
    then have "qr_torrent r \<in> set (sl_torrents (sc_db c))" unfolding query_row_torrents by simp
    with torrent_of_eq [OF t] have "torrent_of (sc_db c) (tr_info_hash (qr_torrent r)) = Some (qr_torrent r)" by blast
    then show ?thesis by (simp add: sqlite_contents_def row_metadata_def Let_def)
  qed
  moreover have "length ?rs \<le> unat limit" using page_of_rows(2) [of key asc a "nat (uint limit)" ?rows] by simp
  ultimately show ?thesis by (auto simp: list_all_iff)
qed

lemma on_sqlite_query:
  assumes "sv_database s = SqliteDB c"
  shows "on_database (QueryTorrents (e_host E) query epoch oc asc limit lov lid) s
    = (fst (sqlite3_QueryTorrents (h_driver (e_host E)) (h_rank (e_host E)) query epoch oc asc limit lov lid c),
       s\<lparr>sv_database := SqliteDB (snd (sqlite3_QueryTorrents (h_driver (e_host E)) (h_rank (e_host E)) query epoch oc asc limit lov lid c))\<rparr>)"
  using assms by (simp add: on_database_def QueryTorrents_def dispatch_def on_sqlite_def map_prod_def split: prod.split)

text \<open>A search with the parameters of a decoded request, as the handler makes it.\<close>

definition search :: "web_env \<Rightarrow> torrents_query \<Rightarrow> OrderingCriteria \<Rightarrow> (server, string + TorrentMetadata list) op" where
  "search E tq oc = catchL (on_database (QueryTorrents (e_host E) (case tq_Query tq of None \<Rightarrow> [] | Some q \<Rightarrow> q)
     (case tq_Epoch tq of None \<Rightarrow> e_now E | Some n \<Rightarrow> n) oc (case tq_Ascending tq of None \<Rightarrow> True | Some b \<Rightarrow> b)
     (case tq_Limit tq of None \<Rightarrow> 20 | Some n \<Rightarrow> n) (tq_LastOrderedValue tq) (tq_LastID tq)))"

lemma apiTorrents_search:
  assumes "(Get (rq_Query r) ''lastOrderedValue'' = []) = (Get (rq_Query r) ''lastID'' = [])"
    and "e_decode E (rq_Query r) = Inr tq" and "case tq_Epoch tq of None \<Rightarrow> True | Some n \<Rightarrow> 0 < n"
  shows "apiTorrents E r = (case order_of (case tq_Query tq of None \<Rightarrow> [] | Some q \<Rightarrow> q) (tq_OrderBy tq) of
      Inl e \<Rightarrow> respond (respondError 400 (e_Sprintf E e))
    | Inr oc \<Rightarrow> bindL (search E tq oc) (\<lambda>res. case res of
          Inl e \<Rightarrow> respond (respondError 400 (''query error: '' @ e))
        | Inr torrents \<Rightarrow> send_json (JArr (map MarshalJSON torrents))))"
proof -
  have "\<not> (tq_Epoch tq \<noteq> None \<and> (case tq_Epoch tq of None \<Rightarrow> e_now E | Some n \<Rightarrow> n) \<le> 0)"
    using assms(3) by (cases "tq_Epoch tq") auto
  with assms(1,2) show ?thesis
    unfolding search_def apiTorrents_def Let_def by auto
qed


definition demo_search :: "string option \<Rightarrow> web_env" where
  "demo_search orderBy = demo_web\<lparr>e_decode := (\<lambda>_. Inr \<lparr>tq_Epoch = None, tq_Query = None, tq_OrderBy = orderBy, tq_Ascending = None,
     tq_LastOrderedValue = None, tq_LastID = None, tq_Limit = None\<rparr>)\<rparr>"


end
