(* ===== verification/Spec2Isabelle.thy ===== *)
theory Spec2Isabelle
  imports Manager Magneticod Magneticow
begin

text \<open>
  A model of magnetico, a crawler and search engine for the BitTorrent DHT written in Go, and proofs about it.  Two programs share
  a database.  \<open>magneticod\<close> (\<open>src/cmd/magneticod\<close>) runs indexing services that collect infohashes with peers from the
  DHT, fetches the metadata of each from its peers and stores it; \<open>magneticow\<close> (\<open>src/cmd/magneticow\<close>) serves the database
  to browsers.  The definitions are translations of the Go functions and keep their names where Isabelle allows
  it; a second method of the same name carries its type or its file as a prefix (\<open>CompactPeers_MarshalBinary\<close>,
  \<open>sqlite3_GetFiles\<close>, \<open>web_parseFlags\<close>).

  \<^bold>\<open>Conventions.\<close>  A Go struct is a record, an \<open>int\<close> an \<open>int\<close> with \<open>wrap64\<close> where it can overflow, an unsigned integer a word,
  a \<open>[]byte\<close> a list of 8-bit words, a \<open>string\<close> a list of characters that stand for bytes, a map an association list with distinct keys, a
  pointer that matters an index into an explicit store.  A function that can fail returns \<open>go_error + 'a\<close>, where
  \<open>Err\<close> is an error value and \<open>Panic\<close> a panic or a call of \<open>Fatal\<close>, which ends the program; one that also changes state is an operation
  \<open>'s \<Rightarrow> (go_error + 'a) \<times> 's\<close> (theory \<open>StateError\<close>), so that the state after an error is known.  Goroutines
  are steps of inductive relations, so that properties of reachable states hold for every interleaving of these steps.  Code
  from outside the repository is a parameter: bencode and metainfo, the kernel's sockets, the SQL drivers with their failures,
  the PostgreSQL sequences and statistics, the FTS ranking, random numbers and clocks, beanstalkd, go-flags, appdirs, gorilla/mux and
  gorilla/schema, bcrypt, the torrent client and the embedded assets.

  \<^bold>\<open>Theories and sources.\<close>
  \<^item> \<open>Prelude\<close>, \<open>StateError\<close>: bytes, slices, errors, maps, big-endian integers; sequencing of operations and the locale
    \<open>frame_order\<close> of what operations keep, interpreted for the leech (\<open>Leech\<close>), for committed contents (\<open>SQL\<close>), for reading (\<open>ReadOnly\<close>)
    and for the web server (\<open>Magneticow\<close>).
  \<^item> \<open>Sha1\<close>: SHA-1 of package \<open>crypto/sha1\<close>.  \<open>Channel\<close>: buffered channels and the locale \<open>outlet\<close> of a lossy queue.
  \<^item> \<open>Codec\<close> (\<open>dht/mainline/codec.go\<close>): compact nodes and peers, error lists; round trips and what is accepted.
  \<^item> \<open>Protocol\<close> (\<open>protocol.go\<close>): messages, validators, dispatch, tokens.  The locale \<open>protocol_client\<close> is the contract of the handlers.
  \<^item> \<open>Transport\<close> (\<open>transport.go\<close>): socket and read loop.
  \<^item> \<open>IndexingService\<close> (\<open>indexingService.go\<close>): the handlers and the tick; interprets \<open>protocol_client\<close>.  Invariant of the
    reachable states, no panic on any datagrams, which queries are sent and how replies are attributed.
  \<^item> \<open>Manager\<close> (\<open>dht/managers.go\<close>): life cycle; its output interprets \<open>outlet\<close>.
  \<^item> \<open>Leech\<close>, \<open>LeechPeer\<close> (\<open>bittorrent/metadata/leech.go\<close>): one download from one peer; termination with one callback, soundness of a
    success, success against a peer that follows the protocol, and exactly what makes it panic.
  \<^item> \<open>Sink\<close> (\<open>bittorrent/metadata/sink.go\<close>): the leeches in flight; invariant, deliveries, retries, termination.
  \<^item> \<open>ISO8601\<close> (\<open>pkg/persistence/iso8601.go\<close>): dates, with the calendar of package \<open>time\<close>.
  \<^item> \<open>Persistence\<close> (\<open>interface.go\<close>, \<open>stdout.go\<close>, \<open>beanstalkd.go\<close>): types, JSON, the two engines that keep nothing.
  \<^item> \<open>SQL\<close>: connections, transactions and their failures (\<open>database/sql\<close>).  \<open>Store\<close>: the locale \<open>torrent_store\<close>, the
    contract of an engine as a map from infohashes to names and files, interpreted by \<open>Sqlite3\<close>, \<open>Postgres\<close> and \<open>Database\<close>.
  \<^item> \<open>Sqlite3\<close>, \<open>Sqlite3Query\<close>, \<open>Sqlite3Stats\<close>, \<open>Sqlite3Schema\<close> (\<open>sqlite3.go\<close>): adding and reading, search and pagination, statistics,
    schema migrations; refinement of the map, atomicity under any failure of the driver, round trip.
  \<^item> \<open>Postgres\<close> (\<open>postgres.go\<close>): the same contract for PostgreSQL, with the check of UTF-8.
  \<^item> \<open>Database\<close> (\<open>interface.go\<close>): the interface as the sum of the four engines, and \<open>MakeDatabase\<close>.  \<open>ReadOnly\<close>: which methods only read.
  \<^item> \<open>Magneticod\<close> (\<open>cmd/magneticod/main.go\<close>): flags, start, event loop; what gets into the database.
  \<^item> \<open>Http\<close>, \<open>Credentials\<close>, \<open>Magneticow\<close> (\<open>cmd/magneticow\<close>, \<open>pkg/util\<close>): responses, base64, the credentials file and its reload, every
    handler, the routes; who is served, and what.
  \<^item> This theory: the property that spans both programs.

  \<^bold>\<open>Termination and bounds.\<close>  Every function is total and none takes fuel.  Loops over input recurse on the list that is left
  (datagrams of a socket, messages of a peer, lines of a file, rows of a query), and the leech ends because every
  read shortens what the peer has sent.  The bounds are those of the code: 10 MiB of metadata, 20 results in the manager's
  channel, 10 in the drain, the maximal numbers of neighbours and of leeches.

  \<^bold>\<open>Not modelled.\<close>  Log output, log levels and profiling, which nothing reads; the text of JSON documents (kept as trees) and
  of the two HTML templates with their formatting functions, which are produced by libraries; the JavaScript and CSS assets; the
  build files.  Deadlines of connections are failures that the parameters may produce at any read.  A \<open>float64\<close> is a
  rational number.  Data races on unsynchronised fields (\<open>opts.Credentials\<close>, \<open>Sink.deleted\<close>, \<open>Sink.terminated\<close>) are
  interleavings of whole accesses, without torn reads.
\<close>

section \<open>From the swarm to the web page\<close>

text \<open>C1: end-to-end integrity.  Let \<open>magneticod\<close> start on an empty database and run in any way, and let
  \<open>magneticow\<close>, without authentication and with a driver that works, serve the SQLite tables that it has written.  A
  request for the files of a torrent is then answered with 404, or with the files of metadata that was decoded from bytes
  whose SHA-1 digest is the infohash in the path of the request, and an indexing service has delivered a result for it.\<close>

theorem served_files_verified:
  assumes "start H services draw opF = Inr d0" and "database_ok (d_database d0)"
    and "database_contents (d_database d0) = (\<lambda>_. None)" and "main_reachable H codec d0 d" and "d_database d = SqliteDB c"
    and "sv_database s = SqliteDB c'" and "sc_db c' = sc_db c" and "sc_tx c' = None"
    and "smooth (h_driver (e_host E)) (sc_calls c')" and "sv_w s = new_response" and "o_Credentials opt = None"
    and "infohash_pattern mux" and "mux (rq_Path r) = Some (ApiFilelist, vars)"
  shows "\<exists>s'. serve mux E opt r s = (Inr (), s') \<and> (status (sv_w s') = 404
     \<or> (\<exists>m info. map_of vars ''infohash'' = Some (EncodeToString (sha1 m)) \<and> sha1 m \<in> set (d_found d)
          \<and> env_info codec m = Inr info \<and> status (sv_w s') = 200
          \<and> w_body (sv_w s') = [Document (JArr (map file_json (info_files codec info)))]))"
proof -
  have inv: "main_inv codec (\<lambda>_. None) d"
    using main_reachable_inv [OF assms(4) initial_inv [OF _ _ assms(2)]] start_initial [OF assms(1)] assms(3) by simp
  then have ok: "sqlite_ok c'" using assms(5,7,8) by (simp add: main_inv_def sqlite_ok_def)
  let ?r = "r\<lparr>rq_Vars := vars\<rparr>"
  from infohash_decodes [OF assms(12,13), of r] obtain h where h: "map_of vars ''infohash'' = Some (EncodeToString h)"
    "DecodeString (infohash_of ?r) = Inr h" by (auto simp: infohash_routes_def)
  from sqlite_handler(2) [OF assms(6) ok assms(9,10) h(2)] obtain s' where s': "apiFilelist E ?r s = (Inr (), s')"
    "filelist_answer (sqlite_contents (sc_db c) h) (sv_w s')" using assms(7) by auto
  have "serve mux E opt r s = (Inr (), s')" using s'(1) assms(11,13) by (simp add: serve_def BasicAuth_def)
  moreover have "status (sv_w s') = 404 \<or> (\<exists>m info. map_of vars ''infohash'' = Some (EncodeToString (sha1 m)) \<and> sha1 m \<in> set (d_found d)
      \<and> env_info codec m = Inr info \<and> status (sv_w s') = 200
      \<and> w_body (sv_w s') = [Document (JArr (map file_json (info_files codec info)))])"
  proof (cases "sqlite_contents (sc_db c) h")
    case None
    with s'(2) show ?thesis by (simp add: filelist_answer_def)
  next
    case (Some nf)
    then obtain n fs where nf: "sqlite_contents (sc_db c) h = Some (n, fs)" by (cases nf) auto
    with inv assms(5) have "h \<in> set (d_found d)" "vouched codec h n fs" by (simp_all add: main_inv_def)
    then obtain m info where m: "sha1 m = h" "env_info codec m = Inr info" "info_files codec info = fs" "h \<in> set (d_found d)"
      by (auto simp: vouched_def)
    have "status (sv_w s') = 404 \<or> status (sv_w s') = 200 \<and> w_body (sv_w s') = [Document (JArr (map file_json fs))]"
      using s'(2) nf by (cases fs) (simp_all add: filelist_answer_def)
    with m h(1) show ?thesis by auto
  qed
  ultimately show ?thesis by blast
qed

theorem served_files_verified_witness:
  "\<exists>d0 d c s'. start demo_host [] (\<lambda>_. 0) demo_flags = Inr d0
     \<and> main_reachable demo_host (demo_leech_env (frame [20, 1, 0, 1, 2, 3, 4, 5])) d0 d \<and> d_database d = SqliteDB c
     \<and> serve (\<lambda>_. Some (ApiFilelist, [(''infohash'', EncodeToString (sha1 [1, 2, 3, 4, 5]))])) demo_web zero_opts (demo_request [])
         \<lparr>sv_database = SqliteDB \<lparr>sc_db = sc_db c, sc_tx = None, sc_calls = 0\<rparr>, sv_w = new_response, sv_magnets = []\<rparr> = (Inr (), s')
     \<and> status (sv_w s') = 200 \<and> sha1 [1, 2, 3, 4, 5] \<in> set (d_found d)"
proof -
  let ?h = "sha1 [1, 2, 3, 4, 5]"
  let ?vars = "[(''infohash'', EncodeToString ?h)]"
  let ?mux = "\<lambda>_. Some (ApiFilelist, ?vars)"
  from demo_run obtain d0 d c where d: "start demo_host [] (\<lambda>_. 0) demo_flags = Inr d0" "database_ok (d_database d0)"
    "database_contents (d_database d0) = (\<lambda>_. None)"
    "main_reachable demo_host (demo_leech_env (frame [20, 1, 0, 1, 2, 3, 4, 5])) d0 d"
    "d_database d = SqliteDB c" and st: "sqlite_contents (sc_db c) ?h = Some (''demo'', md_Files demo_md)" by blast
  let ?c = "\<lparr>sc_db = sc_db c, sc_tx = None, sc_calls = 0\<rparr>"
  let ?s = "\<lparr>sv_database = SqliteDB ?c, sv_w = new_response, sv_magnets = []\<rparr>"
  have m: "infohash_pattern ?mux"
    using length_EncodeToString [of ?h] EncodeToString_digits [of ?h] by (simp add: infohash_pattern_def length_sha1)
  have e: "smooth (h_driver (e_host demo_web)) (sc_calls ?c)" "o_Credentials zero_opts = None"
    by (simp_all add: demo_web_def demo_web_host_def smooth_def steady_driver_def failing_driver_def zero_opts_def)
  from served_files_verified [OF d(1-5) _ _ _ e(1) _ e(2) m refl, of ?s "demo_request []"] obtain s' where
    s': "serve ?mux demo_web zero_opts (demo_request []) ?s = (Inr (), s')" "status (sv_w s') = 404
      \<or> (\<exists>m. EncodeToString ?h = EncodeToString (sha1 m) \<and> sha1 m \<in> set (d_found d) \<and> status (sv_w s') = 200)" by auto
  have "sqlite_ok ?c" using main_reachable_inv [OF d(4) initial_inv [OF _ _ d(2)]] start_initial [OF d(1)] d(5)
    by (simp add: main_inv_def sqlite_ok_def)
  from sqlite_handler(2) [OF _ this e(1), of ?s "demo_request []\<lparr>rq_Vars := ?vars\<rparr>" ?h] s'(1) st e(2) have "status (sv_w s') = 200"
    by (simp add: serve_def BasicAuth_def infohash_of_def map_get_def filelist_answer_def demo_md_def)
  moreover from this s'(2) obtain m where "EncodeToString ?h = EncodeToString (sha1 m)" "sha1 m \<in> set (d_found d)" by auto
  then have "?h \<in> set (d_found d)" by (metis DecodeString_encode sum.inject(2))
  ultimately show ?thesis using d s'(1) by blast
qed

end
